theory Spec2Isabelle
  imports Complex_Main "HOL-Library.Monad_Syntax"
begin

section \<open>Pair style dpd/jung: data model\<close>

text \<open>
  A shallow embedding of \<^verbatim>\<open>src/pair_dpd_jung.cpp\<close> (\<^verbatim>\<open>PairDPDJung\<close>).

  Conventions of the embedding.
  \<^item> A C \<^verbatim>\<open>double\<close> is a \<^typ>\<open>real\<close>: rounding is not modelled. A division whose
    divisor is zero, and a square root of a negative number, have no real value in
    IEEE arithmetic (an infinity or a NaN); the embedding makes them a failure
    (\<open>fdiv\<close>, \<open>fsqrt\<close>), written \<open>None\<close>.
  \<^item> A C \<^verbatim>\<open>int\<close> is an \<^typ>\<open>int\<close> (the indices of the source stay far below the
    wrap-around).
  \<^item> An array is a list. A read or a store outside the list is undefined behaviour in
    C++; the embedding makes it a failure (\<open>rd\<close>, \<open>wr\<close>), written \<open>None\<close>.
\<close>

subsection \<open>Arrays and arithmetic\<close>

definition rd :: "'a list \<Rightarrow> int \<Rightarrow> 'a option" where
  "rd a i = (if 0 \<le> i \<and> i < int (length a) then Some (a ! nat i) else None)"

definition wr :: "'a list \<Rightarrow> int \<Rightarrow> 'a \<Rightarrow> 'a list option" where
  "wr a i y = (if 0 \<le> i \<and> i < int (length a) then Some (a[nat i := y]) else None)"

definition rd2 :: "'a list list \<Rightarrow> int \<Rightarrow> int \<Rightarrow> 'a option" where
  "rd2 a i j = do { row \<leftarrow> rd a i; rd row j }"

definition wr2 :: "'a list list \<Rightarrow> int \<Rightarrow> int \<Rightarrow> 'a \<Rightarrow> 'a list list option" where
  "wr2 a i j y = do { row \<leftarrow> rd a i; row' \<leftarrow> wr row j y; wr a i row' }"

definition fdiv :: "real \<Rightarrow> real \<Rightarrow> real option" where
  "fdiv a b = (if b = 0 then None else Some (a / b))"

definition fsqrt :: "real \<Rightarrow> real option" where
  "fsqrt a = (if a < 0 then None else Some (sqrt a))"

definition EPSILON :: real where
  "EPSILON = 1 / 10 ^ 10"

subsection \<open>The pair style's own state\<close>

text \<open>
  The members of \<^verbatim>\<open>PairDPDJung\<close> that the functions below read or write. The tables
  are \<open>(ntypes + 1) \<times> (ntypes + 1)\<close> arrays indexed by atom type, from 1.
\<close>

record pair_dpd =
  setflag :: "int list list"
  cutsq :: "real list list"
  cut :: "real list list"
  a0 :: "real list list"
  gamma :: "real list list"
  sigma :: "real list list"
  temperature :: real
  cut_global :: real
  seed :: int
  mix_flag :: int

text \<open>
  The simulation engine's state the pair style reaches through \<^verbatim>\<open>atom->\<close>,
  \<^verbatim>\<open>force->\<close>, \<^verbatim>\<open>update->\<close> and \<^verbatim>\<open>list->\<close>. A position or velocity row
  \<^verbatim>\<open>x[i]\<close> is a triple.

  The macros \<^verbatim>\<open>sbmask\<close> and \<^verbatim>\<open>NEIGHMASK\<close> are declared in headers of the engine
  that are not part of the repository; they are parameters of the model:
  \<open>sbmask\<close> is the macro, \<open>neighmask j\<close> is \<^verbatim>\<open>j & NEIGHMASK\<close>.
\<close>

type_synonym vec3 = "real \<times> real \<times> real"

definition c0 :: "vec3 \<Rightarrow> real" where "c0 p = fst p"
definition c1 :: "vec3 \<Rightarrow> real" where "c1 p = fst (snd p)"
definition c2 :: "vec3 \<Rightarrow> real" where "c2 p = snd (snd p)"

record lammps =
  atom_x :: "vec3 list"
  atom_v :: "vec3 list"
  atom_type :: "int list"
  atom_tag :: "int list"
  atom_nlocal :: int
  atom_ntypes :: int
  force_special_lj :: "real list"
  force_newton_pair :: int
  force_boltz :: real
  update_dt :: real
  list_inum :: int
  list_ilist :: "int list"
  list_numneigh :: "int list"
  list_firstneigh :: "int list list"
  sbmask :: "int \<Rightarrow> int"
  neighmask :: "int \<Rightarrow> int"

datatype error =
  Fatal string
  | Undefined

section \<open>Setup: \<^verbatim>\<open>init_one\<close>\<close>

text \<open>
  \<^verbatim>\<open>double PairDPDJung::init_one(int i, int j)\<close>: \<^verbatim>\<open>error->all\<close> ends the run, so
  it is the result \<open>Inl (Fatal _)\<close>; a failure of the embedding (an index outside a
  table, a value that is no real number) is \<open>Inl Undefined\<close>.
\<close>

definition orfail :: "'a option \<Rightarrow> error + 'a" where
  "orfail m = (case m of None \<Rightarrow> Inl Undefined | Some y \<Rightarrow> Inr y)"

definition init_one_tables :: "lammps \<Rightarrow> pair_dpd \<Rightarrow> int \<Rightarrow> int \<Rightarrow> (real \<times> pair_dpd) option" where
  "init_one_tables env p i j = do {
     g \<leftarrow> rd2 (gamma p) i j;
     s \<leftarrow> fsqrt (2 * force_boltz env * temperature p * g);
     sigma1 \<leftarrow> wr2 (sigma p) i j s;
     cij \<leftarrow> rd2 (cut p) i j;
     cut1 \<leftarrow> wr2 (cut p) j i cij;
     aij \<leftarrow> rd2 (a0 p) i j;
     a01 \<leftarrow> wr2 (a0 p) j i aij;
     gij \<leftarrow> rd2 (gamma p) i j;
     gamma1 \<leftarrow> wr2 (gamma p) j i gij;
     sij \<leftarrow> rd2 sigma1 i j;
     sigma2 \<leftarrow> wr2 sigma1 j i sij;
     cret \<leftarrow> rd2 cut1 i j;
     Some (cret, p\<lparr>cut := cut1, a0 := a01, gamma := gamma1, sigma := sigma2\<rparr>)
   }"

definition init_one :: "lammps \<Rightarrow> pair_dpd \<Rightarrow> int \<Rightarrow> int \<Rightarrow> error + (real \<times> pair_dpd)" where
  "init_one env p i j =
     (case rd2 (setflag p) i j of
        None \<Rightarrow> Inl Undefined
      | Some s \<Rightarrow>
          if s = 0 then Inl (Fatal ''All pair coeffs are not set'')
          else orfail (init_one_tables env p i j))"

section \<open>Full mode: \<^verbatim>\<open>compute\<close>\<close>

text \<open>
  A \<^verbatim>\<open>for\<close> loop over an index range runs its body on each index in turn and stops
  at the first failure. The range of \<^verbatim>\<open>for (k = a; k <= b; k++)\<close> is \<open>[a..b]\<close>, that
  of \<^verbatim>\<open>for (k = 0; k < n; k++)\<close> is \<open>[0..n - 1]\<close>.
\<close>

fun forM :: "'a list \<Rightarrow> ('a \<Rightarrow> 's \<Rightarrow> 's option) \<Rightarrow> 's \<Rightarrow> 's option" where
  "forM [] body s = Some s"
| "forM (k # ks) body s = (case body k s of None \<Rightarrow> None | Some s' \<Rightarrow> forM ks body s')"

text \<open>\<^verbatim>\<open>a[k] += d\<close>, \<^verbatim>\<open>a[k] -= d\<close> and \<^verbatim>\<open>a[k] *= d\<close>.\<close>

definition add_at :: "real list \<Rightarrow> int \<Rightarrow> real \<Rightarrow> real list option" where
  "add_at a k d = do { old \<leftarrow> rd a k; wr a k (old + d) }"

definition sub_at :: "real list \<Rightarrow> int \<Rightarrow> real \<Rightarrow> real list option" where
  "sub_at a k d = do { old \<leftarrow> rd a k; wr a k (old - d) }"

definition mul_at :: "real list \<Rightarrow> int \<Rightarrow> real \<Rightarrow> real list option" where
  "mul_at a k d = do { old \<leftarrow> rd a k; wr a k (old * d) }"

text \<open>
  What the neighbour loop of \<^verbatim>\<open>compute\<close> changes: the vector \<^verbatim>\<open>f_step\<close>, the
  random number generator (\<open>ndraw\<close> counts the calls of \<^verbatim>\<open>random->gaussian()\<close>; the
  generator itself is the stream \<open>gaussian\<close> of its draws), and the calls of the engine's
  \<^verbatim>\<open>ev_tally(i,j,nlocal,newton_pair,evdwl,0.0,fpair,delx,dely,delz)\<close>, recorded in order
  as \<open>(i, j, evdwl, fpair, delx, dely, delz)\<close>.
\<close>

record full_state =
  f_step :: "real list"
  ndraw :: nat
  tally :: "(int \<times> int \<times> real \<times> real \<times> real \<times> real \<times> real) list"

text \<open>
  The body of the loop over \<^verbatim>\<open>jj\<close> (lines 119 to 165), for the entry \<open>jraw\<close> of the
  neighbour list of atom \<open>i\<close>, in two parts: \<open>compute_pair_force\<close> is the part after the
  test of \<^verbatim>\<open>r < EPSILON\<close> (lines 133 to 164). \<open>dtinvsqrt\<close> is
  \<^verbatim>\<open>1.0/sqrt(update->dt)\<close>, a failure when it is no real number, and used only where
  the source uses it. The local \<^verbatim>\<open>dot\<close> of the source is computed from uninitialised
  variables and never used: it is left out.
\<close>

definition compute_pair_force ::
  "lammps \<Rightarrow> pair_dpd \<Rightarrow> (nat \<Rightarrow> real) \<Rightarrow> int \<Rightarrow> int \<Rightarrow> real option \<Rightarrow>
     int \<Rightarrow> int \<Rightarrow> int \<Rightarrow> int \<Rightarrow> int \<Rightarrow> int \<Rightarrow> real \<Rightarrow> real \<Rightarrow> real \<Rightarrow> real \<Rightarrow> real \<Rightarrow>
     full_state \<Rightarrow> full_state option" where
  "compute_pair_force env p gaussian eflag evflag dtinvsqrt i j itype jtype itag jtag
       factor_dpd delx dely delz r st = do {
     rinv \<leftarrow> fdiv 1 r;
     cij \<leftarrow> rd2 (cut p) itype jtype;
     q \<leftarrow> fdiv r cij;
     let wd = 1 - q;
     let randnum = gaussian (ndraw st);
     aij \<leftarrow> rd2 (a0 p) itype jtype;
     let fpair = aij * wd;
     sij \<leftarrow> rd2 (sigma p) itype jtype;
     dis \<leftarrow> dtinvsqrt;
     let fpair = fpair + sij * wd * randnum * dis;
     let fpair = fpair * (factor_dpd * rinv);
     f1 \<leftarrow> add_at (f_step st) (3 * itag) (delx * fpair);
     f2 \<leftarrow> add_at f1 (3 * itag + 1) (dely * fpair);
     f3 \<leftarrow> add_at f2 (3 * itag + 2) (delz * fpair);
     f6 \<leftarrow> (if force_newton_pair env \<noteq> 0 \<or> j < atom_nlocal env then do {
             f4 \<leftarrow> sub_at f3 (3 * jtag) (delx * fpair);
             f5 \<leftarrow> sub_at f4 (3 * jtag + 1) (dely * fpair);
             sub_at f5 (3 * jtag + 2) (delz * fpair)
           } else Some f3);
     let evdwl = (if eflag \<noteq> 0 then 0.5 * aij * cij * wd * wd * factor_dpd else 0);
     let tl = (if evflag \<noteq> 0 then tally st @ [(i, j, evdwl, fpair, delx, dely, delz)]
               else tally st);
     Some (st\<lparr>f_step := f6, ndraw := Suc (ndraw st), tally := tl\<rparr>)
   }"

definition compute_pair ::
  "lammps \<Rightarrow> pair_dpd \<Rightarrow> (nat \<Rightarrow> real) \<Rightarrow> int \<Rightarrow> int \<Rightarrow> real option \<Rightarrow>
     int \<Rightarrow> vec3 \<Rightarrow> int \<Rightarrow> int \<Rightarrow> int \<Rightarrow> full_state \<Rightarrow> full_state option" where
  "compute_pair env p gaussian eflag evflag dtinvsqrt i xi itype itag jraw st = do {
     factor_dpd \<leftarrow> rd (force_special_lj env) (sbmask env jraw);
     let j = neighmask env jraw;
     xj \<leftarrow> rd (atom_x env) j;
     let delx = c0 xi - c0 xj;
     let dely = c1 xi - c1 xj;
     let delz = c2 xi - c2 xj;
     let rsq = delx * delx + dely * dely + delz * delz;
     jtype \<leftarrow> rd (atom_type env) j;
     tagj \<leftarrow> rd (atom_tag env) j;
     let jtag = tagj - 1;
     csq \<leftarrow> rd2 (cutsq p) itype jtype;
     if rsq < csq then do {
       r \<leftarrow> fsqrt rsq;
       if r < EPSILON then Some st
       else compute_pair_force env p gaussian eflag evflag dtinvsqrt i j itype jtype itag jtag
              factor_dpd delx dely delz r st
     } else Some st
   }"

text \<open>The body of the loop over \<^verbatim>\<open>ii\<close> (lines 109 to 166).\<close>

definition compute_atom ::
  "lammps \<Rightarrow> pair_dpd \<Rightarrow> (nat \<Rightarrow> real) \<Rightarrow> int \<Rightarrow> int \<Rightarrow> real option \<Rightarrow>
     int \<Rightarrow> full_state \<Rightarrow> full_state option" where
  "compute_atom env p gaussian eflag evflag dtinvsqrt ii st = do {
     i \<leftarrow> rd (list_ilist env) ii;
     xi \<leftarrow> rd (atom_x env) i;
     itype \<leftarrow> rd (atom_type env) i;
     tagi \<leftarrow> rd (atom_tag env) i;
     let itag = tagi - 1;
     jlist \<leftarrow> rd (list_firstneigh env) i;
     jnum \<leftarrow> rd (list_numneigh env) i;
     forM [0..jnum - 1]
       (\<lambda>jj st. do {
          jraw \<leftarrow> rd jlist jj;
          compute_pair env p gaussian eflag evflag dtinvsqrt i xi itype itag jraw st
        }) st
   }"

text \<open>
  The conversion of the accumulated force into the right-hand side (lines 169 to 178):
  the body of the loop over \<^verbatim>\<open>i\<close>.
\<close>

definition rhs_atom :: "lammps \<Rightarrow> int \<Rightarrow> real list \<Rightarrow> real list option" where
  "rhs_atom env i f = do {
     f \<leftarrow> mul_at f (3 * i) (update_dt env * update_dt env / 2);
     f \<leftarrow> mul_at f (3 * i + 1) (update_dt env * update_dt env / 2);
     f \<leftarrow> mul_at f (3 * i + 2) (update_dt env * update_dt env / 2);
     vi \<leftarrow> rd (atom_v env) i;
     f \<leftarrow> add_at f (3 * i) (update_dt env * c0 vi);
     f \<leftarrow> add_at f (3 * i + 1) (update_dt env * c0 vi);
     add_at f (3 * i + 2) (update_dt env * c0 vi)
   }"

text \<open>
  \<^verbatim>\<open>compute\<close> up to the call of the solver (lines 81 to 178): the state after the
  neighbour loop and the scaling, whose \<open>f_step\<close> is the right-hand side handed to
  \<^verbatim>\<open>compute_inverse\<close>. \<^verbatim>\<open>ev_setup\<close> belongs to the engine's base class, which is
  not part of the repository; it is modelled from the spec (the tally sink is "invoked
  only when energy/virial accounting is requested"): \<open>evflag\<close> is set when \<open>eflag\<close> or
  \<open>vflag\<close> is.
\<close>

definition compute_rhs ::
  "lammps \<Rightarrow> pair_dpd \<Rightarrow> (nat \<Rightarrow> real) \<Rightarrow> nat \<Rightarrow> int \<Rightarrow> int \<Rightarrow> full_state option" where
  "compute_rhs env p gaussian ndraw0 eflag vflag = do {
     let evflag = (if eflag \<noteq> 0 \<or> vflag \<noteq> 0 then 1 else 0);
     let dtinvsqrt = do { sd \<leftarrow> fsqrt (update_dt env); fdiv 1 sd };
     let st = \<lparr>f_step = replicate (nat (3 * atom_nlocal env)) 0, ndraw = ndraw0, tally = []\<rparr>;
     st \<leftarrow> forM [0..list_inum env - 1] (compute_atom env p gaussian eflag evflag dtinvsqrt) st;
     f \<leftarrow> forM [0..atom_nlocal env - 1] (rhs_atom env) (f_step st);
     Some (st\<lparr>f_step := f\<rparr>)
   }"

section \<open>\<^verbatim>\<open>single\<close>\<close>

text \<open>
  \<^verbatim>\<open>double PairDPDJung::single(i, j, itype, jtype, rsq, factor_coul, factor_dpd, &fforce)\<close>:
  the result is the pair \<open>(returned energy, fforce)\<close>.
\<close>

definition single ::
  "pair_dpd \<Rightarrow> int \<Rightarrow> int \<Rightarrow> int \<Rightarrow> int \<Rightarrow> real \<Rightarrow> real \<Rightarrow> real \<Rightarrow> (real \<times> real) option" where
  "single p i j itype jtype rsq factor_coul factor_dpd = do {
     r \<leftarrow> fsqrt rsq;
     if r < EPSILON then Some (0, 0)
     else do {
       rinv \<leftarrow> fdiv 1 r;
       cij \<leftarrow> rd2 (cut p) itype jtype;
       q \<leftarrow> fdiv r cij;
       let wd = 1 - q;
       aij \<leftarrow> rd2 (a0 p) itype jtype;
       let fforce = aij * wd * factor_dpd * rinv;
       let phi = 0.5 * aij * cij * wd * wd;
       Some (factor_dpd * phi, fforce)
     }
   }"

section \<open>Step mode: \<^verbatim>\<open>compute_step\<close>\<close>

text \<open>
  The body of the loop over \<^verbatim>\<open>jj\<close> (lines 514 to 545), in two parts:
  \<open>step_pair_force\<close> is the part after the test of \<^verbatim>\<open>r < EPSILON\<close> (lines 528 to
  544). \<open>vi\<close> is \<^verbatim>\<open>(vxtmp, vytmp, vztmp)\<close> and \<open>pre\<close> is \<^verbatim>\<open>-update->dt / 2.0\<close>.
\<close>

definition step_pair_force ::
  "lammps \<Rightarrow> pair_dpd \<Rightarrow> real list \<Rightarrow> real \<Rightarrow> vec3 \<Rightarrow> int \<Rightarrow> int \<Rightarrow> int \<Rightarrow> int \<Rightarrow> int \<Rightarrow>
     real \<Rightarrow> real \<Rightarrow> real \<Rightarrow> real \<Rightarrow> real \<Rightarrow> real list \<Rightarrow> real list option" where
  "step_pair_force env p input pre vi j itype jtype itag jtag factor_dpd delx dely delz r
       output = do {
     rinv \<leftarrow> fdiv 1 r;
     vj0 \<leftarrow> rd input (3 * jtag);
     vj1 \<leftarrow> rd input (3 * jtag + 1);
     vj2 \<leftarrow> rd input (3 * jtag + 2);
     let delvx = c0 vi - vj0;
     let delvy = c1 vi - vj1;
     let delvz = c2 vi - vj2;
     let dot = delx * delvx + dely * delvy + delz * delvz;
     cij \<leftarrow> rd2 (cut p) itype jtype;
     q \<leftarrow> fdiv r cij;
     let wd = 1 - q;
     gij \<leftarrow> rd2 (gamma p) itype jtype;
     let fpair = - gij * wd * wd * dot * rinv;
     let fpair = fpair * (pre * factor_dpd * rinv);
     o1 \<leftarrow> add_at output (3 * itag) (delx * fpair);
     o2 \<leftarrow> add_at o1 (3 * itag + 1) (dely * fpair);
     o3 \<leftarrow> add_at o2 (3 * itag + 2) (delz * fpair);
     if force_newton_pair env \<noteq> 0 \<or> j < atom_nlocal env then do {
       o4 \<leftarrow> sub_at o3 (3 * jtag) (delx * fpair);
       o5 \<leftarrow> sub_at o4 (3 * jtag + 1) (dely * fpair);
       sub_at o5 (3 * jtag + 2) (delz * fpair)
     } else Some o3
   }"

definition step_pair ::
  "lammps \<Rightarrow> pair_dpd \<Rightarrow> real list \<Rightarrow> real \<Rightarrow> vec3 \<Rightarrow> vec3 \<Rightarrow> int \<Rightarrow> int \<Rightarrow> int \<Rightarrow>
     real list \<Rightarrow> real list option" where
  "step_pair env p input pre xi vi itype itag jraw output = do {
     factor_dpd \<leftarrow> rd (force_special_lj env) (sbmask env jraw);
     let j = neighmask env jraw;
     xj \<leftarrow> rd (atom_x env) j;
     let delx = c0 xi - c0 xj;
     let dely = c1 xi - c1 xj;
     let delz = c2 xi - c2 xj;
     let rsq = delx * delx + dely * dely + delz * delz;
     jtype \<leftarrow> rd (atom_type env) j;
     tagj \<leftarrow> rd (atom_tag env) j;
     let jtag = tagj - 1;
     csq \<leftarrow> rd2 (cutsq p) itype jtype;
     if rsq < csq then do {
       r \<leftarrow> fsqrt rsq;
       if r < EPSILON then Some output
       else step_pair_force env p input pre vi j itype jtype itag jtag factor_dpd
              delx dely delz r output
     } else Some output
   }"

text \<open>The body of the loop over \<^verbatim>\<open>ii\<close> (lines 495 to 546).\<close>

definition step_atom ::
  "lammps \<Rightarrow> pair_dpd \<Rightarrow> real list \<Rightarrow> real \<Rightarrow> int \<Rightarrow> real list \<Rightarrow> real list option" where
  "step_atom env p input pre ii output = do {
     i \<leftarrow> rd (list_ilist env) ii;
     xi \<leftarrow> rd (atom_x env) i;
     vxtmp \<leftarrow> rd input (3 * i);
     vytmp \<leftarrow> rd input (3 * i + 1);
     vztmp \<leftarrow> rd input (3 * i + 2);
     itype \<leftarrow> rd (atom_type env) i;
     tagi \<leftarrow> rd (atom_tag env) i;
     let itag = tagi - 1;
     jlist \<leftarrow> rd (list_firstneigh env) i;
     jnum \<leftarrow> rd (list_numneigh env) i;
     u0 \<leftarrow> rd input (3 * itag);
     o1 \<leftarrow> add_at output (3 * itag) u0;
     u1 \<leftarrow> rd input (3 * itag + 1);
     o2 \<leftarrow> add_at o1 (3 * itag + 1) u1;
     u2 \<leftarrow> rd input (3 * itag + 2);
     o3 \<leftarrow> add_at o2 (3 * itag + 2) u2;
     forM [0..jnum - 1]
       (\<lambda>jj out. do {
          jraw \<leftarrow> rd jlist jj;
          step_pair env p input pre xi (vxtmp, vytmp, vztmp) itype itag jraw out
        }) o3
   }"

text \<open>
  \<^verbatim>\<open>void PairDPDJung::compute_step(double* input, double* output)\<close>: the result is the
  content of \<^verbatim>\<open>output\<close> on return. The two buffers are distinct arrays at every call
  of the source. (\<^verbatim>\<open>dtinvsqrt\<close> is computed and never used here: it is left out.)
\<close>

definition compute_step :: "lammps \<Rightarrow> pair_dpd \<Rightarrow> real list \<Rightarrow> real list \<Rightarrow> real list option" where
  "compute_step env p input output =
     (let pre = - update_dt env / 2
      in forM [0..list_inum env - 1] (step_atom env p input pre) output)"

section \<open>Restart files\<close>

text \<open>
  A restart file is the sequence of the scalars written to it, each by one
  \<^verbatim>\<open>fwrite(&x,sizeof(int),1,fp)\<close> or \<^verbatim>\<open>fwrite(&x,sizeof(double),1,fp)\<close>; a file being
  read is the sequence of the scalars not yet consumed. \<^verbatim>\<open>fread\<close> at the end of the
  file reads nothing and leaves its destination as it was (the source does not look at
  the count \<^verbatim>\<open>fread\<close> returns). A read of one kind of scalar where the file holds the
  other kind reinterprets bytes; the embedding makes it a failure.
\<close>

datatype scalar = SInt int | SDouble real

definition fwrite_int :: "int \<Rightarrow> scalar list \<Rightarrow> scalar list" where
  "fwrite_int y fp = fp @ [SInt y]"

definition fwrite_double :: "real \<Rightarrow> scalar list \<Rightarrow> scalar list" where
  "fwrite_double y fp = fp @ [SDouble y]"

definition fread_int :: "int \<Rightarrow> scalar list \<Rightarrow> (int \<times> scalar list) option" where
  "fread_int cur fp =
     (case fp of [] \<Rightarrow> Some (cur, []) | SInt y # rest \<Rightarrow> Some (y, rest) | SDouble _ # _ \<Rightarrow> None)"

definition fread_double :: "real \<Rightarrow> scalar list \<Rightarrow> (real \<times> scalar list) option" where
  "fread_double cur fp =
     (case fp of [] \<Rightarrow> Some (cur, []) | SDouble y # rest \<Rightarrow> Some (y, rest) | SInt _ # _ \<Rightarrow> None)"

text \<open>\<^verbatim>\<open>void PairDPDJung::write_restart_settings(FILE *fp)\<close>\<close>

definition write_restart_settings :: "pair_dpd \<Rightarrow> scalar list \<Rightarrow> scalar list" where
  "write_restart_settings p fp =
     fwrite_int (mix_flag p) (fwrite_int (seed p)
       (fwrite_double (cut_global p) (fwrite_double (temperature p) fp)))"

text \<open>
  \<^verbatim>\<open>void PairDPDJung::write_restart(FILE *fp)\<close>; \<open>write_restart_pair\<close> is the body of
  its inner loop (lines 350 to 355).
\<close>

definition write_restart_pair :: "pair_dpd \<Rightarrow> int \<Rightarrow> int \<Rightarrow> scalar list \<Rightarrow> scalar list option" where
  "write_restart_pair p i j fp = do {
     flag \<leftarrow> rd2 (setflag p) i j;
     let fp = fwrite_int flag fp;
     if flag \<noteq> 0 then do {
       aij \<leftarrow> rd2 (a0 p) i j;
       let fp = fwrite_double aij fp;
       gij \<leftarrow> rd2 (gamma p) i j;
       let fp = fwrite_double gij fp;
       cij \<leftarrow> rd2 (cut p) i j;
       Some (fwrite_double cij fp)
     } else Some fp
   }"

definition write_restart :: "lammps \<Rightarrow> pair_dpd \<Rightarrow> scalar list \<Rightarrow> scalar list option" where
  "write_restart env p fp =
     forM [1..atom_ntypes env]
       (\<lambda>i. forM [i..atom_ntypes env] (write_restart_pair p i))
       (write_restart_settings p fp)"

text \<open>
  \<^verbatim>\<open>void PairDPDJung::allocate()\<close>. \<^verbatim>\<open>memory->create\<close> returns arrays of
  \<open>(n + 1) \<times> (n + 1)\<close> entries whose content is not specified: they are the tables of the
  parameter \<open>fresh\<close>.
\<close>

definition allocate :: "lammps \<Rightarrow> pair_dpd \<Rightarrow> pair_dpd \<Rightarrow> pair_dpd option" where
  "allocate env fresh p = do {
     let n = atom_ntypes env;
     sf \<leftarrow> forM [1..n] (\<lambda>i. forM [i..n] (\<lambda>j sf. wr2 sf i j 0)) (setflag fresh);
     (sg, gm) \<leftarrow> forM [0..atom_ntypes env]
        (\<lambda>i. forM [0..atom_ntypes env]
           (\<lambda>j (sg, gm). do { gm \<leftarrow> wr2 gm i j 0; sg \<leftarrow> wr2 sg i j 0; Some (sg, gm) }))
        (sigma fresh, gamma fresh);
     Some (p\<lparr>setflag := sf, cutsq := cutsq fresh, cut := cut fresh, a0 := a0 fresh,
              gamma := gm, sigma := sg\<rparr>)
   }"

text \<open>
  \<^verbatim>\<open>void PairDPDJung::read_restart_settings(FILE *fp)\<close> and
  \<^verbatim>\<open>void PairDPDJung::read_restart(FILE *fp)\<close>, on the processor that reads the file
  (\<^verbatim>\<open>comm->me == 0\<close>); \<^verbatim>\<open>MPI_Bcast\<close> hands the values it read to the other
  processors. The state of the loop is the pair style and the rest of the file.
  (\<^verbatim>\<open>read_restart_settings\<close> also creates the random number generator anew from
  \<^verbatim>\<open>seed + comm->me\<close>; the generator is the stream given to \<open>compute_rhs\<close>.)
\<close>

definition read_restart_settings :: "pair_dpd \<Rightarrow> scalar list \<Rightarrow> (pair_dpd \<times> scalar list) option" where
  "read_restart_settings p fp = do {
     (t, fp) \<leftarrow> fread_double (temperature p) fp;
     (c, fp) \<leftarrow> fread_double (cut_global p) fp;
     (s, fp) \<leftarrow> fread_int (seed p) fp;
     (m, fp) \<leftarrow> fread_int (mix_flag p) fp;
     Some (p\<lparr>temperature := t, cut_global := c, seed := s, mix_flag := m\<rparr>, fp)
   }"

definition read_restart_pair ::
  "int \<Rightarrow> int \<Rightarrow> pair_dpd \<times> scalar list \<Rightarrow> (pair_dpd \<times> scalar list) option" where
  "read_restart_pair i j st = do {
     let (p, fp) = st;
     cur \<leftarrow> rd2 (setflag p) i j;
     (flag, fp) \<leftarrow> fread_int cur fp;
     sf \<leftarrow> wr2 (setflag p) i j flag;
     let p = p\<lparr>setflag := sf\<rparr>;
     if flag \<noteq> 0 then do {
       cur \<leftarrow> rd2 (a0 p) i j;
       (aij, fp) \<leftarrow> fread_double cur fp;
       t \<leftarrow> wr2 (a0 p) i j aij;
       let p = p\<lparr>a0 := t\<rparr>;
       cur \<leftarrow> rd2 (gamma p) i j;
       (gij, fp) \<leftarrow> fread_double cur fp;
       t \<leftarrow> wr2 (gamma p) i j gij;
       let p = p\<lparr>gamma := t\<rparr>;
       cur \<leftarrow> rd2 (cut p) i j;
       (cij, fp) \<leftarrow> fread_double cur fp;
       t \<leftarrow> wr2 (cut p) i j cij;
       Some (p\<lparr>cut := t\<rparr>, fp)
     } else Some (p, fp)
   }"

definition read_restart ::
  "lammps \<Rightarrow> pair_dpd \<Rightarrow> pair_dpd \<Rightarrow> scalar list \<Rightarrow> (pair_dpd \<times> scalar list) option" where
  "read_restart env fresh p fp = do {
     (p, fp) \<leftarrow> read_restart_settings p fp;
     p \<leftarrow> allocate env fresh p;
     forM [1..atom_ntypes env]
       (\<lambda>i. forM [i..atom_ntypes env] (read_restart_pair i))
       (p, fp)
   }"

section \<open>The Krylov solver: \<^verbatim>\<open>compute_inverse\<close>\<close>

text \<open>
  The local \<^verbatim>\<open>size\<close> of the source is \<open>sz\<close>. The vectors and matrices of the Eigen
  library are lists: a vector is the list of its
  entries, the basis \<^verbatim>\<open>Vn\<close> is the list of its columns, a small dense matrix is the
  list of its rows. The operations of the library are not part of the repository; they
  are modelled as the library documents them. \<^verbatim>\<open>normalized()\<close> divides a vector by its
  norm and returns a vector of norm zero as it is.
\<close>

definition squaredNorm :: "real list \<Rightarrow> real" where
  "squaredNorm v = (\<Sum>y\<leftarrow>v. y * y)"

definition vnorm :: "real list \<Rightarrow> real" where
  "vnorm v = sqrt (squaredNorm v)"

definition normalized :: "real list \<Rightarrow> real list" where
  "normalized v = (let z = squaredNorm v in if 0 < z then map (\<lambda>y. y / sqrt z) v else v)"

definition vdot :: "real list \<Rightarrow> real list \<Rightarrow> real" where
  "vdot u v = (\<Sum>(a, b)\<leftarrow>zip u v. a * b)"

text \<open>\<open>vsub_scaled r a c\<close> is \<^verbatim>\<open>r - a*c\<close>; \<open>mat_vec cols f\<close> is the product \<^verbatim>\<open>Vn*f\<close>.\<close>

definition vsub_scaled :: "real list \<Rightarrow> real \<Rightarrow> real list \<Rightarrow> real list" where
  "vsub_scaled r a c = map2 (\<lambda>y z. y - a * z) r c"

definition mat_vec :: "nat \<Rightarrow> real list list \<Rightarrow> real list \<Rightarrow> real list" where
  "mat_vec sz cols f =
     foldl (\<lambda>acc (col, c). map2 (\<lambda>y z. y + z * c) acc col) (replicate sz 0) (zip cols f)"

definition mLanczos :: int where
  "mLanczos = 10"

definition tolLanczos :: real where
  "tolLanczos = 1 / 100000"

text \<open>
  The locals of \<^verbatim>\<open>compute_inverse\<close> that live across the iterations, and the numbers
  \<open>k\<close> the convergence test prints (\<^verbatim>\<open>printf("%d\n",k)\<close>), in order. The arrays
  \<^verbatim>\<open>alpha\<close> and \<^verbatim>\<open>beta\<close> have \<^verbatim>\<open>mLanczos+1\<close> entries and are indexed by \<open>k \<le> mLanczos\<close>,
  and the basis has \<open>k - 1\<close> columns when iteration \<open>k\<close> starts: the reads of these locals
  are inside them.
\<close>

record lanczos =
  Vn :: "real list list"
  rk :: "real list"
  alpha :: "real list"
  beta :: "real list"
  xk_save :: "real list"
  printed :: "int list"

text \<open>
  Lines 561 to 582: the first basis vector, the first application of the operator and
  \<^verbatim>\<open>alpha[1]\<close>. The result is \<^verbatim>\<open>norm\<close> and the state before the loop.
\<close>

definition lanczos_init :: "lammps \<Rightarrow> pair_dpd \<Rightarrow> real list \<Rightarrow> (real \<times> lanczos) option" where
  "lanczos_init env p input = do {
     let sz = atom_nlocal env * 3;
     col0 \<leftarrow> those (map (rd input) [0..sz - 1]);
     let rk0 = replicate (nat sz) 0;
     let alpha0 = replicate (nat (mLanczos + 1)) 0;
     let beta0 = replicate (nat (mLanczos + 1)) 0;
     let nrm = vnorm col0;
     let v1 = normalized col0;
     r \<leftarrow> compute_step env p v1 rk0;
     Some (nrm, \<lparr>Vn = [v1], rk = r, alpha = alpha0[1 := vdot v1 r], beta = beta0,
                  xk_save = [], printed = []\<rparr>)
   }"

text \<open>
  Lines 586 to 595 of iteration \<open>k\<close>: the residual is orthogonalized, its norm is stored
  in \<^verbatim>\<open>beta[k-1]\<close>, the normalized residual becomes the column \<open>k - 1\<close> of the basis, and
  \<^verbatim>\<open>compute_step(&Vn.col(k-1)(0),&rk(0))\<close> is called with \<^verbatim>\<open>rk\<close>, which holds the
  orthogonalized residual, as its output buffer.
\<close>

definition lanczos_extend :: "lammps \<Rightarrow> pair_dpd \<Rightarrow> int \<Rightarrow> lanczos \<Rightarrow> lanczos option" where
  "lanczos_extend env p k st = do {
     let r = vsub_scaled (rk st) (alpha st ! nat (k - 1)) (Vn st ! nat (k - 2));
     let r = (if k > 2 then vsub_scaled r (beta st ! nat (k - 2)) (Vn st ! nat (k - 3)) else r);
     let beta1 = (beta st)[nat (k - 1) := vnorm r];
     let vk = normalized r;
     let Vn1 = Vn st @ [vk];
     r \<leftarrow> compute_step env p vk r;
     Some (st\<lparr>Vn := Vn1, rk := r, alpha := (alpha st)[nat k := vdot vk r], beta := beta1\<rparr>)
   }"

text \<open>
  Lines 599 to 607: the matrix \<^verbatim>\<open>Hk\<close>. Lines 612 to 618: \<^verbatim>\<open>xk\<close>. The dense inverse
  \<^verbatim>\<open>Hk.inverse()\<close> is a function of the library; it is the parameter
  \<open>dense_inverse\<close>, which fails where the matrix has no inverse.
\<close>

definition hessenberg :: "real list \<Rightarrow> real list \<Rightarrow> int \<Rightarrow> real list list" where
  "hessenberg al be k =
     map (\<lambda>i. map (\<lambda>j.
         let h = (if i = j then al ! nat (i + 1) else 0)
         in if i = j + 1 \<or> i = j - 1
            then (let kprime = (if i > j then i else j) in be ! nat kprime)
            else h) [0..k - 1]) [0..k - 1]"

definition krylov_solution ::
  "lammps \<Rightarrow> (real list list \<Rightarrow> real list list option) \<Rightarrow> real \<Rightarrow> int \<Rightarrow> lanczos \<Rightarrow> real list option" where
  "krylov_solution env dense_inverse nrm k st = do {
     let Hk = hessenberg (alpha st) (beta st) k;
     f_Hk \<leftarrow> dense_inverse Hk;
     let e1 = 1 # replicate (nat k - 1) 0;
     let f_Hk1 = map (\<lambda>row. vdot row e1) f_Hk;
     Some (map (\<lambda>y. y * nrm) (mat_vec (nat (atom_nlocal env * 3)) (Vn st) f_Hk1))
   }"

text \<open>Lines 597 to 632 of iteration \<open>k\<close>; \<open>tol\<close> is \<^verbatim>\<open>tolLanczos\<close>.\<close>

definition lanczos_solve ::
  "lammps \<Rightarrow> (real list list \<Rightarrow> real list list option) \<Rightarrow> real \<Rightarrow> real \<Rightarrow> int \<Rightarrow> lanczos \<Rightarrow>
     lanczos option" where
  "lanczos_solve env dense_inverse nrm tol k st =
     (if k \<ge> 2 then do {
        xk \<leftarrow> krylov_solution env dense_inverse nrm k st;
        if k = 2 then Some (st\<lparr>xk_save := xk\<rparr>)
        else do {
          let diff = map2 (\<lambda>y z. y - z) (xk_save st) xk;
          let diff_norm = vnorm diff;
          let st = st\<lparr>xk_save := xk\<rparr>;
          if diff_norm < tol then Some (st\<lparr>printed := printed st @ [k]\<rparr>) else Some st
        }
      } else Some st)"

definition lanczos_iter ::
  "lammps \<Rightarrow> pair_dpd \<Rightarrow> (real list list \<Rightarrow> real list list option) \<Rightarrow> real \<Rightarrow> real \<Rightarrow> int \<Rightarrow>
     lanczos \<Rightarrow> lanczos option" where
  "lanczos_iter env p dense_inverse nrm tol k st = do {
     st \<leftarrow> lanczos_extend env p k st;
     lanczos_solve env dense_inverse nrm tol k st
   }"

text \<open>Lines 556 to 633: the state after the main loop.\<close>

definition lanczos_run ::
  "lammps \<Rightarrow> pair_dpd \<Rightarrow> (real list list \<Rightarrow> real list list option) \<Rightarrow> real \<Rightarrow> real list \<Rightarrow>
     (real \<times> lanczos) option" where
  "lanczos_run env p dense_inverse tol input = do {
     (nrm, st) \<leftarrow> lanczos_init env p input;
     st \<leftarrow> forM [2..mLanczos] (lanczos_iter env p dense_inverse nrm tol) st;
     Some (nrm, st)
   }"

text \<open>
  \<^verbatim>\<open>void PairDPDJung::compute_inverse(double* input, double* output)\<close>. After the loop
  the solution is copied into \<^verbatim>\<open>output\<close> (lines 636 to 638) and the operator is applied
  once more, to the solution, for the test print (lines 641 to 645); \<^verbatim>\<open>test_out\<close> is
  not initialised by the source, its content on entry is the parameter \<open>test_out\<close>. The
  result is the output buffer, the numbers printed by the convergence test, and the
  rows of the test print.
\<close>

definition compute_inverse ::
  "lammps \<Rightarrow> pair_dpd \<Rightarrow> (real list list \<Rightarrow> real list list option) \<Rightarrow> real list \<Rightarrow> real list \<Rightarrow>
     real list \<Rightarrow> (real list \<times> int list \<times> (real \<times> real \<times> real) list) option" where
  "compute_inverse env p dense_inverse test_out input output = do {
     let sz = atom_nlocal env * 3;
     (nrm, st) \<leftarrow> lanczos_run env p dense_inverse tolLanczos input;
     output \<leftarrow> forM [0..sz - 1]
        (\<lambda>i out. do { y \<leftarrow> rd (xk_save st) i; wr out i y }) output;
     test_out \<leftarrow> compute_step env p output test_out;
     rows \<leftarrow> those (map (\<lambda>i. do {
        a \<leftarrow> rd input i; b \<leftarrow> rd output i; c \<leftarrow> rd test_out i; Some (a, b, c) })
        [0..sz - 1]);
     Some (output, printed st, rows)
   }"

text \<open>
  \<^verbatim>\<open>void PairDPDJung::compute(int eflag, int vflag)\<close>: the right-hand side is handed to
  the solver with the zeroed array \<^verbatim>\<open>dr\<close> as its output. (The timing, the prints of the
  timing and the engine's \<^verbatim>\<open>virial_fdotr_compute\<close> are left out.)
\<close>

definition compute ::
  "lammps \<Rightarrow> pair_dpd \<Rightarrow> (nat \<Rightarrow> real) \<Rightarrow> nat \<Rightarrow> (real list list \<Rightarrow> real list list option) \<Rightarrow>
     real list \<Rightarrow> int \<Rightarrow> int \<Rightarrow>
     (full_state \<times> real list \<times> int list \<times> (real \<times> real \<times> real) list) option" where
  "compute env p gaussian ndraw0 dense_inverse test_out eflag vflag = do {
     st \<leftarrow> compute_rhs env p gaussian ndraw0 eflag vflag;
     let dr = replicate (nat (3 * atom_nlocal env)) 0;
     res \<leftarrow> compute_inverse env p dense_inverse test_out (f_step st) dr;
     Some (st, res)
   }"

section \<open>Definitions for the properties\<close>

text \<open>A table has \<open>n + 1\<close> rows of \<open>n + 1\<close> entries (\<^verbatim>\<open>memory->create(t,n+1,n+1,...)\<close>).\<close>

definition dims :: "'a list list \<Rightarrow> int \<Rightarrow> bool" where
  "dims t n = (int (length t) = n + 1 \<and> list_all (\<lambda>row. int (length row) = n + 1) t)"

definition allocated :: "pair_dpd \<Rightarrow> int \<Rightarrow> bool" where
  "allocated p n = (dims (setflag p) n \<and> dims (cutsq p) n \<and> dims (cut p) n \<and>
     dims (a0 p) n \<and> dims (gamma p) n \<and> dims (sigma p) n)"

text \<open>
  A configuration for the closed instances below: one atom type with its pair (1,1) set,
  and two owned atoms at distance 1, the second one the only neighbour of the first.
\<close>

definition ex_env :: lammps where
  "ex_env = \<lparr>atom_x = [(0, 0, 0), (1, 0, 0)], atom_v = [(1, 2, 3), (0, 0, 0)],
     atom_type = [1, 1], atom_tag = [1, 2], atom_nlocal = 2, atom_ntypes = 1,
     force_special_lj = [1, 0, 0, 0], force_newton_pair = 1, force_boltz = 1 / 2,
     update_dt = 2, list_inum = 2, list_ilist = [0, 1], list_numneigh = [1, 0],
     list_firstneigh = [[1], []],
     sbmask = (\<lambda>j. (j div 2 ^ 30) mod 4), neighmask = (\<lambda>j. j mod 2 ^ 30)\<rparr>"

definition ex_pair :: pair_dpd where
  "ex_pair = \<lparr>setflag = [[0, 0], [0, 1]], cutsq = [[0, 0], [0, 4]], cut = [[0, 0], [0, 2]],
     a0 = [[0, 0], [0, 1]], gamma = [[0, 0], [0, 4]], sigma = [[0, 0], [0, 0]],
     temperature = 1, cut_global = 2, seed = 1, mix_flag = 0\<rparr>"


text \<open>
  The same configuration with a third atom, a ghost (index 2 is not below
  \<open>atom_nlocal\<close>) that carries the tag of the second atom and is the neighbour of the
  first, and with Newton's third law switched off for pairs.
\<close>

definition ex_ghost :: lammps where
  "ex_ghost = ex_env\<lparr>atom_x := [(0, 0, 0), (5, 0, 0), (1, 0, 0)],
     atom_v := [(1, 2, 3), (0, 0, 0), (0, 0, 0)], atom_type := [1, 1, 1],
     atom_tag := [1, 2, 2], force_newton_pair := 0, list_firstneigh := [[2], []]\<rparr>"

text \<open>The configuration with the ghost and a time step of 4.\<close>

definition ex_ghost4 :: lammps where
  "ex_ghost4 = ex_ghost\<lparr>update_dt := 4\<rparr>"

text \<open>The same configuration with the two atoms at distance \<open>3/2\<close>.\<close>

definition ex_far :: lammps where
  "ex_far = ex_env\<lparr>atom_x := [(0, 0, 0), (3 / 2, 0, 0)]\<rparr>"

text \<open>The same configuration with both atoms at the same position.\<close>

definition ex_degenerate :: lammps where
  "ex_degenerate = ex_env\<lparr>atom_x := [(0, 0, 0), (0, 0, 0)]\<rparr>"

subsection \<open>Accumulation into a vector\<close>

text \<open>
  \<open>val_at a k\<close> is the entry \<open>k\<close> of a vector, 0 outside it. \<open>hit k n d\<close> is what
  \<^verbatim>\<open>a[k] += d\<close> adds to the entry \<open>n\<close>, \<open>hit3 k n d\<close> what the three statements
  \<^verbatim>\<open>a[k] += d0; a[k+1] += d1; a[k+2] += d2\<close> add to it.
\<close>

definition val_at :: "real list \<Rightarrow> int \<Rightarrow> real" where
  "val_at a k = (case rd a k of None \<Rightarrow> 0 | Some y \<Rightarrow> y)"

definition val3_at :: "real list \<Rightarrow> int \<Rightarrow> vec3" where
  "val3_at a k = (val_at a k, val_at a (k + 1), val_at a (k + 2))"

definition hit :: "int \<Rightarrow> nat \<Rightarrow> real \<Rightarrow> real" where
  "hit k n d = (if int n = k then d else 0)"

definition hit3 :: "int \<Rightarrow> nat \<Rightarrow> vec3 \<Rightarrow> real" where
  "hit3 k n d = hit k n (c0 d) + hit (k + 1) n (c1 d) + hit (k + 2) n (c2 d)"

definition add3 :: "real list \<Rightarrow> int \<Rightarrow> vec3 \<Rightarrow> real list option" where
  "add3 a k d = do {
     a1 \<leftarrow> add_at a k (c0 d);
     a2 \<leftarrow> add_at a1 (k + 1) (c1 d);
     add_at a2 (k + 2) (c2 d)
   }"

definition sub3 :: "real list \<Rightarrow> int \<Rightarrow> vec3 \<Rightarrow> real list option" where
  "sub3 a k d = do {
     a1 \<leftarrow> sub_at a k (c0 d);
     a2 \<leftarrow> sub_at a1 (k + 1) (c1 d);
     sub_at a2 (k + 2) (c2 d)
   }"

text \<open>
  The accumulation of a pair's vector \<open>d\<close> into the entries of atom \<open>i\<close> and, when
  \<open>both\<close> holds, with the opposite sign into the entries of atom \<open>j\<close>.
\<close>

definition scatter :: "bool \<Rightarrow> int \<Rightarrow> int \<Rightarrow> vec3 \<Rightarrow> real list \<Rightarrow> real list option" where
  "scatter both itag jtag d a = do {
     a3 \<leftarrow> add3 a (3 * itag) d;
     if both then sub3 a3 (3 * jtag) d else Some a3
   }"

text \<open>The squared separation \<^verbatim>\<open>rsq\<close> of two positions.\<close>

definition sep2 :: "vec3 \<Rightarrow> vec3 \<Rightarrow> real" where
  "sep2 xi xj = (c0 xi - c0 xj) * (c0 xi - c0 xj) + (c1 xi - c1 xj) * (c1 xi - c1 xj)
     + (c2 xi - c2 xj) * (c2 xi - c2 xj)"

text \<open>
  \<open>newton_or_owned env j\<close> is the source's test \<^verbatim>\<open>newton_pair || j < nlocal\<close>.
\<close>

definition newton_or_owned :: "lammps \<Rightarrow> int \<Rightarrow> bool" where
  "newton_or_owned env j = (force_newton_pair env \<noteq> 0 \<or> j < atom_nlocal env)"

subsection \<open>The step-mode operator as the specification words it\<close>

text \<open>
  The specification: step mode "produces the output state vector representing
  \<open>(Identity - (\<Delta>t/2) \<cdot> \<Gamma>) \<cdot> input\<close>, where \<open>\<Gamma>\<close> is the pairwise dissipative (friction)
  operator. For each neighbor pair in cutoff: compute relative velocity from the input
  vector, project it onto the unit separation vector, scale by \<open>-gamma * w\<^sup>2 / r\<close>, and
  accumulate with sign-symmetric updates exactly as in full mode", that is, scaled by the
  exclusion factor, skipping a degenerate pair; "the identity contribution is added once
  per particle". The weight function is \<open>w(r) = 1 - r/r_cut\<close>, and the state vector is
  "indexed by \<open>3*tag + component\<close>".

  These definitions are total: they read the arrays with \<open>!\<close> and divide with \<open>/\<close>.
  They are compared with the source only where the source succeeds.
\<close>

definition dot3 :: "vec3 \<Rightarrow> vec3 \<Rightarrow> real" where
  "dot3 a b = c0 a * c0 b + c1 a * c1 b + c2 a * c2 b"

definition scale3 :: "real \<Rightarrow> vec3 \<Rightarrow> vec3" where
  "scale3 s a = (s * c0 a, s * c1 a, s * c2 a)"

definition diff3 :: "vec3 \<Rightarrow> vec3 \<Rightarrow> vec3" where
  "diff3 a b = (c0 a - c0 b, c1 a - c1 b, c2 a - c2 b)"

definition weight :: "real \<Rightarrow> real \<Rightarrow> real" where
  "weight r rc = 1 - r / rc"

text \<open>
  The unit separation vector \<open>del / r\<close>, and the projection of the relative velocity
  \<open>dv\<close> onto a unit vector \<open>e\<close>: the vector \<open>(e \<cdot> dv) e\<close>.
\<close>

definition unit3 :: "real \<Rightarrow> vec3 \<Rightarrow> vec3" where
  "unit3 r del = scale3 (1 / r) del"

definition projection :: "vec3 \<Rightarrow> vec3 \<Rightarrow> vec3" where
  "projection e dv = scale3 (dot3 e dv) e"

text \<open>
  Two scalings of the projection, as functions of the friction coefficient, the weight
  and the separation: \<open>- gamma * w\<^sup>2 / r\<close>, which is the scaling the specification
  words, and \<open>- gamma * w\<^sup>2\<close>.
\<close>

definition minus_gamma_w2_over_r :: "real \<Rightarrow> real \<Rightarrow> real \<Rightarrow> real" where
  "minus_gamma_w2_over_r gam w r = - gam * w * w / r"

definition minus_gamma_w2 :: "real \<Rightarrow> real \<Rightarrow> real \<Rightarrow> real" where
  "minus_gamma_w2 gam w r = - gam * w * w"

text \<open>
  The vector of one neighbour entry \<open>jraw\<close> of an atom at \<open>xi\<close> of type \<open>itype\<close>, for
  the relative velocity \<open>dv\<close> and a scaling: the projection of \<open>dv\<close> onto the unit
  separation vector, scaled by the scaling and by the exclusion factor; zero outside the
  cutoff and for a degenerate pair.
\<close>

definition Gamma_pair ::
  "(real \<Rightarrow> real \<Rightarrow> real \<Rightarrow> real) \<Rightarrow> lammps \<Rightarrow> pair_dpd \<Rightarrow> vec3 \<Rightarrow> int \<Rightarrow> int \<Rightarrow> vec3 \<Rightarrow> vec3" where
  "Gamma_pair scaling env p xi itype jraw dv =
     (let j = neighmask env jraw;
          xj = atom_x env ! nat j;
          jtype = atom_type env ! nat j;
          r = sqrt (sep2 xi xj)
      in if sep2 xi xj < cutsq p ! nat itype ! nat jtype \<and> \<not> r < EPSILON
         then scale3 (force_special_lj env ! nat (sbmask env jraw) *
                scaling (gamma p ! nat itype ! nat jtype)
                  (weight r (cut p ! nat itype ! nat jtype)) r)
                (projection (unit3 r (diff3 xi xj)) dv)
         else (0, 0, 0))"

text \<open>
  What a pair's vector \<open>d\<close> contributes to the entry \<open>n\<close>: added at the entries of the
  atom with state index \<open>itag\<close>, subtracted at those of \<open>jtag\<close> when \<open>both\<close> holds.
\<close>

definition pair_entries :: "bool \<Rightarrow> int \<Rightarrow> int \<Rightarrow> vec3 \<Rightarrow> nat \<Rightarrow> real" where
  "pair_entries both itag jtag d n =
     hit3 (3 * itag) n d - (if both then hit3 (3 * jtag) n d else 0)"

text \<open>
  The entry \<open>n\<close> of \<open>\<Gamma> \<cdot> input\<close>: the sum over the owned atoms (the entries \<open>ii\<close> of
  \<^verbatim>\<open>ilist\<close>) and their neighbour entries. Three choices are parameters, for the
  comparison with the source: the scaling, \<open>both env j\<close>, which says whether the neighbour
  \<open>j\<close> is updated as well, and \<open>vbase i itag\<close>, the index in \<open>input\<close> of the velocity of
  the owned atom with local index \<open>i\<close> and state index \<open>itag\<close>.
\<close>

definition Gamma_atom ::
  "(real \<Rightarrow> real \<Rightarrow> real \<Rightarrow> real) \<Rightarrow> (lammps \<Rightarrow> int \<Rightarrow> bool) \<Rightarrow> (int \<Rightarrow> int \<Rightarrow> int) \<Rightarrow> lammps \<Rightarrow> pair_dpd \<Rightarrow> real list \<Rightarrow>
     int \<Rightarrow> nat \<Rightarrow> real" where
  "Gamma_atom scaling both vbase env p input ii n =
     (let i = list_ilist env ! nat ii;
          xi = atom_x env ! nat i;
          itype = atom_type env ! nat i;
          itag = atom_tag env ! nat i - 1;
          jlist = list_firstneigh env ! nat i;
          jnum = list_numneigh env ! nat i;
          vi = val3_at input (vbase i itag)
      in \<Sum>jj\<leftarrow>[0..jnum - 1].
           (let jraw = jlist ! nat jj;
                j = neighmask env jraw;
                jtag = atom_tag env ! nat j - 1
            in pair_entries (both env j) itag jtag
                 (Gamma_pair scaling env p xi itype jraw (diff3 vi (val3_at input (3 * jtag)))) n))"

definition Gamma_apply ::
  "(real \<Rightarrow> real \<Rightarrow> real \<Rightarrow> real) \<Rightarrow> (lammps \<Rightarrow> int \<Rightarrow> bool) \<Rightarrow> (int \<Rightarrow> int \<Rightarrow> int) \<Rightarrow> lammps \<Rightarrow> pair_dpd \<Rightarrow> real list \<Rightarrow>
     nat \<Rightarrow> real" where
  "Gamma_apply scaling both vbase env p input n =
     (\<Sum>ii\<leftarrow>[0..list_inum env - 1]. Gamma_atom scaling both vbase env p input ii n)"

text \<open>The entry \<open>n\<close> of \<open>Identity \<cdot> input\<close>, added once per owned atom.\<close>

definition identity_atom :: "lammps \<Rightarrow> real list \<Rightarrow> int \<Rightarrow> nat \<Rightarrow> real" where
  "identity_atom env input ii n =
     (let i = list_ilist env ! nat ii; itag = atom_tag env ! nat i - 1
      in hit3 (3 * itag) n (val3_at input (3 * itag)))"

definition identity_apply :: "lammps \<Rightarrow> real list \<Rightarrow> nat \<Rightarrow> real" where
  "identity_apply env input n = (\<Sum>ii\<leftarrow>[0..list_inum env - 1]. identity_atom env input ii n)"

definition step_operator ::
  "(real \<Rightarrow> real \<Rightarrow> real \<Rightarrow> real) \<Rightarrow> (lammps \<Rightarrow> int \<Rightarrow> bool) \<Rightarrow> (int \<Rightarrow> int \<Rightarrow> int) \<Rightarrow> lammps \<Rightarrow> pair_dpd \<Rightarrow> real list \<Rightarrow>
     nat \<Rightarrow> real" where
  "step_operator scaling both vbase env p input n =
     identity_apply env input n -
       update_dt env / 2 * Gamma_apply scaling both vbase env p input n"

text \<open>
  The operator of the claim: the scaling is \<open>- gamma * w\<^sup>2 / r\<close>, every pair updates
  both of its atoms, and the velocity of an atom is read at its state index \<open>3 * itag\<close>. \<open>by_tag\<close> and \<open>by_index\<close> are the two
  places a velocity can be read from: the state index, and three times the local index.
\<close>

definition by_tag :: "int \<Rightarrow> int \<Rightarrow> int" where
  "by_tag i itag = 3 * itag"

definition by_index :: "int \<Rightarrow> int \<Rightarrow> int" where
  "by_index i itag = 3 * i"

definition both_always :: "lammps \<Rightarrow> int \<Rightarrow> bool" where
  "both_always env j = True"

text \<open>Linear combinations of vectors, and the zero vector.\<close>

definition lin :: "real \<Rightarrow> real list \<Rightarrow> real \<Rightarrow> real list \<Rightarrow> real list" where
  "lin ca u cb v = map2 (\<lambda>a b. ca * a + cb * b) u v"

definition lin3 :: "real \<Rightarrow> vec3 \<Rightarrow> real \<Rightarrow> vec3 \<Rightarrow> vec3" where
  "lin3 ca a cb b = (ca * c0 a + cb * c0 b, ca * c1 a + cb * c1 b, ca * c2 a + cb * c2 b)"

definition zeros :: "nat \<Rightarrow> real list" where
  "zeros n = replicate n 0"

text \<open>
  Each owned atom sits at its state index: \<^verbatim>\<open>tag[i] - 1 == i\<close> for every entry \<open>i\<close> of
  \<^verbatim>\<open>ilist\<close>.
\<close>

definition owned_at_state_index :: "lammps \<Rightarrow> bool" where
  "owned_at_state_index env =
     list_all (\<lambda>ii. atom_tag env ! nat (list_ilist env ! nat ii) - 1 = list_ilist env ! nat ii)
       [0..list_inum env - 1]"

subsection \<open>The layout of the restart file\<close>

text \<open>
  The settings block, and the block of one type pair: the set flag, followed, only when
  the flag is set, by the conservative coefficient, the friction coefficient and the
  cutoff. \<open>type_pairs n\<close> are the unordered type pairs in the order of the loops.
\<close>

definition restart_settings :: "pair_dpd \<Rightarrow> scalar list" where
  "restart_settings p = [SDouble (temperature p), SDouble (cut_global p), SInt (seed p),
     SInt (mix_flag p)]"

definition restart_entry :: "pair_dpd \<Rightarrow> int \<times> int \<Rightarrow> scalar list" where
  "restart_entry p ij =
     (let i = nat (fst ij); j = nat (snd ij); flag = setflag p ! i ! j
      in SInt flag #
         (if flag \<noteq> 0 then [SDouble (a0 p ! i ! j), SDouble (gamma p ! i ! j), SDouble (cut p ! i ! j)]
          else []))"

definition type_pairs :: "int \<Rightarrow> (int \<times> int) list" where
  "type_pairs n = concat (map (\<lambda>i. map (Pair i) [i..n]) [1..n])"

text \<open>
  The four restart values of a type pair, and what it means that the table \<open>p'\<close> read
  back holds the values of the table \<open>p\<close> written: the flags are equal, and for a set
  pair the three coefficients are equal.
\<close>

definition coeffs_at :: "pair_dpd \<Rightarrow> int \<times> int \<Rightarrow> int \<times> real \<times> real \<times> real" where
  "coeffs_at p ij =
     (let i = nat (fst ij); j = nat (snd ij)
      in (setflag p ! i ! j, a0 p ! i ! j, gamma p ! i ! j, cut p ! i ! j))"

definition restart_agrees :: "pair_dpd \<Rightarrow> pair_dpd \<Rightarrow> int \<times> int \<Rightarrow> bool" where
  "restart_agrees p' p ij =
     (if fst (coeffs_at p ij) = 0 then fst (coeffs_at p' ij) = 0
      else coeffs_at p' ij = coeffs_at p ij)"

definition settings_of :: "pair_dpd \<Rightarrow> real \<times> real \<times> int \<times> int" where
  "settings_of p = (temperature p, cut_global p, seed p, mix_flag p)"

definition upd2 :: "'a list list \<Rightarrow> int \<Rightarrow> int \<Rightarrow> 'a \<Rightarrow> 'a list list" where
  "upd2 t i j y = t[nat i := (t ! nat i)[nat j := y]]"

text \<open>
  Two atom types, the pair (1,1) set, the pairs (1,2) and (2,2) unset; and the arrays a
  fresh allocation returns, with some content.
\<close>

definition ex_two :: pair_dpd where
  "ex_two = \<lparr>setflag = [[0, 0, 0], [0, 1, 0], [0, 0, 0]],
     cutsq = [[0, 0, 0], [0, 4, 0], [0, 0, 0]], cut = [[0, 0, 0], [0, 2, 7], [0, 0, 0]],
     a0 = [[0, 0, 0], [0, 25, 8], [0, 0, 0]], gamma = [[0, 0, 0], [0, 4, 9], [0, 0, 0]],
     sigma = [[0, 0, 0], [0, 0, 0], [0, 0, 0]],
     temperature = 1, cut_global = 2, seed = 34387, mix_flag = 0\<rparr>"

definition ex_fresh :: pair_dpd where
  "ex_fresh = \<lparr>setflag = [[5, 5, 5], [5, 5, 5], [5, 5, 5]],
     cutsq = [[6, 6, 6], [6, 6, 6], [6, 6, 6]], cut = [[6, 6, 6], [6, 6, 6], [6, 6, 6]],
     a0 = [[6, 6, 6], [6, 6, 6], [6, 6, 6]], gamma = [[6, 6, 6], [6, 6, 6], [6, 6, 6]],
     sigma = [[6, 6, 6], [6, 6, 6], [6, 6, 6]],
     temperature = 0, cut_global = 0, seed = 0, mix_flag = 0\<rparr>"

subsection \<open>The applications of the operator by the solver\<close>

text \<open>
  One application of the operator by the solver: the vector the operator is applied
  to, the content of the buffer \<^verbatim>\<open>rk\<close> that is handed to \<^verbatim>\<open>compute_step\<close> as its
  output, and the content of that buffer on return.
\<close>

record application =
  app_vec :: "real list"
  app_buf :: "real list"
  app_img :: "real list"

text \<open>
  The length of the state vector, \<open>3 * nlocal\<close>, and the right-hand side: the entries
  of the input the solver reads.
\<close>

definition state_size :: "lammps \<Rightarrow> nat" where
  "state_size env = nat (atom_nlocal env * 3)"

definition right_hand_side :: "lammps \<Rightarrow> real list \<Rightarrow> real list" where
  "right_hand_side env input = take (state_size env) input"

text \<open>
  For the list \<open>tr\<close> of the applications in the order they are made, counted from 1:
  the coefficient \<open>\<alpha>\<^sub>k = v\<^sub>k\<^sup>t r\<close> of the application \<open>k\<close>, with \<open>r\<close> the buffer on return;
  the coefficient \<open>\<beta>\<^sub>k\<close>, the norm of the buffer handed to the application \<open>k + 1\<close>;
  and, for \<open>k \<ge> 2\<close>, the residual \<open>r - \<alpha>\<^sub>k\<^sub>-\<^sub>1 v\<^sub>k\<^sub>-\<^sub>1 - \<beta>\<^sub>k\<^sub>-\<^sub>2 v\<^sub>k\<^sub>-\<^sub>2\<close> (the last term
  only when \<open>k > 2\<close>), with \<open>r\<close> the buffer the application \<open>k - 1\<close> returned.
\<close>

definition alpha_coef :: "application list \<Rightarrow> nat \<Rightarrow> real" where
  "alpha_coef tr k = vdot (app_vec (tr ! (k - 1))) (app_img (tr ! (k - 1)))"

definition beta_coef :: "application list \<Rightarrow> nat \<Rightarrow> real" where
  "beta_coef tr k = vnorm (app_buf (tr ! k))"

definition residual :: "application list \<Rightarrow> nat \<Rightarrow> real list" where
  "residual tr k =
     (let r = vsub_scaled (app_img (tr ! (k - 2))) (alpha_coef tr (k - 1))
                (app_vec (tr ! (k - 2)))
      in if 2 < k then vsub_scaled r (beta_coef tr (k - 2)) (app_vec (tr ! (k - 3))) else r)"

text \<open>
  \<open>applications env p b n tr\<close>: the list \<open>tr\<close> holds \<open>n\<close> applications of the operator,
  made as \<^verbatim>\<open>compute_inverse\<close> makes them for the right-hand side \<open>b\<close>. The first is the
  application to the normalized right-hand side, with a zeroed buffer. The application
  \<open>k \<ge> 2\<close> is the application to the normalized residual, and the buffer handed to it is
  that residual. Each one is a call of \<^verbatim>\<open>compute_step\<close> that returns.
\<close>

definition applications ::
  "lammps \<Rightarrow> pair_dpd \<Rightarrow> real list \<Rightarrow> nat \<Rightarrow> application list \<Rightarrow> bool" where
  "applications env p b n tr =
     (length tr = n \<and>
      (\<forall>k\<in>{1..n}.
         app_buf (tr ! (k - 1)) = (if k = 1 then zeros (length b) else residual tr k) \<and>
         app_vec (tr ! (k - 1)) = normalized (if k = 1 then b else residual tr k) \<and>
         compute_step env p (app_vec (tr ! (k - 1))) (app_buf (tr ! (k - 1)))
           = Some (app_img (tr ! (k - 1)))))"

text \<open>
  The projected matrix of size \<open>k\<close>: symmetric and tridiagonal, with \<open>\<alpha>\<^sub>1, \<dots>, \<alpha>\<^sub>k\<close> on
  the diagonal and \<open>\<beta>\<^sub>1, \<dots>, \<beta>\<^sub>k\<^sub>-\<^sub>1\<close> beside it. Rows and columns are counted from 0.
\<close>

definition tridiagonal :: "application list \<Rightarrow> nat \<Rightarrow> real list list" where
  "tridiagonal tr k =
     map (\<lambda>i. map (\<lambda>j. if i = j then alpha_coef tr (i + 1)
                        else if i = j + 1 then beta_coef tr i
                        else if j = i + 1 then beta_coef tr j
                        else 0) [0..<k]) [0..<k]"

text \<open>
  The product of a matrix with the first canonical basis vector is its first column;
  \<open>combination sz vs cs\<close> is the vector \<open>\<Sum>\<^sub>i cs\<^sub>i vs\<^sub>i\<close> of \<open>sz\<close> entries. The iterate
  \<open>x\<^sub>k = \<beta>\<^sub>0 \<cdot> Basis \<cdot> coefficients\<close> exists when the dense inverse of the projected
  matrix does; \<open>nrm\<close> is \<open>\<beta>\<^sub>0\<close>, the norm of the right-hand side.
\<close>

definition first_column :: "real list list \<Rightarrow> real list" where
  "first_column M = map (\<lambda>row. case row of [] \<Rightarrow> 0 | y # ys \<Rightarrow> y) M"

definition combination :: "nat \<Rightarrow> real list list \<Rightarrow> real list \<Rightarrow> real list" where
  "combination sz vs cs = map (\<lambda>n. \<Sum>(v, c)\<leftarrow>zip vs cs. c * v ! n) [0..<sz]"

definition krylov_iterate ::
  "(real list list \<Rightarrow> real list list option) \<Rightarrow> real \<Rightarrow> nat \<Rightarrow> application list \<Rightarrow> nat \<Rightarrow>
     real list option" where
  "krylov_iterate dense_inverse nrm sz tr k =
     map_option
       (\<lambda>M. map (\<lambda>y. nrm * y) (combination sz (map app_vec (take k tr)) (first_column M)))
       (dense_inverse (tridiagonal tr k))"

text \<open>
  Convergence is reported at \<open>k\<close> when the norm of \<open>x\<^sub>k\<^sub>-\<^sub>1 - x\<^sub>k\<close> is below the
  tolerance.
\<close>

definition reports ::
  "(real list list \<Rightarrow> real list list option) \<Rightarrow> real \<Rightarrow> nat \<Rightarrow> real \<Rightarrow> application list \<Rightarrow>
     nat \<Rightarrow> bool" where
  "reports dense_inverse nrm sz tol tr k =
     (case (krylov_iterate dense_inverse nrm sz tr (k - 1),
            krylov_iterate dense_inverse nrm sz tr k) of
        (Some x', Some x) \<Rightarrow> vnorm (map2 (\<lambda>y z. y - z) x' x) < tol
      | _ \<Rightarrow> False)"

text \<open>
  The state of the solver after \<open>n\<close> applications, against the list of the
  applications: the basis holds their vectors, \<^verbatim>\<open>rk\<close> is the buffer the last one
  returned, the arrays \<^verbatim>\<open>alpha\<close> and \<^verbatim>\<open>beta\<close> hold the coefficients, and from the
  second application on \<^verbatim>\<open>xk_save\<close> is the iterate \<open>x\<^sub>n\<close> and the numbers printed are
  those at which convergence is reported.
\<close>

definition krylov_state ::
  "lammps \<Rightarrow> pair_dpd \<Rightarrow> real list \<Rightarrow> nat \<Rightarrow> lanczos \<Rightarrow> application list \<Rightarrow> bool" where
  "krylov_state env p b n st tr =
     (applications env p b n tr \<and>
      (\<forall>a\<in>set tr. length (app_vec a) = state_size env \<and> length (app_img a) = state_size env) \<and>
      Vn st = map app_vec tr \<and>
      rk st = app_img (tr ! (n - 1)) \<and>
      length (alpha st) = 11 \<and> length (beta st) = 11 \<and>
      (\<forall>m\<in>{1..n}. alpha st ! m = alpha_coef tr m) \<and>
      (\<forall>m\<in>{1..<n}. beta st ! m = beta_coef tr m))"

definition krylov_solved ::
  "lammps \<Rightarrow> (real list list \<Rightarrow> real list list option) \<Rightarrow> real \<Rightarrow> real \<Rightarrow> nat \<Rightarrow> lanczos \<Rightarrow>
     application list \<Rightarrow> bool" where
  "krylov_solved env dense_inverse nrm tol n st tr =
     ((2 \<le> n \<longrightarrow>
         krylov_iterate dense_inverse nrm (state_size env) tr n = Some (xk_save st)) \<and>
      printed st
        = map int (filter (reports dense_inverse nrm (state_size env) tol tr) [3..<Suc n]))"

subsection \<open>A dense inverse for the closed instances\<close>

text \<open>
  The inverse of a small dense matrix, a list of rows, by Gauss-Jordan elimination with
  a search for the pivot. A row of the elimination is a pair: the entries of the matrix
  in the columns still to be eliminated, and the entries of the right part, which starts
  as the identity. \<open>exact_inverse\<close> returns a matrix only when its products with the
  argument, on both sides, are the identity.
\<close>

definition identity :: "nat \<Rightarrow> real list list" where
  "identity n = map (\<lambda>i. map (\<lambda>j. if i = j then 1 else 0) [0..<n]) [0..<n]"

definition mat_mul :: "real list list \<Rightarrow> real list list \<Rightarrow> real list list" where
  "mat_mul A B = map (\<lambda>row. map (\<lambda>j. \<Sum>(a, r)\<leftarrow>zip row B. a * r ! j) [0..<length B]) A"

definition eliminate :: "real list \<times> real list \<Rightarrow> real list \<times> real list \<Rightarrow> real list \<times> real list" where
  "eliminate piv row =
     (let f = hd (fst row)
      in (map2 (\<lambda>y z. y - f * z) (tl (fst row)) (tl (fst piv)),
          map2 (\<lambda>y z. y - f * z) (snd row) (snd piv)))"

primrec gauss_jordan ::
  "nat \<Rightarrow> (real list \<times> real list) list \<Rightarrow> (real list \<times> real list) list \<Rightarrow> real list list option" where
  "gauss_jordan 0 fin todo = Some (map snd fin)"
| "gauss_jordan (Suc n) fin todo =
     (case List.extract (\<lambda>row. hd (fst row) \<noteq> 0) todo of
        None \<Rightarrow> None
      | Some (before, piv, after) \<Rightarrow>
          (let d = hd (fst piv);
               piv1 = (map (\<lambda>y. y / d) (fst piv), map (\<lambda>y. y / d) (snd piv))
           in gauss_jordan n (map (eliminate piv1) fin @ [(tl (fst piv1), snd piv1)])
                (map (eliminate piv1) (before @ after))))"

definition exact_inverse :: "real list list \<Rightarrow> real list list option" where
  "exact_inverse H =
     (let n = length H
      in if list_all (\<lambda>row. length row = n) H
         then (case gauss_jordan n [] (zip H (identity n)) of
                 None \<Rightarrow> None
               | Some M \<Rightarrow>
                   if mat_mul H M = identity n \<and> mat_mul M H = identity n then Some M else None)
         else None)"

section \<open>Properties\<close>

subsection \<open>Arrays\<close>

lemma rd_Some: "rd a i = Some y \<longleftrightarrow> 0 \<le> i \<and> i < int (length a) \<and> y = a ! nat i"
  by (auto simp: rd_def)

lemma rd_None: "rd a i = None \<longleftrightarrow> \<not> (0 \<le> i \<and> i < int (length a))"
  by (auto simp: rd_def)

lemma wr_Some: "wr a i y = Some b \<longleftrightarrow> 0 \<le> i \<and> i < int (length a) \<and> b = a[nat i := y]"
  by (auto simp: wr_def)

lemma dims_row: "dims t n \<Longrightarrow> 0 \<le> i \<Longrightarrow> i \<le> n \<Longrightarrow> int (length (t ! nat i)) = n + 1"
  by (auto simp: dims_def list_all_length)

lemma dims_rd2:
  assumes "dims t n" "0 \<le> i" "i \<le> n" "0 \<le> j" "j \<le> n"
  shows "rd2 t i j = Some (t ! nat i ! nat j)"
  using assms dims_row [OF assms(1-3)] by (simp add: rd2_def rd_def dims_def)

lemma dims_wr2:
  assumes "dims t n" "0 \<le> i" "i \<le> n" "0 \<le> j" "j \<le> n"
  shows "wr2 t i j y = Some (t[nat i := (t ! nat i)[nat j := y]])"
  using assms dims_row [OF assms(1-3)] by (simp add: wr2_def rd_def wr_def dims_def)

lemma dims_update:
  assumes "dims t n" "0 \<le> i" "i \<le> n"
  shows "dims (t[nat i := (t ! nat i)[nat j := y]]) n"
proof -
  have "list_all (\<lambda>row. int (length row) = n + 1) (t[nat i := (t ! nat i)[nat j := y]])"
    using assms unfolding dims_def list_all_length
    by (auto simp: nth_list_update)
  then show ?thesis using assms by (simp add: dims_def)
qed

lemma nth2_update:
  assumes "nat i < length t" "nat j < length (t ! nat i)"
  shows "t[nat i := (t ! nat i)[nat j := y]] ! nat i ! nat j = y"
  using assms by simp

subsection \<open>Setup\<close>

lemma init_one_tables_Some:
  assumes al: "allocated p n" and i: "0 \<le> i" "i \<le> n" and j: "0 \<le> j" "j \<le> n"
    and nn: "0 \<le> 2 * force_boltz env * temperature p * (gamma p ! nat i ! nat j)"
  defines "s \<equiv> sqrt (2 * force_boltz env * temperature p * (gamma p ! nat i ! nat j))"
  defines "sigma1 \<equiv> (sigma p)[nat i := (sigma p ! nat i)[nat j := s]]"
  shows "init_one_tables env p i j = Some (cut p ! nat i ! nat j,
     p\<lparr>cut := (cut p)[nat j := (cut p ! nat j)[nat i := cut p ! nat i ! nat j]],
       a0 := (a0 p)[nat j := (a0 p ! nat j)[nat i := a0 p ! nat i ! nat j]],
       gamma := (gamma p)[nat j := (gamma p ! nat j)[nat i := gamma p ! nat i ! nat j]],
       sigma := sigma1[nat j := (sigma1 ! nat j)[nat i := s]]\<rparr>)"
proof -
  have d: "dims (cut p) n" "dims (a0 p) n" "dims (gamma p) n" "dims (sigma p) n"
    using al by (simp_all add: allocated_def)
  have d1: "dims sigma1 n"
    unfolding sigma1_def by (rule dims_update [OF d(4) i])
  have li: "nat i < length (sigma p)" and lj: "nat j < length (sigma p ! nat i)"
    using d(4) i j dims_row [OF d(4) i] by (auto simp: dims_def)
  have s1: "sigma1 ! nat i ! nat j = s"
    unfolding sigma1_def by (rule nth2_update [OF li lj])
  have lc: "nat j < length (cut p)" and lci: "nat i < length (cut p ! nat j)"
    using d(1) i j dims_row [OF d(1) j] by (auto simp: dims_def)
  have c1: "(cut p)[nat j := (cut p ! nat j)[nat i := cut p ! nat i ! nat j]] ! nat i ! nat j
      = cut p ! nat i ! nat j"
    using lc lci by (cases "nat i = nat j") (simp_all add: nth_list_update)
  have dc: "dims ((cut p)[nat j := (cut p ! nat j)[nat i := cut p ! nat i ! nat j]]) n"
    by (rule dims_update [OF d(1) j])
  have fs: "fsqrt (2 * force_boltz env * temperature p * (gamma p ! nat i ! nat j)) = Some s"
    unfolding fsqrt_def s_def using nn by (simp only: not_less [symmetric] if_False)
  show ?thesis
    unfolding init_one_tables_def
    by (simp only: dims_rd2 [OF d(3) i j] dims_rd2 [OF d(1) i j] dims_rd2 [OF d(2) i j]
        dims_wr2 [OF d(4) i j] dims_wr2 [OF d(1) j i] dims_wr2 [OF d(2) j i]
        dims_wr2 [OF d(3) j i] dims_rd2 [OF d1 i j] dims_wr2 [OF d1 j i]
        dims_rd2 [OF dc i j] c1 s1 fs sigma1_def [symmetric] bind.bind_lunit)
qed

subsection \<open>Accumulation\<close>

lemma add_at_Some:
  "add_at a k d = Some a' \<longleftrightarrow> 0 \<le> k \<and> k < int (length a) \<and> a' = a[nat k := a ! nat k + d]"
  by (auto simp: add_at_def rd_def wr_def)

lemma sub_at_Some:
  "sub_at a k d = Some a' \<longleftrightarrow> 0 \<le> k \<and> k < int (length a) \<and> a' = a[nat k := a ! nat k - d]"
  by (auto simp: sub_at_def rd_def wr_def)

lemma mul_at_Some:
  "mul_at a k d = Some a' \<longleftrightarrow> 0 \<le> k \<and> k < int (length a) \<and> a' = a[nat k := a ! nat k * d]"
  by (auto simp: mul_at_def rd_def wr_def)

lemma add_at_nth:
  assumes "add_at a k d = Some a'"
  shows "length a' = length a" and "n < length a \<Longrightarrow> a' ! n = a ! n + hit k n d"
  using assms by (auto simp: add_at_Some hit_def nth_list_update)

lemma sub_at_nth:
  assumes "sub_at a k d = Some a'"
  shows "length a' = length a" and "n < length a \<Longrightarrow> a' ! n = a ! n - hit k n d"
  using assms by (auto simp: sub_at_Some hit_def nth_list_update)

lemma add3_nth:
  assumes "add3 a k d = Some a'"
  shows "length a' = length a" and "n < length a \<Longrightarrow> a' ! n = a ! n + hit3 k n d"
    and "0 \<le> k" and "k + 2 < int (length a)"
proof -
  from assms obtain a1 a2 where 1: "add_at a k (c0 d) = Some a1"
    and 2: "add_at a1 (k + 1) (c1 d) = Some a2" and 3: "add_at a2 (k + 2) (c2 d) = Some a'"
    by (auto simp: add3_def bind_eq_Some_conv)
  show "length a' = length a"
    using add_at_nth(1) [OF 1] add_at_nth(1) [OF 2] add_at_nth(1) [OF 3] by simp
  show "n < length a \<Longrightarrow> a' ! n = a ! n + hit3 k n d"
    using add_at_nth [OF 1] add_at_nth [OF 2] add_at_nth [OF 3] by (simp add: hit3_def)
  show "0 \<le> k" using 1 by (simp add: add_at_Some)
  show "k + 2 < int (length a)"
    using 3 add_at_nth(1) [OF 1] add_at_nth(1) [OF 2] by (simp add: add_at_Some)
qed

lemma sub3_nth:
  assumes "sub3 a k d = Some a'"
  shows "length a' = length a" and "n < length a \<Longrightarrow> a' ! n = a ! n - hit3 k n d"
    and "0 \<le> k" and "k + 2 < int (length a)"
proof -
  from assms obtain a1 a2 where 1: "sub_at a k (c0 d) = Some a1"
    and 2: "sub_at a1 (k + 1) (c1 d) = Some a2" and 3: "sub_at a2 (k + 2) (c2 d) = Some a'"
    by (auto simp: sub3_def bind_eq_Some_conv)
  show "length a' = length a"
    using sub_at_nth(1) [OF 1] sub_at_nth(1) [OF 2] sub_at_nth(1) [OF 3] by simp
  show "n < length a \<Longrightarrow> a' ! n = a ! n - hit3 k n d"
    using sub_at_nth [OF 1] sub_at_nth [OF 2] sub_at_nth [OF 3] by (simp add: hit3_def)
  show "0 \<le> k" using 1 by (simp add: sub_at_Some)
  show "k + 2 < int (length a)"
    using 3 sub_at_nth(1) [OF 1] sub_at_nth(1) [OF 2] by (simp add: sub_at_Some)
qed

lemma add3_ok:
  assumes "0 \<le> k" "k + 2 < int (length a)"
  shows "\<exists>a'. add3 a k d = Some a'"
  using assms by (simp add: add3_def add_at_def rd_def wr_def)

lemma sub3_ok:
  assumes "0 \<le> k" "k + 2 < int (length a)"
  shows "\<exists>a'. sub3 a k d = Some a'"
  using assms by (simp add: sub3_def sub_at_def rd_def wr_def)

lemma scatter_nth:
  assumes "scatter both itag jtag d a = Some a'"
  shows "length a' = length a"
    and "n < length a \<Longrightarrow>
           a' ! n = a ! n + hit3 (3 * itag) n d - (if both then hit3 (3 * jtag) n d else 0)"
    and "0 \<le> itag" and "3 * itag + 2 < int (length a)"
    and "both \<Longrightarrow> 0 \<le> jtag \<and> 3 * jtag + 2 < int (length a)"
proof -
  from assms obtain a3 where 1: "add3 a (3 * itag) d = Some a3"
    and 2: "(if both then sub3 a3 (3 * jtag) d else Some a3) = Some a'"
    by (auto simp: scatter_def bind_eq_Some_conv)
  show "length a' = length a"
    using add3_nth(1) [OF 1] 2 sub3_nth(1) [of a3 "3 * jtag" d a']
    by (auto split: if_splits)
  show "n < length a \<Longrightarrow>
           a' ! n = a ! n + hit3 (3 * itag) n d - (if both then hit3 (3 * jtag) n d else 0)"
    using add3_nth(1,2) [OF 1] 2 sub3_nth(2) [of a3 "3 * jtag" d a' n]
    by (auto split: if_splits)
  show "0 \<le> itag" using add3_nth(3) [OF 1] by simp
  show "3 * itag + 2 < int (length a)" using add3_nth(4) [OF 1] by simp
  show "both \<Longrightarrow> 0 \<le> jtag \<and> 3 * jtag + 2 < int (length a)"
    using add3_nth(1) [OF 1] 2 sub3_nth(3,4) [of a3 "3 * jtag" d a']
    by (auto split: if_splits)
qed

lemma scatter_ok:
  assumes "0 \<le> itag" "3 * itag + 2 < int (length a)"
    and "both \<Longrightarrow> 0 \<le> jtag \<and> 3 * jtag + 2 < int (length a)"
  shows "\<exists>a'. scatter both itag jtag d a = Some a'"
proof -
  obtain a3 where 1: "add3 a (3 * itag) d = Some a3"
    using add3_ok [of "3 * itag" a d] assms(1,2) by auto
  show ?thesis
  proof (cases both)
    case True
    then obtain a' where "sub3 a3 (3 * jtag) d = Some a'"
      using sub3_ok [of "3 * jtag" a3 d] assms(3) add3_nth(1) [OF 1] by auto
    with 1 True show ?thesis by (simp add: scatter_def)
  next
    case False
    with 1 show ?thesis by (simp add: scatter_def)
  qed
qed

lemma val_at_nth: "0 \<le> k \<Longrightarrow> k < int (length a) \<Longrightarrow> val_at a k = a ! nat k"
  by (simp add: val_at_def rd_def)

lemma rd_val_at: "rd a k = Some y \<Longrightarrow> val_at a k = y"
  by (simp add: val_at_def)

subsection \<open>The pair body of full mode\<close>

lemma sep2_nonneg: "0 \<le> sep2 xi xj"
  by (simp add: sep2_def)

lemma fsqrt_sumsq: "fsqrt (a * a + b * b + c * c) = Some (sqrt (a * a + b * b + c * c))"
proof -
  have "0 \<le> a * a + b * b + c * c" by simp
  then show ?thesis by (simp add: fsqrt_def not_less [symmetric] del: not_less)
qed

lemma fsqrt_sep2: "fsqrt (sep2 xi xj) = Some (sqrt (sep2 xi xj))"
  unfolding sep2_def by (rule fsqrt_sumsq)

lemma compute_pair_force_scatter:
  assumes "compute_pair_force env p gaussian eflag evflag dtinvsqrt i j itype jtype itag jtag
       factor_dpd delx dely delz r st = Some st'"
  shows "\<exists>fpair. scatter (newton_or_owned env j) itag jtag
            (delx * fpair, dely * fpair, delz * fpair) (f_step st) = Some (f_step st')"
proof -
  from assms obtain fpair f1 f2 f3 f6 tl where
    1: "add_at (f_step st) (3 * itag) (delx * fpair) = Some f1"
    and 2: "add_at f1 (3 * itag + 1) (dely * fpair) = Some f2"
    and 3: "add_at f2 (3 * itag + 2) (delz * fpair) = Some f3"
    and 4: "(if force_newton_pair env \<noteq> 0 \<or> j < atom_nlocal env then
              sub_at f3 (3 * jtag) (delx * fpair) \<bind> (\<lambda>f4.
              sub_at f4 (3 * jtag + 1) (dely * fpair) \<bind> (\<lambda>f5.
              sub_at f5 (3 * jtag + 2) (delz * fpair)))
            else Some f3) = Some f6"
    and 5: "st' = st\<lparr>f_step := f6, ndraw := Suc (ndraw st), tally := tl\<rparr>"
    unfolding compute_pair_force_def Let_def bind_eq_Some_conv by blast
  have "scatter (newton_or_owned env j) itag jtag
            (delx * fpair, dely * fpair, delz * fpair) (f_step st) = Some (f_step st')"
    unfolding scatter_def add3_def sub3_def newton_or_owned_def using 1 2 3 4 5
    by (auto simp: c0_def c1_def c2_def split: if_splits)
  then show ?thesis ..
qed

lemma compute_pair_eq:
  "compute_pair env p gaussian eflag evflag dtinvsqrt i xi itype itag jraw st = do {
     factor_dpd \<leftarrow> rd (force_special_lj env) (sbmask env jraw);
     xj \<leftarrow> rd (atom_x env) (neighmask env jraw);
     jtype \<leftarrow> rd (atom_type env) (neighmask env jraw);
     tagj \<leftarrow> rd (atom_tag env) (neighmask env jraw);
     csq \<leftarrow> rd2 (cutsq p) itype jtype;
     if sep2 xi xj < csq \<and> \<not> sqrt (sep2 xi xj) < EPSILON
     then compute_pair_force env p gaussian eflag evflag dtinvsqrt i (neighmask env jraw)
         itype jtype itag (tagj - 1) factor_dpd (c0 xi - c0 xj) (c1 xi - c1 xj) (c2 xi - c2 xj)
         (sqrt (sep2 xi xj)) st
     else Some st
   }"
  unfolding compute_pair_def Let_def sep2_def fsqrt_sumsq
  by (auto intro!: Option.bind_cong)

lemma compute_pair_cases:
  assumes "compute_pair env p gaussian eflag evflag dtinvsqrt i xi itype itag jraw st = Some st'"
  obtains (skip) "st' = st"
  | (force) factor_dpd xj jtype tagj where
      "rd (force_special_lj env) (sbmask env jraw) = Some factor_dpd"
      "rd (atom_x env) (neighmask env jraw) = Some xj"
      "rd (atom_type env) (neighmask env jraw) = Some jtype"
      "rd (atom_tag env) (neighmask env jraw) = Some tagj"
      "\<not> sqrt (sep2 xi xj) < EPSILON"
      "compute_pair_force env p gaussian eflag evflag dtinvsqrt i (neighmask env jraw) itype jtype
         itag (tagj - 1) factor_dpd (c0 xi - c0 xj) (c1 xi - c1 xj) (c2 xi - c2 xj)
         (sqrt (sep2 xi xj)) st = Some st'"
proof -
  from assms obtain factor_dpd xj jtype tagj csq where
    r: "rd (force_special_lj env) (sbmask env jraw) = Some factor_dpd"
      "rd (atom_x env) (neighmask env jraw) = Some xj"
      "rd (atom_type env) (neighmask env jraw) = Some jtype"
      "rd (atom_tag env) (neighmask env jraw) = Some tagj"
    and b: "(if sep2 xi xj < csq \<and> \<not> sqrt (sep2 xi xj) < EPSILON then
          compute_pair_force env p gaussian eflag evflag dtinvsqrt i (neighmask env jraw)
            itype jtype itag (tagj - 1) factor_dpd (c0 xi - c0 xj) (c1 xi - c1 xj)
            (c2 xi - c2 xj) (sqrt (sep2 xi xj)) st
          else Some st) = Some st'"
    unfolding compute_pair_eq bind_eq_Some_conv by blast
  show thesis
  proof (cases "sep2 xi xj < csq \<and> \<not> sqrt (sep2 xi xj) < EPSILON")
    case True
    with b r show thesis by (intro force) simp_all
  next
    case False
    with b have "st' = st" by simp
    then show thesis by (rule skip)
  qed
qed

subsection \<open>Entries of a vector after a pair\<close>

lemma hit3_at:
  assumes "0 \<le> b" "c \<in> {0, 1, 2}"
  shows "hit3 (3 * a) (nat (3 * b + c)) d =
     (if a = b then (if c = 0 then c0 d else if c = 1 then c1 d else c2 d) else 0)"
  using assms unfolding hit3_def hit_def by (auto; presburger)

lemma val_at_outside: "\<not> (0 \<le> k \<and> k < int (length a)) \<Longrightarrow> val_at a k = 0"
  by (auto simp: val_at_def rd_def)

lemma val_at_scatter:
  assumes s: "scatter both itag jtag d a = Some a'"
  shows "val_at a' k = val_at a k + (if 0 \<le> k \<and> k < int (length a)
     then hit3 (3 * itag) (nat k) d - (if both then hit3 (3 * jtag) (nat k) d else 0) else 0)"
proof (cases "0 \<le> k \<and> k < int (length a)")
  case True
  then have "nat k < length a" by auto
  then show ?thesis
    using True scatter_nth(1) [OF s] scatter_nth(2) [OF s, of "nat k"] by (simp add: val_at_nth)
next
  case False
  then have "val_at a k = 0" "val_at a' k = 0"
    using scatter_nth(1) [OF s] by (simp_all add: val_at_outside)
  with False show ?thesis by auto
qed

subsection \<open>Loops, and the pair body of step mode\<close>

lemma rd2_Some: "rd2 a i j = Some y \<Longrightarrow> y = a ! nat i ! nat j"
  by (auto simp: rd2_def rd_def bind_eq_Some_conv split: if_splits)

lemma fdiv_Some: "fdiv a b = Some q \<longleftrightarrow> b \<noteq> 0 \<and> q = a / b"
  by (auto simp: fdiv_def)

lemma forM_entries:
  assumes "\<And>k a a'. k \<in> set ks \<Longrightarrow> body k a = Some a' \<Longrightarrow>
      length a' = length a \<and> (\<forall>n<length a. a' ! n = a ! n + d k n)"
    and "forM ks body a = Some a'"
  shows "length a' = length (a :: real list) \<and>
    (\<forall>n<length a. a' ! n = a ! n + (\<Sum>k\<leftarrow>ks. d k n))"
  using assms
proof (induction ks arbitrary: a)
  case Nil
  then show ?case by simp
next
  case (Cons k ks)
  from Cons.prems(2) obtain a1 where 1: "body k a = Some a1" and 2: "forM ks body a1 = Some a'"
    by (auto split: option.splits)
  have s1: "length a1 = length a \<and> (\<forall>n<length a. a1 ! n = a ! n + d k n)"
    using Cons.prems(1) [of k a a1] 1 by simp
  have s2: "length a' = length a1 \<and> (\<forall>n<length a1. a' ! n = a1 ! n + (\<Sum>k\<leftarrow>ks. d k n))"
  proof (rule Cons.IH [OF _ 2])
    fix j b b'
    assume "j \<in> set ks" "body j b = Some b'"
    then show "length b' = length b \<and> (\<forall>n<length b. b' ! n = b ! n + d j n)"
      using Cons.prems(1) [of j b b'] by simp
  qed
  from s1 s2 show ?case by (simp add: add.assoc)
qed

lemma forM_rel:
  assumes "\<And>k s t s'. k \<in> set ks \<Longrightarrow> R s t \<Longrightarrow> f k s = Some s' \<Longrightarrow>
      \<exists>t'. g k t = Some t' \<and> R s' t'"
    and "R s t" and "forM ks f s = Some s'"
  shows "\<exists>t'. forM ks g t = Some t' \<and> R s' t'"
  using assms
proof (induction ks arbitrary: s t)
  case Nil
  then show ?case by simp
next
  case (Cons k ks)
  from Cons.prems(3) obtain s1 where 1: "f k s = Some s1" and 2: "forM ks f s1 = Some s'"
    by (auto split: option.splits)
  from Cons.prems(1) [of k s t s1] Cons.prems(2) 1 obtain t1 where
    3: "g k t = Some t1" and 4: "R s1 t1" by auto
  have "\<exists>t'. forM ks g t1 = Some t' \<and> R s' t'"
  proof (rule Cons.IH [OF _ 4 2])
    fix j a b a'
    assume "j \<in> set ks" "R a b" "f j a = Some a'"
    then show "\<exists>t'. g j b = Some t' \<and> R a' t'"
      using Cons.prems(1) [of j a b a'] by simp
  qed
  then obtain t' where "forM ks g t1 = Some t'" "R s' t'"
    by auto
  with 3 show ?case by auto
qed

lemma step_pair_force_eq:
  "step_pair_force env p input pre vi j itype jtype itag jtag factor_dpd delx dely delz r output =
   do {
     rinv \<leftarrow> fdiv 1 r;
     vj0 \<leftarrow> rd input (3 * jtag);
     vj1 \<leftarrow> rd input (3 * jtag + 1);
     vj2 \<leftarrow> rd input (3 * jtag + 2);
     cij \<leftarrow> rd2 (cut p) itype jtype;
     q \<leftarrow> fdiv r cij;
     gij \<leftarrow> rd2 (gamma p) itype jtype;
     scatter (newton_or_owned env j) itag jtag
       (scale3 (- gij * (1 - q) * (1 - q) * dot3 (delx, dely, delz) (diff3 vi (vj0, vj1, vj2)) * rinv
                  * (pre * factor_dpd * rinv)) (delx, dely, delz)) output
   }"
  unfolding step_pair_force_def Let_def scatter_def add3_def sub3_def newton_or_owned_def
    scale3_def dot3_def diff3_def c0_def c1_def c2_def fst_conv snd_conv
  by (auto intro!: Option.bind_cong simp: mult.commute)

lemma rd_nth: "rd a i = Some y \<Longrightarrow> y = a ! nat i"
  by (simp add: rd_Some)

lemma step_pair_eq:
  "step_pair env p input pre xi vi itype itag jraw output = do {
     factor_dpd \<leftarrow> rd (force_special_lj env) (sbmask env jraw);
     xj \<leftarrow> rd (atom_x env) (neighmask env jraw);
     jtype \<leftarrow> rd (atom_type env) (neighmask env jraw);
     tagj \<leftarrow> rd (atom_tag env) (neighmask env jraw);
     csq \<leftarrow> rd2 (cutsq p) itype jtype;
     if sep2 xi xj < csq \<and> \<not> sqrt (sep2 xi xj) < EPSILON
     then step_pair_force env p input pre vi (neighmask env jraw) itype jtype itag (tagj - 1)
            factor_dpd (c0 xi - c0 xj) (c1 xi - c1 xj) (c2 xi - c2 xj) (sqrt (sep2 xi xj)) output
     else Some output
   }"
  unfolding step_pair_def Let_def sep2_def fsqrt_sumsq
  by (auto intro!: Option.bind_cong)

lemma hit3_scale: "hit3 k n (scale3 s d) = s * hit3 k n d"
  by (simp add: hit3_def hit_def scale3_def c0_def c1_def c2_def)

lemma pair_entries_scale: "pair_entries both itag jtag (scale3 s d) n = s * pair_entries both itag jtag d n"
  by (simp add: pair_entries_def hit3_scale algebra_simps)

lemma pair_entries_zero: "pair_entries both itag jtag (0, 0, 0) n = 0"
  by (simp add: pair_entries_def hit3_def hit_def c0_def c1_def c2_def)

lemma pair_vector:
  assumes "r \<noteq> 0"
  shows "scale3 (- g * (1 - r / c) * (1 - r / c) * dot3 del dv * (1 / r) * (pre * fac * (1 / r))) del
    = scale3 pre (scale3 (fac * minus_gamma_w2 g (weight r c) r) (projection (unit3 r del) dv))"
  using assms
  by (simp add: scale3_def projection_def unit3_def minus_gamma_w2_def weight_def dot3_def
      c0_def c1_def c2_def field_simps)

lemma val3_at_rd:
  assumes "rd a k = Some y0" "rd a (k + 1) = Some y1" "rd a (k + 2) = Some y2"
  shows "val3_at a k = (y0, y1, y2)"
  using assms by (simp add: val3_at_def rd_val_at)

lemma step_pair_entries:
  assumes s: "step_pair env p input pre xi vi itype itag jraw out = Some out'"
  defines "j \<equiv> neighmask env jraw"
  defines "jtag \<equiv> atom_tag env ! nat j - 1"
  shows "length out' = length out"
    and "n < length out \<Longrightarrow> out' ! n = out ! n +
      pre * pair_entries (newton_or_owned env j) itag jtag
        (Gamma_pair minus_gamma_w2 env p xi itype jraw (diff3 vi (val3_at input (3 * jtag)))) n"
proof -
  from s obtain factor_dpd xj jtype tagj csq where
    r: "rd (force_special_lj env) (sbmask env jraw) = Some factor_dpd"
      "rd (atom_x env) j = Some xj"
      "rd (atom_type env) j = Some jtype"
      "rd (atom_tag env) j = Some tagj"
      "rd2 (cutsq p) itype jtype = Some csq"
    and b: "(if sep2 xi xj < csq \<and> \<not> sqrt (sep2 xi xj) < EPSILON then
          step_pair_force env p input pre vi j itype jtype itag (tagj - 1)
            factor_dpd (c0 xi - c0 xj) (c1 xi - c1 xj) (c2 xi - c2 xj) (sqrt (sep2 xi xj)) out
          else Some out) = Some out'"
    unfolding step_pair_eq bind_eq_Some_conv j_def by blast
  have v: "factor_dpd = force_special_lj env ! nat (sbmask env jraw)" "xj = atom_x env ! nat j"
    "jtype = atom_type env ! nat j" "tagj - 1 = jtag" "csq = cutsq p ! nat itype ! nat jtype"
    using r by (auto simp: jtag_def dest: rd_nth rd2_Some)
  define G where "G = Gamma_pair minus_gamma_w2 env p xi itype jraw (diff3 vi (val3_at input (3 * jtag)))"
  have "length out' = length out \<and> (n < length out \<longrightarrow> out' ! n = out ! n +
      pre * pair_entries (newton_or_owned env j) itag jtag G n)"
  proof (cases "sep2 xi xj < csq \<and> \<not> sqrt (sep2 xi xj) < EPSILON")
    case False
    with b have "out' = out" by simp
    moreover have "G = (0, 0, 0)"
      using False v unfolding G_def Gamma_pair_def Let_def j_def [symmetric] by auto
    ultimately show ?thesis by (simp add: pair_entries_zero)
  next
    case True
    with b have f: "step_pair_force env p input pre vi j itype jtype itag jtag
            factor_dpd (c0 xi - c0 xj) (c1 xi - c1 xj) (c2 xi - c2 xj) (sqrt (sep2 xi xj)) out
          = Some out'"
      using v(4) by simp
    define r where "r = sqrt (sep2 xi xj)"
    from f obtain rinv vj0 vj1 vj2 cij q gij where
      g: "fdiv 1 r = Some rinv" "rd input (3 * jtag) = Some vj0"
        "rd input (3 * jtag + 1) = Some vj1" "rd input (3 * jtag + 2) = Some vj2"
        "rd2 (cut p) itype jtype = Some cij" "fdiv r cij = Some q"
        "rd2 (gamma p) itype jtype = Some gij"
      and sc: "scatter (newton_or_owned env j) itag jtag
         (scale3 (- gij * (1 - q) * (1 - q) *
            dot3 (c0 xi - c0 xj, c1 xi - c1 xj, c2 xi - c2 xj) (diff3 vi (vj0, vj1, vj2)) * rinv
                  * (pre * factor_dpd * rinv)) (c0 xi - c0 xj, c1 xi - c1 xj, c2 xi - c2 xj)) out
         = Some out'"
      unfolding step_pair_force_eq bind_eq_Some_conv r_def by blast
    have r0: "r \<noteq> 0" and rinv: "rinv = 1 / r" and q: "q = r / cij"
      using g(1,6) by (auto simp: fdiv_Some)
    have vj: "val3_at input (3 * jtag) = (vj0, vj1, vj2)"
      using g(2,3,4) by (rule val3_at_rd)
    have del: "(c0 xi - c0 xj, c1 xi - c1 xj, c2 xi - c2 xj) = diff3 xi xj"
      by (simp add: diff3_def)
    have tb: "cij = cut p ! nat itype ! nat jtype" "gij = gamma p ! nat itype ! nat jtype"
      using g(5,7) by (auto dest: rd2_Some)
    have G: "G = scale3 (factor_dpd * minus_gamma_w2 gij (weight r cij) r)
        (projection (unit3 r (diff3 xi xj)) (diff3 vi (vj0, vj1, vj2)))"
      using True v tb unfolding G_def Gamma_pair_def Let_def j_def [symmetric] r_def vj
      by simp
    have sc': "scatter (newton_or_owned env j) itag jtag (scale3 pre G) out = Some out'"
      using sc unfolding del rinv q G pair_vector [OF r0] .
    show ?thesis
      using scatter_nth(1) [OF sc'] scatter_nth(2) [OF sc', of n]
      by (simp add: pair_entries_def [symmetric] pair_entries_scale)
  qed
  then show "length out' = length out"
    and "n < length out \<Longrightarrow> out' ! n = out ! n +
      pre * pair_entries (newton_or_owned env j) itag jtag
        (Gamma_pair minus_gamma_w2 env p xi itype jraw (diff3 vi (val3_at input (3 * jtag)))) n"
    unfolding G_def by simp_all
qed

subsection \<open>The entries of the output of step mode\<close>

lemma add3_val3:
  assumes "rd input k = Some u0" "add_at out k u0 = Some o1"
    "rd input (k + 1) = Some u1" "add_at o1 (k + 1) u1 = Some o2"
    "rd input (k + 2) = Some u2" "add_at o2 (k + 2) u2 = Some o3"
  shows "add3 out k (val3_at input k) = Some o3"
  using assms by (simp add: add3_def val3_at_def rd_val_at c0_def c1_def c2_def)

lemma step_atom_entries:
  assumes s: "step_atom env p input pre ii out = Some out'"
  shows "length out' = length out"
    and "n < length out \<Longrightarrow> out' ! n = out ! n + identity_atom env input ii n
        + pre * Gamma_atom minus_gamma_w2 newton_or_owned by_index env p input ii n"
proof -
  from s obtain i xi vxtmp vytmp vztmp itype tagi jlist jnum u0 o1 u1 o2 u2 o3 where
    r: "rd (list_ilist env) ii = Some i" "rd (atom_x env) i = Some xi"
      "rd input (3 * i) = Some vxtmp" "rd input (3 * i + 1) = Some vytmp"
      "rd input (3 * i + 2) = Some vztmp" "rd (atom_type env) i = Some itype"
      "rd (atom_tag env) i = Some tagi" "rd (list_firstneigh env) i = Some jlist"
      "rd (list_numneigh env) i = Some jnum"
    and u: "rd input (3 * (tagi - 1)) = Some u0" "add_at out (3 * (tagi - 1)) u0 = Some o1"
      "rd input (3 * (tagi - 1) + 1) = Some u1" "add_at o1 (3 * (tagi - 1) + 1) u1 = Some o2"
      "rd input (3 * (tagi - 1) + 2) = Some u2" "add_at o2 (3 * (tagi - 1) + 2) u2 = Some o3"
    and l: "forM [0..jnum - 1]
       (\<lambda>jj out. rd jlist jj \<bind>
          (\<lambda>jraw. step_pair env p input pre xi (vxtmp, vytmp, vztmp) itype (tagi - 1) jraw out))
       o3 = Some out'"
    unfolding step_atom_def Let_def bind_eq_Some_conv by blast
  define itag where "itag = tagi - 1"
  have v: "i = list_ilist env ! nat ii" "xi = atom_x env ! nat i" "itype = atom_type env ! nat i"
    "itag = atom_tag env ! nat i - 1" "jlist = list_firstneigh env ! nat i"
    "jnum = list_numneigh env ! nat i"
    using r by (auto simp: itag_def dest: rd_nth)
  have vi: "(vxtmp, vytmp, vztmp) = val3_at input (by_index i itag)"
    using val3_at_rd [OF r(3,4,5)] by (simp add: by_index_def)
  have a3: "add3 out (3 * itag) (val3_at input (3 * itag)) = Some o3"
    unfolding itag_def using u by (rule add3_val3)
  define d where "d jj n = pre * (let jraw = jlist ! nat jj; j = neighmask env jraw;
                jtag = atom_tag env ! nat j - 1
            in pair_entries (newton_or_owned env j) itag jtag
                 (Gamma_pair minus_gamma_w2 env p xi itype jraw
                    (diff3 (val3_at input (by_index i itag)) (val3_at input (3 * jtag)))) n)"
    for jj n
  have body: "length a' = length a \<and> (\<forall>n<length a. a' ! n = a ! n + d jj n)"
    if "(rd jlist jj \<bind>
          (\<lambda>jraw. step_pair env p input pre xi (vxtmp, vytmp, vztmp) itype (tagi - 1) jraw a))
        = Some a'" for jj a a'
  proof -
    from that obtain jraw where j: "rd jlist jj = Some jraw"
      and sp: "step_pair env p input pre xi (val3_at input (by_index i itag)) itype itag jraw a
        = Some a'"
      unfolding bind_eq_Some_conv vi itag_def by blast
    have jr: "jraw = jlist ! nat jj" using j by (rule rd_nth)
    show ?thesis
      using step_pair_entries(1) [OF sp] step_pair_entries(2) [OF sp]
      by (simp add: d_def Let_def jr)
  qed
  have loop: "length out' = length o3 \<and>
    (\<forall>n<length o3. out' ! n = o3 ! n + (\<Sum>jj\<leftarrow>[0..jnum - 1]. d jj n))"
    by (rule forM_entries [OF _ l]) (rule body)
  have sum: "(\<Sum>jj\<leftarrow>[0..jnum - 1]. d jj n)
      = pre * Gamma_atom minus_gamma_w2 newton_or_owned by_index env p input ii n" for n
    unfolding Gamma_atom_def Let_def d_def v(1-6) [symmetric]
    by (simp add: sum_list_const_mult)
  have idn: "identity_atom env input ii n = hit3 (3 * itag) n (val3_at input (3 * itag))" for n
    unfolding identity_atom_def Let_def v(1,4) [symmetric] ..
  show "length out' = length out"
    using loop add3_nth(1) [OF a3] by simp
  show "n < length out \<Longrightarrow> out' ! n = out ! n + identity_atom env input ii n
        + pre * Gamma_atom minus_gamma_w2 newton_or_owned by_index env p input ii n"
    using loop add3_nth(1) [OF a3] add3_nth(2) [OF a3, of n] by (simp add: sum idn)
qed

lemma compute_step_entries:
  assumes s: "compute_step env p input out = Some out'"
  shows "length out' = length out"
    and "n < length out \<Longrightarrow>
      out' ! n = out ! n + step_operator minus_gamma_w2 newton_or_owned by_index env p input n"
proof -
  define pre where "pre = - update_dt env / 2"
  from s have l: "forM [0..list_inum env - 1] (step_atom env p input pre) out = Some out'"
    by (simp add: compute_step_def pre_def)
  have loop: "length out' = length out \<and>
    (\<forall>n<length out. out' ! n = out ! n + (\<Sum>ii\<leftarrow>[0..list_inum env - 1].
       identity_atom env input ii n + pre * Gamma_atom minus_gamma_w2 newton_or_owned by_index env p input ii n))"
  proof (rule forM_entries [OF _ l])
    fix ii a a'
    assume "step_atom env p input pre ii a = Some a'"
    then show "length a' = length a \<and> (\<forall>n<length a. a' ! n = a ! n +
       (identity_atom env input ii n + pre * Gamma_atom minus_gamma_w2 newton_or_owned by_index env p input ii n))"
      using step_atom_entries [of env p input pre ii a a'] by simp
  qed
  have sum: "(\<Sum>ii\<leftarrow>[0..list_inum env - 1].
       identity_atom env input ii n + pre * Gamma_atom minus_gamma_w2 newton_or_owned by_index env p input ii n)
     = step_operator minus_gamma_w2 newton_or_owned by_index env p input n" for n
  proof -
    have "(\<Sum>ii\<leftarrow>[0..list_inum env - 1].
       identity_atom env input ii n + pre * Gamma_atom minus_gamma_w2 newton_or_owned by_index env p input ii n)
      = identity_apply env input n + pre * Gamma_apply minus_gamma_w2 newton_or_owned by_index env p input n"
      unfolding identity_apply_def Gamma_apply_def
      by (simp only: sum_list_addf sum_list_const_mult)
    then show ?thesis
      by (simp add: step_operator_def pre_def)
  qed
  show "length out' = length out" using loop by simp
  show "n < length out \<Longrightarrow>
      out' ! n = out ! n + step_operator minus_gamma_w2 newton_or_owned by_index env p input n"
    using loop sum by simp
qed

subsection \<open>Success of step mode depends on the lengths of the buffers only\<close>

lemma rd_same_length:
  assumes "rd u k = Some y" "length v = length u"
  shows "rd v k = Some (v ! nat k)"
  using assms by (simp add: rd_def split: if_splits)

lemma step_pair_ok:
  assumes s: "step_pair env p u pre xi vi itype itag jraw a = Some a'"
    and lv: "length v = length u" and lb: "length b = length a"
  shows "\<exists>b'. step_pair env p v pre xi vi' itype itag jraw b = Some b'"
proof -
  define j where "j = neighmask env jraw"
  from s obtain factor_dpd xj jtype tagj csq where
    r: "rd (force_special_lj env) (sbmask env jraw) = Some factor_dpd"
      "rd (atom_x env) j = Some xj"
      "rd (atom_type env) j = Some jtype"
      "rd (atom_tag env) j = Some tagj"
      "rd2 (cutsq p) itype jtype = Some csq"
    and c: "(if sep2 xi xj < csq \<and> \<not> sqrt (sep2 xi xj) < EPSILON then
          step_pair_force env p u pre vi j itype jtype itag (tagj - 1)
            factor_dpd (c0 xi - c0 xj) (c1 xi - c1 xj) (c2 xi - c2 xj) (sqrt (sep2 xi xj)) a
          else Some a) = Some a'"
    unfolding step_pair_eq bind_eq_Some_conv j_def by blast
  show ?thesis
  proof (cases "sep2 xi xj < csq \<and> \<not> sqrt (sep2 xi xj) < EPSILON")
    case False
    then show ?thesis
      unfolding step_pair_eq using r by (auto simp: j_def)
  next
    case True
    define r where "r = sqrt (sep2 xi xj)"
    from True c have f: "step_pair_force env p u pre vi j itype jtype itag (tagj - 1)
            factor_dpd (c0 xi - c0 xj) (c1 xi - c1 xj) (c2 xi - c2 xj) (sqrt (sep2 xi xj)) a
          = Some a'"
      by simp
    from f obtain rinv vj0 vj1 vj2 cij q gij d where
      g: "fdiv 1 r = Some rinv" "rd u (3 * (tagj - 1)) = Some vj0"
        "rd u (3 * (tagj - 1) + 1) = Some vj1" "rd u (3 * (tagj - 1) + 2) = Some vj2"
        "rd2 (cut p) itype jtype = Some cij" "fdiv r cij = Some q"
        "rd2 (gamma p) itype jtype = Some gij"
      and sc: "scatter (newton_or_owned env j) itag (tagj - 1) d a = Some a'"
      unfolding step_pair_force_eq bind_eq_Some_conv r_def by blast
    note gv = rd_same_length [OF g(2) lv] rd_same_length [OF g(3) lv] rd_same_length [OF g(4) lv]
    have ok: "\<exists>b'. scatter (newton_or_owned env j) itag (tagj - 1) d' b = Some b'" for d'
      using scatter_nth(3,4,5) [OF sc] lb by (intro scatter_ok) simp_all
    show ?thesis
      unfolding step_pair_eq step_pair_force_eq
      using r True g(1,5,6,7) gv ok by (simp add: j_def r_def)
  qed
qed

lemma step_atom_ok:
  assumes s: "step_atom env p u pre ii a = Some a'"
    and lv: "length v = length u" and lb: "length b = length a"
  shows "\<exists>b'. step_atom env p v pre ii b = Some b'"
proof -
  from s obtain i xi vxtmp vytmp vztmp itype tagi jlist jnum u0 o1 u1 o2 u2 o3 where
    r: "rd (list_ilist env) ii = Some i" "rd (atom_x env) i = Some xi"
       "rd (atom_type env) i = Some itype"
      "rd (atom_tag env) i = Some tagi" "rd (list_firstneigh env) i = Some jlist"
      "rd (list_numneigh env) i = Some jnum"
    and ri: "rd u (3 * i) = Some vxtmp" "rd u (3 * i + 1) = Some vytmp"
      "rd u (3 * i + 2) = Some vztmp"
    and u: "rd u (3 * (tagi - 1)) = Some u0" "add_at a (3 * (tagi - 1)) u0 = Some o1"
      "rd u (3 * (tagi - 1) + 1) = Some u1" "add_at o1 (3 * (tagi - 1) + 1) u1 = Some o2"
      "rd u (3 * (tagi - 1) + 2) = Some u2" "add_at o2 (3 * (tagi - 1) + 2) u2 = Some o3"
    and l: "forM [0..jnum - 1]
       (\<lambda>jj out. rd jlist jj \<bind>
          (\<lambda>jraw. step_pair env p u pre xi (vxtmp, vytmp, vztmp) itype (tagi - 1) jraw out))
       o3 = Some a'"
    unfolding step_atom_def Let_def bind_eq_Some_conv by blast
  note rv = rd_same_length [OF ri(1) lv] rd_same_length [OF ri(2) lv] rd_same_length [OF ri(3) lv]
    rd_same_length [OF u(1) lv] rd_same_length [OF u(3) lv] rd_same_length [OF u(5) lv]
  have a3: "add3 a (3 * (tagi - 1)) (val3_at u (3 * (tagi - 1))) = Some o3"
    using u by (rule add3_val3)
  have "3 * (tagi - 1) + 2 < int (length b)"
    using add3_nth(4) [OF a3] lb by simp
  from add3_ok [OF add3_nth(3) [OF a3] this]
  obtain w3 where b3: "add3 b (3 * (tagi - 1)) (val3_at v (3 * (tagi - 1))) = Some w3"
    by blast
  have l3: "length o3 = length w3"
    using add3_nth(1) [OF a3] add3_nth(1) [OF b3] lb by simp
  define vi' where "vi' = (v ! nat (3 * i), v ! nat (3 * i + 1), v ! nat (3 * i + 2))"
  have "\<exists>b'. forM [0..jnum - 1]
       (\<lambda>jj out. rd jlist jj \<bind>
          (\<lambda>jraw. step_pair env p v pre xi vi' itype (tagi - 1) jraw out))
       w3 = Some b' \<and> length a' = length b'"
  proof (rule forM_rel [where R = "\<lambda>s t. length s = length t", OF _ l3 l])
    fix jj s t s'
    assume st: "length s = length (t :: real list)"
      and f: "rd jlist jj \<bind>
          (\<lambda>jraw. step_pair env p u pre xi (vxtmp, vytmp, vztmp) itype (tagi - 1) jraw s)
        = Some s'"
    from f obtain jraw where j: "rd jlist jj = Some jraw"
      and sp: "step_pair env p u pre xi (vxtmp, vytmp, vztmp) itype (tagi - 1) jraw s = Some s'"
      unfolding bind_eq_Some_conv by blast
    from step_pair_ok [OF sp lv, of t vi'] st obtain t' where
      t: "step_pair env p v pre xi vi' itype (tagi - 1) jraw t = Some t'" by auto
    have "length s' = length t'"
      using step_pair_entries(1) [OF sp] step_pair_entries(1) [OF t] st by simp
    with j t show "\<exists>t'. rd jlist jj \<bind>
          (\<lambda>jraw. step_pair env p v pre xi vi' itype (tagi - 1) jraw t) = Some t'
        \<and> length s' = length t'"
      by simp
  qed
  then obtain b' where lb': "forM [0..jnum - 1]
       (\<lambda>jj out. rd jlist jj \<bind>
          (\<lambda>jraw. step_pair env p v pre xi vi' itype (tagi - 1) jraw out))
       w3 = Some b'" by blast
  have b3': "add_at b (3 * (tagi - 1)) (v ! nat (3 * (tagi - 1))) \<bind> (\<lambda>o1.
      add_at o1 (3 * (tagi - 1) + 1) (v ! nat (3 * (tagi - 1) + 1)) \<bind> (\<lambda>o2.
      add_at o2 (3 * (tagi - 1) + 2) (v ! nat (3 * (tagi - 1) + 2)))) = Some w3"
    using b3 rv(4,5,6) by (simp add: add3_def val3_at_def rd_val_at c0_def c1_def c2_def)
  then obtain w1 w2 where w: "add_at b (3 * (tagi - 1)) (v ! nat (3 * (tagi - 1))) = Some w1"
    "add_at w1 (3 * (tagi - 1) + 1) (v ! nat (3 * (tagi - 1) + 1)) = Some w2"
    "add_at w2 (3 * (tagi - 1) + 2) (v ! nat (3 * (tagi - 1) + 2)) = Some w3"
    unfolding bind_eq_Some_conv by blast
  have "step_atom env p v pre ii b = Some b'"
    unfolding step_atom_def Let_def
    using r rv w lb' by (simp add: vi'_def)
  then show ?thesis ..
qed

lemma compute_step_ok:
  assumes s: "compute_step env p u a = Some a'"
    and lv: "length v = length u" and lb: "length b = length a"
  shows "\<exists>b'. compute_step env p v b = Some b'"
proof -
  define pre where "pre = - update_dt env / 2"
  from s have l: "forM [0..list_inum env - 1] (step_atom env p u pre) a = Some a'"
    by (simp add: compute_step_def pre_def)
  have "\<exists>b'. forM [0..list_inum env - 1] (step_atom env p v pre) b = Some b'
      \<and> length a' = length b'"
  proof (rule forM_rel [where R = "\<lambda>s t. length s = length t", OF _ lb [symmetric] l])
    fix ii s t s'
    assume st: "length s = length (t :: real list)"
      and f: "step_atom env p u pre ii s = Some s'"
    from step_atom_ok [OF f lv, of t] st obtain t' where
      t: "step_atom env p v pre ii t = Some t'" by auto
    have "length s' = length t'"
      using step_atom_entries(1) [OF f] step_atom_entries(1) [OF t] st by simp
    with t show "\<exists>t'. step_atom env p v pre ii t = Some t' \<and> length s' = length t'"
      by simp
  qed
  then show ?thesis
    by (auto simp: compute_step_def pre_def)
qed

subsection \<open>The operator is linear in its input\<close>

lemma length_lin: "length (lin ca u cb v) = min (length u) (length v)"
  by (simp add: lin_def)

lemma val_at_lin:
  assumes "length u = length v"
  shows "val_at (lin ca u cb v) k = ca * val_at u k + cb * val_at v k"
  using assms by (auto simp: val_at_def rd_def lin_def)

lemma val3_at_lin:
  assumes "length u = length v"
  shows "val3_at (lin ca u cb v) k = lin3 ca (val3_at u k) cb (val3_at v k)"
  by (simp add: val3_at_def lin3_def val_at_lin [OF assms] c0_def c1_def c2_def)

lemma diff3_lin:
  "diff3 (lin3 ca a cb b) (lin3 ca a' cb b') = lin3 ca (diff3 a a') cb (diff3 b b')"
  by (simp add: diff3_def lin3_def c0_def c1_def c2_def algebra_simps)

lemma hit3_lin: "hit3 k n (lin3 ca a cb b) = ca * hit3 k n a + cb * hit3 k n b"
  by (simp add: hit3_def hit_def lin3_def c0_def c1_def c2_def)

lemma pair_entries_lin:
  "pair_entries both itag jtag (lin3 ca a cb b) n
     = ca * pair_entries both itag jtag a n + cb * pair_entries both itag jtag b n"
  by (simp add: pair_entries_def hit3_lin algebra_simps)

lemma lin3_zero: "lin3 ca (0, 0, 0) cb (0, 0, 0) = (0, 0, 0)"
  by (simp add: lin3_def c0_def c1_def c2_def)

lemma dot3_lin: "dot3 d (lin3 ca a cb b) = ca * dot3 d a + cb * dot3 d b"
  by (simp add: dot3_def lin3_def c0_def c1_def c2_def algebra_simps)

lemma projection_lin:
  "projection e (lin3 ca a cb b) = lin3 ca (projection e a) cb (projection e b)"
  unfolding projection_def dot3_lin
  by (simp add: scale3_def lin3_def c0_def c1_def c2_def algebra_simps)

lemma scale3_lin:
  "scale3 k (lin3 ca a cb b) = lin3 ca (scale3 k a) cb (scale3 k b)"
  by (simp add: scale3_def lin3_def c0_def c1_def c2_def algebra_simps)

lemma Gamma_pair_lin:
  "Gamma_pair sc env p xi itype jraw (lin3 ca a cb b)
     = lin3 ca (Gamma_pair sc env p xi itype jraw a) cb (Gamma_pair sc env p xi itype jraw b)"
  unfolding Gamma_pair_def Let_def projection_lin scale3_lin
  by (simp add: lin3_zero)

lemma sum_list_lin:
  "(\<Sum>x\<leftarrow>xs. ca * f x + cb * g x) = ca * (\<Sum>x\<leftarrow>xs. f x) + cb * (\<Sum>x\<leftarrow>xs. (g x :: real))"
  by (simp only: sum_list_addf sum_list_const_mult)

lemma Gamma_atom_lin:
  assumes "length u = length v"
  shows "Gamma_atom sc both vbase env p (lin ca u cb v) ii n
     = ca * Gamma_atom sc both vbase env p u ii n + cb * Gamma_atom sc both vbase env p v ii n"
  unfolding Gamma_atom_def Let_def val3_at_lin [OF assms] diff3_lin Gamma_pair_lin pair_entries_lin
  by (rule sum_list_lin)

lemma identity_atom_lin:
  assumes "length u = length v"
  shows "identity_atom env (lin ca u cb v) ii n
     = ca * identity_atom env u ii n + cb * identity_atom env v ii n"
  unfolding identity_atom_def Let_def val3_at_lin [OF assms] hit3_lin ..

lemma step_operator_lin:
  assumes "length u = length v"
  shows "step_operator sc both vbase env p (lin ca u cb v) n
     = ca * step_operator sc both vbase env p u n + cb * step_operator sc both vbase env p v n"
  unfolding step_operator_def identity_apply_def Gamma_apply_def
    Gamma_atom_lin [OF assms] identity_atom_lin [OF assms] sum_list_lin
  by (simp add: algebra_simps)

lemma compute_step_zeros:
  assumes "compute_step env p input (zeros m) = Some out"
  shows "out = map (step_operator minus_gamma_w2 newton_or_owned by_index env p input) [0..<m]"
proof (rule nth_equalityI)
  show "length out = length (map (step_operator minus_gamma_w2 newton_or_owned by_index env p input) [0..<m])"
    using compute_step_entries(1) [OF assms] by (simp add: zeros_def)
  fix n assume "n < length out"
  then have "n < m" using compute_step_entries(1) [OF assms] by (simp add: zeros_def)
  then show "out ! n = map (step_operator minus_gamma_w2 newton_or_owned by_index env p input) [0..<m] ! n"
    using compute_step_entries(2) [OF assms, of n] by (simp add: zeros_def)
qed

lemma step_pair_force_ignores_velocities:
  "step_pair_force (env\<lparr>atom_v := w\<rparr>) p input pre vi = step_pair_force env p input pre vi"
  by (intro ext) (simp add: step_pair_force_def)

lemma step_pair_ignores_velocities:
  "step_pair (env\<lparr>atom_v := w\<rparr>) p input pre xi vi itype itag
     = step_pair env p input pre xi vi itype itag"
  by (intro ext) (simp add: step_pair_def step_pair_force_ignores_velocities cong: if_cong)

lemma step_atom_ignores_velocities:
  "step_atom (env\<lparr>atom_v := w\<rparr>) p input pre = step_atom env p input pre"
  by (intro ext) (simp add: step_atom_def step_pair_ignores_velocities)

lemma compute_step_ignores_velocities:
  "compute_step (env\<lparr>atom_v := w\<rparr>) p input output = compute_step env p input output"
  by (simp add: compute_step_def step_atom_ignores_velocities)

lemma nth_lin:
  assumes "n < length u" "n < length v"
  shows "lin ca u cb v ! n = ca * u ! n + cb * v ! n"
  using assms by (simp add: lin_def)

lemma step_operator_by_tag:
  assumes "owned_at_state_index env"
  shows "step_operator sc both by_index env p input n = step_operator sc both by_tag env p input n"
proof -
  have "Gamma_atom sc both by_index env p input ii n = Gamma_atom sc both by_tag env p input ii n"
    if "ii \<in> set [0..list_inum env - 1]" for ii
  proof -
    from assms that
    have "atom_tag env ! nat (list_ilist env ! nat ii) - 1 = list_ilist env ! nat ii"
      unfolding owned_at_state_index_def list_all_iff by blast
    then show ?thesis
      unfolding Gamma_atom_def Let_def by_index_def by_tag_def by (simp only:)
  qed
  then have "Gamma_apply sc both by_index env p input n = Gamma_apply sc both by_tag env p input n"
    unfolding Gamma_apply_def by (intro arg_cong [where f = sum_list] map_cong) simp_all
  then show ?thesis by (simp add: step_operator_def)
qed


subsection \<open>The operator on the example configurations\<close>

lemmas step_eval = compute_step_def step_atom_def step_pair_def step_pair_force_def
  rd_def rd2_def wr_def add_at_def sub_at_def fdiv_def fsqrt_def EPSILON_def c0_def c1_def c2_def
  upto_rec1 Let_def zeros_def

lemmas op_eval = step_operator_def identity_apply_def identity_atom_def Gamma_apply_def
  Gamma_atom_def Gamma_pair_def pair_entries_def hit3_def hit_def val3_at_def val_at_def
  projection_def unit3_def minus_gamma_w2_over_r_def minus_gamma_w2_def weight_def scale3_def diff3_def dot3_def sep2_def by_tag_def
  both_always_def newton_or_owned_def rd_def EPSILON_def c0_def c1_def c2_def upto_rec1 Let_def

lemma ex_step_e0: "compute_step ex_env ex_pair [1, 0, 0, 0, 0, 0] (zeros 6) = Some [2, 0, 0, - 1, 0, 0]"
  by (simp add: step_eval ex_env_def ex_pair_def eval_nat_numeral)

lemma ex_step_e3: "compute_step ex_env ex_pair [0, 0, 0, 1, 0, 0] (zeros 6) = Some [- 1, 0, 0, 2, 0, 0]"
  by (simp add: step_eval ex_env_def ex_pair_def eval_nat_numeral)

lemma ex_step_5: "compute_step ex_env ex_pair [1, 0, 0, 0, 0, 0] [5, 0, 0, 0, 0, 0] = Some [7, 0, 0, - 1, 0, 0]"
  by (simp add: step_eval ex_env_def ex_pair_def)

lemma ex_ghost_step: "compute_step ex_ghost ex_pair [1, 0, 0, 0, 0, 0] (zeros 6) = Some [2, 0, 0, 0, 0, 0]"
  by (simp add: step_eval ex_ghost_def ex_env_def ex_pair_def eval_nat_numeral)

lemma upt6: "[0..<6] = [0, 1, 2, 3, 4, 5]"
  by (simp add: upt_rec)

lemma ex_ghost_op:
  "map (step_operator minus_gamma_w2_over_r both_always by_tag ex_ghost ex_pair [1, 0, 0, 0, 0, 0]) [0..<6] = [2, 0, 0, - 1, 0, 0]"
  by (simp add: upt6 op_eval ex_ghost_def ex_env_def ex_pair_def)

lemma ex_env_op:
  "map (step_operator minus_gamma_w2_over_r both_always by_tag ex_env ex_pair [1, 0, 0, 0, 0, 0]) [0..<6] = [2, 0, 0, - 1, 0, 0]"
  by (simp add: upt6 op_eval ex_env_def ex_pair_def)

lemma sqrt_9_4: "sqrt (9 / 4) = 3 / 2"
proof -
  have "sqrt (9 / 4) = sqrt ((3 / 2) ^ 2)"
    by (simp add: power2_eq_square)
  then show ?thesis
    using real_sqrt_abs [of "3 / 2"] by simp
qed

lemma ex_far_step:
  "compute_step ex_far ex_pair [1, 0, 0, 0, 0, 0] (zeros 6) = Some [5 / 4, 0, 0, - (1 / 4), 0, 0]"
  by (simp add: step_eval ex_far_def ex_env_def ex_pair_def eval_nat_numeral sqrt_9_4)

lemma ex_far_op:
  "map (step_operator minus_gamma_w2_over_r both_always by_tag ex_far ex_pair [1, 0, 0, 0, 0, 0])
     [0..<6] = [7 / 6, 0, 0, - (1 / 6), 0, 0]"
  by (simp add: upt6 op_eval ex_far_def ex_env_def ex_pair_def sqrt_9_4)

lemma ex_far_owned: "owned_at_state_index ex_far"
  by (simp add: owned_at_state_index_def ex_far_def ex_env_def upto_rec1)

lemma ex_owned: "owned_at_state_index ex_env"
  by (simp add: owned_at_state_index_def ex_env_def upto_rec1)

subsection \<open>Nested loops and type tables\<close>

lemma forM_append: "forM (xs @ ys) f s = forM xs f s \<bind> forM ys f"
  by (induction xs arbitrary: s) (auto split: option.splits)

lemma forM_nested:
  "forM is (\<lambda>i. forM (js i) (f i)) s
     = forM (concat (map (\<lambda>i. map (Pair i) (js i)) is)) (\<lambda>(i, j). f i j) s"
proof (induction "is" arbitrary: s)
  case Nil
  then show ?case by simp
next
  case (Cons i "is")
  have inner: "forM (map (Pair i) js') (\<lambda>(i, j). f i j) t = forM js' (f i) t" for js' t
    by (induction js' arbitrary: t) (auto split: option.splits)
  show ?case
    by (simp add: forM_append inner Cons.IH split: option.splits)
qed

lemma forM_total:
  assumes "\<And>k s. k \<in> set ks \<Longrightarrow> I s \<Longrightarrow> \<exists>s'. f k s = Some s' \<and> I s'"
    and "I s"
  shows "\<exists>s'. forM ks f s = Some s' \<and> I s'"
  using assms
proof (induction ks arbitrary: s)
  case Nil
  then show ?case by simp
next
  case (Cons k ks)
  from Cons.prems(1) [of k s] Cons.prems(2) obtain s1 where 1: "f k s = Some s1" "I s1"
    by auto
  have "\<exists>s'. forM ks f s1 = Some s' \<and> I s'"
  proof (rule Cons.IH [OF _ 1(2)])
    fix j t assume "j \<in> set ks" "I t"
    then show "\<exists>s'. f j t = Some s' \<and> I s'" using Cons.prems(1) [of j t] by simp
  qed
  with 1 show ?case by simp
qed

lemma type_pairs_range:
  assumes "ij \<in> set (type_pairs n)"
  shows "1 \<le> fst ij \<and> fst ij \<le> snd ij \<and> snd ij \<le> n"
  using assms by (auto simp: type_pairs_def)

lemma distinct_type_pairs: "distinct (type_pairs n)"
  unfolding type_pairs_def
proof (rule distinct_concat)
  have "x = y" if "map (Pair x) [x..n] = map (Pair y) [y..n]" "x \<le> n" "y \<le> n" for x y :: int
    using that upto_rec1 [of x n] upto_rec1 [of y n] by auto
  then show "distinct (map (\<lambda>i. map (Pair i) [i..n]) [1..n])"
    by (auto simp: distinct_map inj_on_def)
qed (auto simp: distinct_map inj_on_def)

lemma upd2_dims:
  assumes "dims t n" "0 \<le> i" "i \<le> n"
  shows "dims (upd2 t i j y) n"
  unfolding upd2_def using assms by (rule dims_update)

lemma wr2_upd2:
  assumes "dims t n" "0 \<le> i" "i \<le> n" "0 \<le> j" "j \<le> n"
  shows "wr2 t i j y = Some (upd2 t i j y)"
  unfolding upd2_def using assms by (rule dims_wr2)

lemma upd2_nth:
  assumes "dims t n" "0 \<le> i" "i \<le> n" "0 \<le> j" "j \<le> n" "0 \<le> i'" "0 \<le> j'"
  shows "upd2 t i j y ! nat i' ! nat j' = (if i' = i \<and> j' = j then y else t ! nat i' ! nat j')"
proof -
  have l: "nat i < length t" "nat j < length (t ! nat i)"
    using assms(1-5) dims_row [OF assms(1-3)] by (auto simp: dims_def)
  show ?thesis
    using l assms(2,4,6,7) by (auto simp: upd2_def nth_list_update)
qed

subsection \<open>Writing and reading the restart file\<close>

lemma allocated_dims:
  assumes "allocated p n"
  shows "dims (setflag p) n" "dims (cut p) n" "dims (a0 p) n" "dims (gamma p) n" "dims (sigma p) n"
    "dims (cutsq p) n"
  using assms by (simp_all add: allocated_def)

lemma write_restart_pair_entry:
  assumes al: "allocated p n" and i: "0 \<le> i" "i \<le> n" and j: "0 \<le> j" "j \<le> n"
  shows "write_restart_pair p i j fp = Some (fp @ restart_entry p (i, j))"
  unfolding write_restart_pair_def restart_entry_def
  by (simp add: dims_rd2 [OF allocated_dims(1) [OF al] i j] dims_rd2 [OF allocated_dims(2) [OF al] i j]
      dims_rd2 [OF allocated_dims(3) [OF al] i j] dims_rd2 [OF allocated_dims(4) [OF al] i j]
      fwrite_int_def fwrite_double_def Let_def)

lemma write_restart_pairs:
  assumes al: "allocated p n"
    and r: "\<forall>ij\<in>set ps. 0 \<le> fst ij \<and> fst ij \<le> n \<and> 0 \<le> snd ij \<and> snd ij \<le> n"
  shows "forM ps (\<lambda>(i, j). write_restart_pair p i j) fp
     = Some (fp @ concat (map (restart_entry p) ps))"
  using r
proof (induction ps arbitrary: fp)
  case Nil
  then show ?case by simp
next
  case (Cons ij ps)
  obtain i j where ij: "ij = (i, j)" by (cases ij)
  from Cons.prems ij have b: "0 \<le> i" "i \<le> n" "0 \<le> j" "j \<le> n" by auto
  show ?case
    using Cons.IH [of "fp @ restart_entry p (i, j)"] Cons.prems
    by (simp add: ij write_restart_pair_entry [OF al b])
qed

lemma write_restart_layout:
  assumes al: "allocated p n" and n: "atom_ntypes env = n"
  shows "write_restart env p fp
     = Some (fp @ restart_settings p @ concat (map (restart_entry p) (type_pairs n)))"
proof -
  have r: "\<forall>ij\<in>set (type_pairs n). 0 \<le> fst ij \<and> fst ij \<le> n \<and> 0 \<le> snd ij \<and> snd ij \<le> n"
    using type_pairs_range [of _ n] by fastforce
  have s: "write_restart_settings p fp = fp @ restart_settings p"
    by (simp add: write_restart_settings_def restart_settings_def fwrite_int_def fwrite_double_def)
  show ?thesis
    unfolding write_restart_def n forM_nested type_pairs_def [symmetric] s
    using write_restart_pairs [OF al r, of "fp @ restart_settings p"] by simp
qed

lemma read_restart_settings_block:
  "read_restart_settings p0 (restart_settings p @ rest)
     = Some (p0\<lparr>temperature := temperature p, cut_global := cut_global p, seed := seed p,
          mix_flag := mix_flag p\<rparr>, rest)"
  by (simp add: read_restart_settings_def restart_settings_def fread_double_def fread_int_def)

lemma allocate_ok:
  assumes al: "allocated fresh n" and n: "atom_ntypes env = n"
  shows "\<exists>p2. allocate env fresh p1 = Some p2 \<and> allocated p2 n \<and> settings_of p2 = settings_of p1"
proof -
  have "\<exists>sf. forM (type_pairs n) (\<lambda>(i, j) sf. wr2 sf i j (0 :: int)) (setflag fresh) = Some sf
      \<and> dims sf n"
  proof (rule forM_total [where I = "\<lambda>sf. dims sf n"])
    fix ij and sf :: "int list list"
    assume ij: "ij \<in> set (type_pairs n)" and d: "dims sf n"
    obtain i j where e: "ij = (i, j)" by (cases ij)
    from type_pairs_range [OF ij] e have b: "0 \<le> i" "i \<le> n" "0 \<le> j" "j \<le> n" by auto
    show "\<exists>s'. (case ij of (i, j) \<Rightarrow> \<lambda>sf. wr2 sf i j 0) sf = Some s' \<and> dims s' n"
      using wr2_upd2 [OF d b] upd2_dims [OF d b(1,2)] by (simp add: e)
  qed (rule allocated_dims(1) [OF al])
  then obtain sf where sf: "forM [1..n] (\<lambda>i. forM [i..n] (\<lambda>j sf. wr2 sf i j (0 :: int)))
      (setflag fresh) = Some sf" "dims sf n"
    unfolding type_pairs_def forM_nested by blast
  define sq where "sq = concat (map (\<lambda>i. map (Pair i) [0..n]) [0..n])"
  have "\<exists>st. forM sq (\<lambda>(i, j) (sg, gm). wr2 gm i j (0 :: real) \<bind>
          (\<lambda>gm. wr2 sg i j (0 :: real) \<bind> (\<lambda>sg. Some (sg, gm))))
        (sigma fresh, gamma fresh) = Some st \<and> dims (fst st) n \<and> dims (snd st) n"
  proof (rule forM_total [where I = "\<lambda>st. dims (fst st) n \<and> dims (snd st) n"])
    fix ij and st :: "real list list \<times> real list list"
    assume ij: "ij \<in> set sq" and d: "dims (fst st) n \<and> dims (snd st) n"
    obtain i j where e: "ij = (i, j)" by (cases ij)
    obtain sg gm where t: "st = (sg, gm)" by (cases st)
    from ij e have b: "0 \<le> i" "i \<le> n" "0 \<le> j" "j \<le> n" by (auto simp: sq_def)
    from d t have d': "dims sg n" "dims gm n" by simp_all
    show "\<exists>s'. (case ij of (i, j) \<Rightarrow> \<lambda>(sg, gm). wr2 gm i j 0 \<bind>
          (\<lambda>gm. wr2 sg i j 0 \<bind> (\<lambda>sg. Some (sg, gm)))) st = Some s'
        \<and> dims (fst s') n \<and> dims (snd s') n"
      using wr2_upd2 [OF d'(1) b] wr2_upd2 [OF d'(2) b] upd2_dims [OF d'(1) b(1,2)]
        upd2_dims [OF d'(2) b(1,2)]
      by (simp add: e t)
  qed (simp add: allocated_dims [OF al])
  then obtain sg gm where sg: "forM [0..n] (\<lambda>i. forM [0..n]
        (\<lambda>j (sg, gm). wr2 gm i j (0 :: real) \<bind>
          (\<lambda>gm. wr2 sg i j (0 :: real) \<bind> (\<lambda>sg. Some (sg, gm)))))
        (sigma fresh, gamma fresh) = Some (sg, gm)" "dims sg n" "dims gm n"
    unfolding sq_def forM_nested by auto
  have "allocate env fresh p1 = Some (p1\<lparr>setflag := sf, cutsq := cutsq fresh, cut := cut fresh,
      a0 := a0 fresh, gamma := gm, sigma := sg\<rparr>)"
    unfolding allocate_def n Let_def using sf(1) sg(1) by simp
  then show ?thesis
    using sf(2) sg(2,3) allocated_dims [OF al] by (simp add: allocated_def settings_of_def)
qed

lemma coeffs_at_upd:
  "coeffs_at (p\<lparr>setflag := sf, a0 := ta, gamma := tg, cut := tc\<rparr>) ij
     = (sf ! nat (fst ij) ! nat (snd ij), ta ! nat (fst ij) ! nat (snd ij),
        tg ! nat (fst ij) ! nat (snd ij), tc ! nat (fst ij) ! nat (snd ij))"
  by (simp add: coeffs_at_def Let_def)

lemma read_restart_pair_entry:
  assumes al: "allocated p0 n" and i: "0 \<le> i" "i \<le> n" and j: "0 \<le> j" "j \<le> n"
  shows "\<exists>p1. read_restart_pair i j (p0, restart_entry q (i, j) @ rest) = Some (p1, rest) \<and>
     allocated p1 n \<and> settings_of p1 = settings_of p0 \<and> restart_agrees p1 q (i, j) \<and>
     (\<forall>i' j'. 0 \<le> i' \<and> 0 \<le> j' \<and> (i', j') \<noteq> (i, j) \<longrightarrow>
        coeffs_at p1 (i', j') = coeffs_at p0 (i', j'))"
proof -
  note d = allocated_dims [OF al]
  define flag where "flag = setflag q ! nat i ! nat j"
  define sf where "sf = upd2 (setflag p0) i j flag"
  have dsf: "dims sf n" unfolding sf_def by (rule upd2_dims [OF d(1) i])
  show ?thesis
  proof (cases "flag = 0")
    case True
    have e: "restart_entry q (i, j) = [SInt 0]"
      using True by (simp add: restart_entry_def flag_def Let_def)
    have r: "read_restart_pair i j (p0, restart_entry q (i, j) @ rest)
        = Some (p0\<lparr>setflag := sf\<rparr>, rest)"
      unfolding read_restart_pair_def e sf_def
      using True
      by (simp add: dims_rd2 [OF d(1) i j] wr2_upd2 [OF d(1) i j] fread_int_def)
    have a: "allocated (p0\<lparr>setflag := sf\<rparr>) n"
      using d dsf by (simp add: allocated_def)
    have g: "restart_agrees (p0\<lparr>setflag := sf\<rparr>) q (i, j)"
      using True i j upd2_nth [OF d(1) i j i(1) j(1), of flag]
      by (simp add: restart_agrees_def coeffs_at_def Let_def sf_def flag_def)
    have f: "coeffs_at (p0\<lparr>setflag := sf\<rparr>) (i', j') = coeffs_at p0 (i', j')"
      if "0 \<le> i'" "0 \<le> j'" "(i', j') \<noteq> (i, j)" for i' j'
      using that upd2_nth [OF d(1) i j that(1,2), of flag]
      by (auto simp: coeffs_at_def Let_def sf_def)
    from r a g f show ?thesis by (auto simp: settings_of_def)
  next
    case False
    define ta where "ta = upd2 (a0 p0) i j (a0 q ! nat i ! nat j)"
    define tg where "tg = upd2 (gamma p0) i j (gamma q ! nat i ! nat j)"
    define tc where "tc = upd2 (cut p0) i j (cut q ! nat i ! nat j)"
    define p1 where "p1 = p0\<lparr>setflag := sf, a0 := ta, gamma := tg, cut := tc\<rparr>"
    have e: "restart_entry q (i, j) = [SInt flag, SDouble (a0 q ! nat i ! nat j),
        SDouble (gamma q ! nat i ! nat j), SDouble (cut q ! nat i ! nat j)]"
      using False by (simp add: restart_entry_def flag_def Let_def)
    have r: "read_restart_pair i j (p0, restart_entry q (i, j) @ rest) = Some (p1, rest)"
      unfolding read_restart_pair_def e p1_def sf_def ta_def tg_def tc_def
      using False
      by (simp add: dims_rd2 [OF d(1) i j] wr2_upd2 [OF d(1) i j] dims_rd2 [OF d(2) i j]
          wr2_upd2 [OF d(2) i j] dims_rd2 [OF d(3) i j] wr2_upd2 [OF d(3) i j]
          dims_rd2 [OF d(4) i j] wr2_upd2 [OF d(4) i j] fread_int_def fread_double_def)
    have a: "allocated p1 n"
      using d dsf upd2_dims [OF d(2) i] upd2_dims [OF d(3) i] upd2_dims [OF d(4) i]
      by (simp add: allocated_def p1_def ta_def tg_def tc_def)
    have g: "restart_agrees p1 q (i, j)"
      using False i j upd2_nth [OF d(1) i j i(1) j(1), of flag]
        upd2_nth [OF d(2) i j i(1) j(1)] upd2_nth [OF d(3) i j i(1) j(1)]
        upd2_nth [OF d(4) i j i(1) j(1)]
      by (simp add: restart_agrees_def p1_def coeffs_at_upd sf_def ta_def tg_def tc_def)
        (simp add: coeffs_at_def Let_def flag_def)
    have f: "coeffs_at p1 (i', j') = coeffs_at p0 (i', j')"
      if "0 \<le> i'" "0 \<le> j'" "(i', j') \<noteq> (i, j)" for i' j'
      using that upd2_nth [OF d(1) i j that(1,2), of flag]
        upd2_nth [OF d(2) i j that(1,2)] upd2_nth [OF d(3) i j that(1,2)]
        upd2_nth [OF d(4) i j that(1,2)]
      by (auto simp: p1_def coeffs_at_upd sf_def ta_def tg_def tc_def)
        (auto simp: coeffs_at_def Let_def)
    from r a g f show ?thesis by (auto simp: settings_of_def p1_def)
  qed
qed

lemma restart_agrees_cong:
  "coeffs_at p2 ij = coeffs_at p1 ij \<Longrightarrow> restart_agrees p1 q ij \<Longrightarrow> restart_agrees p2 q ij"
  by (simp add: restart_agrees_def)

lemma read_restart_pairs:
  assumes "allocated p0 n"
    and "\<forall>ij\<in>set ps. 0 \<le> fst ij \<and> fst ij \<le> n \<and> 0 \<le> snd ij \<and> snd ij \<le> n"
    and "distinct ps"
  shows "\<exists>p'. forM ps (\<lambda>(i, j). read_restart_pair i j)
        (p0, concat (map (restart_entry q) ps) @ rest) = Some (p', rest) \<and>
     allocated p' n \<and> settings_of p' = settings_of p0 \<and>
     (\<forall>ij\<in>set ps. restart_agrees p' q ij) \<and>
     (\<forall>i' j'. 0 \<le> i' \<and> 0 \<le> j' \<and> (i', j') \<notin> set ps \<longrightarrow>
        coeffs_at p' (i', j') = coeffs_at p0 (i', j'))"
  using assms
proof (induction ps arbitrary: p0)
  case Nil
  then show ?case by simp
next
  case (Cons ij ps)
  obtain i j where ij: "ij = (i, j)" by (cases ij)
  from Cons.prems(2) ij have b: "0 \<le> i" "i \<le> n" "0 \<le> j" "j \<le> n" by auto
  from read_restart_pair_entry [OF Cons.prems(1) b, of q "concat (map (restart_entry q) ps) @ rest"]
  obtain p1 where 1: "read_restart_pair i j
        (p0, restart_entry q (i, j) @ concat (map (restart_entry q) ps) @ rest)
        = Some (p1, concat (map (restart_entry q) ps) @ rest)"
    and a1: "allocated p1 n" and s1: "settings_of p1 = settings_of p0"
    and g1: "restart_agrees p1 q (i, j)"
    and f1: "\<And>i' j'. 0 \<le> i' \<Longrightarrow> 0 \<le> j' \<Longrightarrow> (i', j') \<noteq> (i, j) \<Longrightarrow>
        coeffs_at p1 (i', j') = coeffs_at p0 (i', j')"
    by blast
  have r: "\<forall>ij\<in>set ps. 0 \<le> fst ij \<and> fst ij \<le> n \<and> 0 \<le> snd ij \<and> snd ij \<le> n"
    using Cons.prems(2) by simp
  have dp: "distinct ps" and nin: "(i, j) \<notin> set ps"
    using Cons.prems(3) ij by simp_all
  from Cons.IH [OF a1 r dp]
  obtain p' where 2: "forM ps (\<lambda>(i, j). read_restart_pair i j)
        (p1, concat (map (restart_entry q) ps) @ rest) = Some (p', rest)"
    and a2: "allocated p' n" and s2: "settings_of p' = settings_of p1"
    and g2: "\<forall>ij\<in>set ps. restart_agrees p' q ij"
    and f2: "\<And>i' j'. 0 \<le> i' \<Longrightarrow> 0 \<le> j' \<Longrightarrow> (i', j') \<notin> set ps \<Longrightarrow>
        coeffs_at p' (i', j') = coeffs_at p1 (i', j')"
    by blast
  have run: "forM (ij # ps) (\<lambda>(i, j). read_restart_pair i j)
        (p0, concat (map (restart_entry q) (ij # ps)) @ rest) = Some (p', rest)"
    using 1 2 by (simp add: ij)
  have g: "restart_agrees p' q (i, j)"
    using f2 [OF b(1) b(3) nin] g1 by (rule restart_agrees_cong)
  have f: "coeffs_at p' (i', j') = coeffs_at p0 (i', j')"
    if "0 \<le> i'" "0 \<le> j'" "(i', j') \<notin> set (ij # ps)" for i' j'
    using that f2 [of i' j'] f1 [of i' j'] by (simp add: ij)
  from run a2 s1 s2 g g2 f show ?case
    by (auto simp: ij)
qed


subsection \<open>The solver on the example configuration\<close>

lemmas vec_eval = squaredNorm_def vnorm_def normalized_def vdot_def vsub_scaled_def mLanczos_def

lemma ex_init: "lanczos_init ex_env ex_pair [1, 0, 0, 0, 0, 0]
  = Some (1, \<lparr>Vn = [[1, 0, 0, 0, 0, 0]], rk = [2, 0, 0, - 1, 0, 0],
       alpha = [0, 2, 0, 0, 0, 0, 0, 0, 0, 0, 0], beta = [0, 0, 0, 0, 0, 0, 0, 0, 0, 0, 0],
       xk_save = [], printed = []\<rparr>)"
  by (simp add: lanczos_init_def vec_eval step_eval ex_env_def ex_pair_def eval_nat_numeral)

lemma ex_extend: "lanczos_extend ex_env ex_pair 2
     \<lparr>Vn = [[1, 0, 0, 0, 0, 0]], rk = [2, 0, 0, - 1, 0, 0],
       alpha = [0, 2, 0, 0, 0, 0, 0, 0, 0, 0, 0], beta = [0, 0, 0, 0, 0, 0, 0, 0, 0, 0, 0],
       xk_save = [], printed = []\<rparr>
  = Some \<lparr>Vn = [[1, 0, 0, 0, 0, 0], [0, 0, 0, - 1, 0, 0]], rk = [1, 0, 0, - 3, 0, 0],
       alpha = [0, 2, 3, 0, 0, 0, 0, 0, 0, 0, 0], beta = [0, 1, 0, 0, 0, 0, 0, 0, 0, 0, 0],
       xk_save = [], printed = []\<rparr>"
  by (simp add: lanczos_extend_def vec_eval step_eval ex_env_def ex_pair_def eval_nat_numeral)

lemma ex_step_v2: "compute_step ex_env ex_pair [0, 0, 0, - 1, 0, 0] (zeros 6) = Some [1, 0, 0, - 2, 0, 0]"
  by (simp add: step_eval ex_env_def ex_pair_def eval_nat_numeral)

subsection \<open>Indexed loops and the vectors of the solver\<close>

lemma forM_upto_Some:
  assumes "forM [a..b] f s = Some s'" and "I a s"
    and "\<And>k t t'. a \<le> k \<Longrightarrow> k \<le> b \<Longrightarrow> I k t \<Longrightarrow> f k t = Some t' \<Longrightarrow> I (k + 1) t'"
    and "a \<le> b + 1"
  shows "I (b + 1) s'"
  using assms
proof (induction "nat (b + 1 - a)" arbitrary: a s)
  case 0
  then have "a = b + 1" by simp
  with "0.prems" show ?case by simp
next
  case (Suc m)
  then have ab: "a \<le> b" by simp
  then have u: "[a..b] = a # [a + 1..b]" by (rule upto_rec1)
  from Suc.prems(1) obtain s1 where 1: "f a s = Some s1" and 2: "forM [a + 1..b] f s1 = Some s'"
    unfolding u by (auto split: option.splits)
  have i1: "I (a + 1) s1"
    using Suc.prems(3) [OF _ ab Suc.prems(2) 1] by simp
  show ?case
  proof (rule Suc.hyps(1) [OF _ 2 i1])
    show "m = nat (b + 1 - (a + 1))" using Suc.hyps(2) by simp
    show "a + 1 \<le> b + 1" using ab by simp
    fix k t t'
    assume "a + 1 \<le> k" "k \<le> b" "I k t" "f k t = Some t'"
    then show "I (k + 1) t'" using Suc.prems(3) [of k t t'] by simp
  qed
qed

lemma forM_upto_None:
  assumes "forM [a..b] f s = None" and "I a s"
    and "\<And>k t t'. a \<le> k \<Longrightarrow> k \<le> b \<Longrightarrow> I k t \<Longrightarrow> f k t = Some t' \<Longrightarrow> I (k + 1) t'"
  shows "\<exists>k t. a \<le> k \<and> k \<le> b \<and> I k t \<and> f k t = None"
  using assms
proof (induction "nat (b + 1 - a)" arbitrary: a s)
  case 0
  then have "[a..b] = []" by simp
  with "0.prems"(1) show ?case by simp
next
  case (Suc m)
  then have ab: "a \<le> b" by simp
  then have u: "[a..b] = a # [a + 1..b]" by (rule upto_rec1)
  show ?case
  proof (cases "f a s")
    case None
    with ab Suc.prems(2) show ?thesis by auto
  next
    case (Some s1)
    with Suc.prems(1) have 2: "forM [a + 1..b] f s1 = None"
      unfolding u by simp
    have i1: "I (a + 1) s1"
      using Suc.prems(3) [OF _ ab Suc.prems(2) Some] by simp
    have "\<exists>k t. a + 1 \<le> k \<and> k \<le> b \<and> I k t \<and> f k t = None"
    proof (rule Suc.hyps(1) [OF _ 2 i1])
      show "m = nat (b + 1 - (a + 1))" using Suc.hyps(2) by simp
      fix k t t'
      assume "a + 1 \<le> k" "k \<le> b" "I k t" "f k t = Some t'"
      then show "I (k + 1) t'" using Suc.prems(3) [of k t t'] by simp
    qed
    then obtain k t where kt: "a + 1 \<le> k" "k \<le> b" "I k t" "f k t = None"
      by blast
    then have "a \<le> k" by simp
    with kt show ?thesis by blast
  qed
qed

lemma length_normalized: "length (normalized v) = length v"
  by (simp add: normalized_def Let_def)

lemma length_vsub_scaled: "length (vsub_scaled r a c) = min (length r) (length c)"
  by (simp add: vsub_scaled_def)

subsection \<open>The operator on vectors of the length of the state\<close>

lemma step_ok_any:
  assumes ok: "compute_step env p (zeros n) (zeros n) = Some z"
    and "length u = n" "length a = n"
  shows "\<exists>a'. compute_step env p u a = Some a' \<and> length a' = n"
proof -
  from compute_step_ok [OF ok, of u a] assms(2,3)
  obtain a' where a: "compute_step env p u a = Some a'" by (auto simp: zeros_def)
  with compute_step_entries(1) [OF a] assms(3) show ?thesis by simp
qed

subsection \<open>The copy of the solution into the output\<close>

lemma copy_loop:
  assumes lx: "length xs = nat sz" and lo: "length out = nat sz"
  shows "forM [0..sz - 1] (\<lambda>i out. rd xs i \<bind> wr out i) out = Some xs"
proof -
  have "forM [k..sz - 1] (\<lambda>i out. rd xs i \<bind> wr out i) (take (nat k) xs @ drop (nat k) out)
      = Some xs" if "0 \<le> k" "k \<le> max 0 sz" for k
    using that
  proof (induction "nat (sz - k)" arbitrary: k)
    case 0
    then have "nat k = nat sz" "[k..sz - 1] = []" by auto
    then show ?case using lx lo by simp
  next
    case (Suc m)
    then have ks: "k < sz" by simp
    then have u: "[k..sz - 1] = k # [k + 1..sz - 1]" by (intro upto_rec1) simp
    define cur where "cur = take (nat k) xs @ drop (nat k) out"
    have kn: "nat k < nat sz" using ks Suc.prems by simp
    have "nat k \<le> nat sz" by (rule less_imp_le [OF kn])
    then have lc: "length cur = nat sz" using lx lo by (simp add: cur_def)
    have b: "rd xs k \<bind> wr cur k = Some (cur[nat k := xs ! nat k])"
      using kn lx lc Suc.prems(1) by (simp add: rd_def wr_def)
    have n: "cur[nat k := xs ! nat k] = take (nat (k + 1)) xs @ drop (nat (k + 1)) out"
    proof (rule nth_equalityI)
      have k1: "nat (k + 1) = Suc (nat k)" using Suc.prems(1) by simp
      have kk: "Suc (nat k) \<le> nat sz" by (rule Suc_leI [OF kn])
      show "length (cur[nat k := xs ! nat k]) = length (take (nat (k + 1)) xs @ drop (nat (k + 1)) out)"
        unfolding k1 using lc lx lo kk by simp
      fix i assume "i < length (cur[nat k := xs ! nat k])"
      then have i: "i < nat sz" using lc by simp
      show "cur[nat k := xs ! nat k] ! i = (take (nat (k + 1)) xs @ drop (nat (k + 1)) out) ! i"
        using i kn lx lo lc
        by (cases "i < nat k"; cases "i = nat k")
          (simp_all add: k1 cur_def nth_append nth_list_update less_Suc_eq)
    qed
    have "forM [k + 1..sz - 1] (\<lambda>i out. rd xs i \<bind> wr out i)
        (take (nat (k + 1)) xs @ drop (nat (k + 1)) out) = Some xs"
      using Suc.hyps(2) Suc.prems ks by (intro Suc.hyps(1)) simp_all
    then show ?case
      unfolding u cur_def [symmetric] using b n by simp
  qed
  from this [of 0] show ?thesis by simp
qed

subsection \<open>Lists read by index\<close>

lemma upto_map_int: "[0..int n - 1] = map int [0..<n]"
proof (induction n)
  case 0
  show ?case by simp
next
  case (Suc n)
  have "[0..int (Suc n) - 1] = [0..int n - 1] @ [int n]"
    using upto_rec2 [of 0 "int n"] by simp
  with Suc show ?case by simp
qed

lemma those_map_Some_eq: "those (map Some ys) = Some ys"
  by (induction ys) simp_all

lemma those_map_rd:
  assumes "n \<le> length xs"
  shows "those (map (rd xs) [0..int n - 1]) = Some (take n xs)"
proof -
  have "map (rd xs) (map int [0..<n]) = map Some (map ((!) xs) [0..<n])"
    using assms by (simp add: rd_def)
  moreover have "map ((!) xs) [0..<n] = take n xs"
    using assms by (intro nth_equalityI) simp_all
  ultimately show ?thesis
    by (simp add: upto_map_int those_map_Some_eq)
qed

lemma vdot_zeros: "(\<Sum>(a, b)\<leftarrow>zip ys (replicate n 0). a * b) = (0 :: real)"
proof (induction ys arbitrary: n)
  case Nil
  show ?case by simp
next
  case (Cons y ys)
  then show ?case by (cases n) simp_all
qed

lemma vdot_canonical: "vdot row (1 # replicate n 0) = (case row of [] \<Rightarrow> 0 | y # ys \<Rightarrow> y)"
  by (cases row) (simp_all add: vdot_def vdot_zeros)

lemma first_column_vdot: "map (\<lambda>row. vdot row (1 # replicate n 0)) M = first_column M"
  by (simp add: first_column_def vdot_canonical)

lemma foldl_combination:
  assumes "length acc = sz" and "\<forall>c\<in>set cols. length c = sz"
  shows "foldl (\<lambda>acc (col, c). map2 (\<lambda>y z. y + z * c) acc col) (acc :: real list) (zip cols f)
     = map (\<lambda>n. acc ! n + (\<Sum>(v, c)\<leftarrow>zip cols f. c * v ! n)) [0..<sz]"
  using assms
proof (induction cols arbitrary: acc f)
  case Nil
  then show ?case using map_nth [of acc] by simp
next
  case (Cons c cols)
  show ?case
  proof (cases f)
    case Nil
    with Cons.prems show ?thesis using map_nth [of acc] by simp
  next
    case f: (Cons x f')
    define acc' where "acc' = map2 (\<lambda>y z. y + z * x) acc c"
    have l: "length acc' = sz" using Cons.prems by (simp add: acc'_def)
    have n: "acc' ! n = acc ! n + c ! n * x" if "n < sz" for n
      using that Cons.prems by (simp add: acc'_def)
    have "foldl (\<lambda>acc (col, c). map2 (\<lambda>y z. y + z * c) acc col) acc (zip (c # cols) f)
        = foldl (\<lambda>acc (col, c). map2 (\<lambda>y z. y + z * c) acc col) acc' (zip cols f')"
      by (simp add: f acc'_def)
    also have "\<dots> = map (\<lambda>n. acc' ! n + (\<Sum>(v, c)\<leftarrow>zip cols f'. c * v ! n)) [0..<sz]"
      using Cons.prems by (intro Cons.IH l) simp
    also have "\<dots> = map (\<lambda>n. acc ! n + (\<Sum>(v, c)\<leftarrow>zip (c # cols) f. c * v ! n)) [0..<sz]"
      by (rule map_cong) (simp_all add: n f algebra_simps)
    finally show ?thesis .
  qed
qed

lemma mat_vec_combination:
  assumes "\<forall>c\<in>set cols. length c = sz"
  shows "mat_vec sz cols f = combination sz cols f"
  unfolding mat_vec_def combination_def
  using foldl_combination [of "replicate sz 0" sz cols f] assms
  by simp

subsection \<open>The coefficients of a list of applications that grows\<close>

lemma alpha_coef_append:
  assumes "1 \<le> m" "m \<le> length tr"
  shows "alpha_coef (tr @ [a]) m = alpha_coef tr m"
proof -
  have "m - 1 < length tr" using assms by simp
  then show ?thesis by (simp add: alpha_coef_def nth_append)
qed

lemma beta_coef_append:
  assumes "m < length tr"
  shows "beta_coef (tr @ [a]) m = beta_coef tr m"
  using assms by (simp add: beta_coef_def nth_append)

lemma residual_append:
  assumes "2 \<le> k" "k \<le> length tr + 1"
  shows "residual (tr @ [a]) k = residual tr k"
proof -
  have 1: "alpha_coef (tr @ [a]) (k - 1) = alpha_coef tr (k - 1)"
    using assms by (intro alpha_coef_append) simp_all
  have 2: "(tr @ [a]) ! (k - 2) = tr ! (k - 2)"
    using assms by (simp add: nth_append)
  have 3: "beta_coef (tr @ [a]) (k - 2) = beta_coef tr (k - 2)" if "2 < k"
    using assms that by (intro beta_coef_append) simp
  have 4: "(tr @ [a]) ! (k - 3) = tr ! (k - 3)" if "2 < k"
    using assms that by (simp add: nth_append)
  show ?thesis
    unfolding residual_def Let_def 1 2 using 3 4 by simp
qed

lemma tridiagonal_append:
  assumes "k \<le> length tr"
  shows "tridiagonal (tr @ [a]) k = tridiagonal tr k"
proof -
  have al: "alpha_coef (tr @ [a]) (Suc i) = alpha_coef tr (Suc i)" if "i < k" for i
    using that assms by (intro alpha_coef_append) simp_all
  have be: "beta_coef (tr @ [a]) i = beta_coef tr i" if "i < k" for i
    using that assms by (intro beta_coef_append) simp
  show ?thesis
    unfolding tridiagonal_def
    by (intro map_cong refl) (simp add: al be)
qed

lemma krylov_iterate_append:
  assumes "k \<le> length tr"
  shows "krylov_iterate dense_inverse nrm sz (tr @ [a]) k = krylov_iterate dense_inverse nrm sz tr k"
  using assms by (simp add: krylov_iterate_def tridiagonal_append)

lemma reports_append:
  assumes "k \<le> length tr"
  shows "reports dense_inverse nrm sz tol (tr @ [a]) k = reports dense_inverse nrm sz tol tr k"
proof -
  have "k - 1 \<le> length tr" using assms by simp
  then show ?thesis
    using assms by (simp add: reports_def krylov_iterate_append)
qed

lemma applications_append:
  assumes tr: "applications env p b n tr" and n: "1 \<le> n"
    and a: "app_buf a = residual tr (Suc n)" "app_vec a = normalized (residual tr (Suc n))"
      "compute_step env p (app_vec a) (app_buf a) = Some (app_img a)"
  shows "applications env p b (Suc n) (tr @ [a])"
proof -
  from tr have l: "length tr = n" by (simp add: applications_def)
  have main: "app_buf ((tr @ [a]) ! (k - 1))
        = (if k = 1 then zeros (length b) else residual (tr @ [a]) k) \<and>
      app_vec ((tr @ [a]) ! (k - 1)) = normalized (if k = 1 then b else residual (tr @ [a]) k) \<and>
      compute_step env p (app_vec ((tr @ [a]) ! (k - 1))) (app_buf ((tr @ [a]) ! (k - 1)))
        = Some (app_img ((tr @ [a]) ! (k - 1)))"
    if k: "k \<in> {1..Suc n}" for k
  proof (cases "k = Suc n")
    case True
    have "(tr @ [a]) ! (k - 1) = a" using True l by (simp add: nth_append)
    moreover have "residual (tr @ [a]) k = residual tr (Suc n)"
      unfolding True using n l by (intro residual_append) simp_all
    ultimately show ?thesis using a n True by simp
  next
    case False
    with k have kn: "k \<in> {1..n}" by simp
    then have "k - 1 < length tr" using l by auto
    then have e: "(tr @ [a]) ! (k - 1) = tr ! (k - 1)" by (simp add: nth_append)
    have r: "residual (tr @ [a]) k = residual tr k" if "k \<noteq> 1"
      using kn that l by (intro residual_append) simp_all
    from tr kn have "app_buf (tr ! (k - 1))
          = (if k = 1 then zeros (length b) else residual tr k) \<and>
        app_vec (tr ! (k - 1)) = normalized (if k = 1 then b else residual tr k) \<and>
        compute_step env p (app_vec (tr ! (k - 1))) (app_buf (tr ! (k - 1)))
          = Some (app_img (tr ! (k - 1)))"
      unfolding applications_def by blast
    then show ?thesis
      unfolding e using r by (cases "k = 1") auto
  qed
  have len: "length (tr @ [a]) = Suc n" using l by simp
  show ?thesis
    unfolding applications_def using len main by blast
qed

subsection \<open>The state of the solver and the list of its applications\<close>

lemma hessenberg_tridiagonal:
  assumes al: "\<forall>m\<in>{1..k}. al ! m = alpha_coef tr m"
    and be: "\<forall>m\<in>{1..<k}. be ! m = beta_coef tr m"
  shows "hessenberg al be (int k) = tridiagonal tr k"
proof -
  have a: "al ! Suc i = alpha_coef tr (Suc i)" if "i < k" for i
    using al that by simp
  have b: "be ! Suc i = beta_coef tr (Suc i)" if "Suc i < k" for i
    using be that by simp
  have e: "(let h = (if int i = int j then al ! nat (int i + 1) else 0)
       in if int i = int j + 1 \<or> int i = int j - 1
          then (let kprime = (if int i > int j then int i else int j) in be ! nat kprime)
          else h)
     = (if i = j then alpha_coef tr (i + 1)
        else if i = j + 1 then beta_coef tr i
        else if j = i + 1 then beta_coef tr j
        else 0)"
    if "i < k" "j < k" for i j
  proof -
    have n: "nat (int m + 1) = Suc m" "nat (1 + int m) = Suc m" for m by simp_all
    consider "i = j" | "i = Suc j" | "j = Suc i" | "i \<noteq> j" "i \<noteq> Suc j" "j \<noteq> Suc i"
      by blast
    then show ?thesis
    proof cases
      case 1
      then show ?thesis using a [OF that(1)] by (simp add: Let_def n)
    next
      case 2
      then show ?thesis using b [of j] that by (simp add: Let_def n)
    next
      case 3
      then show ?thesis using b [of i] that by (simp add: Let_def n)
    next
      case 4
      then have "int i \<noteq> int j + 1" "int i \<noteq> int j - 1" by auto
      with 4 show ?thesis by (simp add: Let_def)
    qed
  qed
  have "map (\<lambda>i. map (\<lambda>j. let h = (if i = j then al ! nat (i + 1) else 0)
         in if i = j + 1 \<or> i = j - 1
            then (let kprime = (if i > j then i else j) in be ! nat kprime)
            else h) (map int [0..<k])) (map int [0..<k])
     = map (\<lambda>i. map (\<lambda>j. if i = j then alpha_coef tr (i + 1)
                        else if i = j + 1 then beta_coef tr i
                        else if j = i + 1 then beta_coef tr j
                        else 0) [0..<k]) [0..<k]"
    unfolding map_map comp_def
  proof (intro map_cong refl)
    fix i j assume "i \<in> set [0..<k]" "j \<in> set [0..<k]"
    then have "i < k" "j < k" by simp_all
    then show "(let h = (if int i = int j then al ! nat (int i + 1) else 0)
       in if int i = int j + 1 \<or> int i = int j - 1
          then (let kprime = (if int i > int j then int i else int j) in be ! nat kprime)
          else h)
     = (if i = j then alpha_coef tr (i + 1)
        else if i = j + 1 then beta_coef tr i
        else if j = i + 1 then beta_coef tr j
        else 0)"
      by (rule e)
  qed
  then show ?thesis
    unfolding hessenberg_def tridiagonal_def upto_map_int .
qed

lemma krylov_state_length:
  assumes "krylov_state env p b n st tr"
  shows "length tr = n"
  using assms by (simp add: krylov_state_def applications_def)

lemma krylov_state_cong:
  assumes "krylov_state env p b n st tr"
    and "Vn st' = Vn st" "rk st' = rk st" "alpha st' = alpha st" "beta st' = beta st"
  shows "krylov_state env p b n st' tr"
  using assms by (simp add: krylov_state_def)

lemma krylov_solution_iterate:
  assumes s: "krylov_state env p b n st tr"
  shows "krylov_solution env dense_inverse nrm (int n) st
     = krylov_iterate dense_inverse nrm (state_size env) tr n"
proof -
  have l: "length tr = n" using s by (rule krylov_state_length)
  have h: "hessenberg (alpha st) (beta st) (int n) = tridiagonal tr n"
    using s by (intro hessenberg_tridiagonal) (simp_all add: krylov_state_def)
  have v: "map app_vec (take n tr) = Vn st"
    using s l by (simp add: krylov_state_def)
  have c: "\<forall>c\<in>set (Vn st). length c = state_size env"
    using s by (auto simp: krylov_state_def)
  show ?thesis
    unfolding krylov_solution_def krylov_iterate_def Let_def h v state_size_def [symmetric]
    by (cases "dense_inverse (tridiagonal tr n)")
      (simp_all add: first_column_vdot mat_vec_combination [OF c] mult.commute)
qed

lemma upto_nat: "[0..x - 1] = [0..int (nat x) - 1]"
  by (cases "0 \<le> x") simp_all

lemma lanczos_init_state:
  assumes ok: "compute_step env p (zeros (state_size env)) (zeros (state_size env)) = Some z"
    and li: "state_size env \<le> length input"
  shows "\<exists>st tr. lanczos_init env p input = Some (vnorm (right_hand_side env input), st) \<and>
     krylov_state env p (right_hand_side env input) 1 st tr \<and>
     krylov_solved env dense_inverse (vnorm (right_hand_side env input)) tol 1 st tr"
proof -
  define b where "b = right_hand_side env input"
  have lb: "length b = state_size env"
    using li by (simp add: b_def right_hand_side_def)
  have c: "those (map (rd input) [0..atom_nlocal env * 3 - 1]) = Some b"
    using those_map_rd [OF li] upto_nat [of "atom_nlocal env * 3"]
    by (simp add: b_def right_hand_side_def state_size_def)
  from step_ok_any [OF ok, of "normalized b" "zeros (state_size env)"] lb
  obtain r where r: "compute_step env p (normalized b) (zeros (state_size env)) = Some r"
    and lr: "length r = state_size env"
    by (auto simp: length_normalized zeros_def)
  define st where "st = \<lparr>Vn = [normalized b], rk = r,
      alpha = (replicate 11 0)[1 := vdot (normalized b) r],
      beta = replicate 11 0, xk_save = [], printed = []\<rparr>"
  define tr where "tr = [\<lparr>app_vec = normalized b, app_buf = zeros (state_size env), app_img = r\<rparr>]"
  have i: "lanczos_init env p input = Some (vnorm b, st)"
    unfolding lanczos_init_def Let_def c st_def
    using r by (simp add: zeros_def state_size_def mLanczos_def)
  have a: "applications env p b 1 tr"
    using r lb by (simp add: applications_def tr_def)
  have s: "krylov_state env p b 1 st tr"
    unfolding krylov_state_def using a lr lb
    by (simp add: st_def tr_def length_normalized alpha_coef_def)
  have v: "krylov_solved env dense_inverse (vnorm b) tol 1 st tr"
    by (simp add: krylov_solved_def st_def)
  from i s v show ?thesis unfolding b_def by blast
qed

subsection \<open>One iteration, against the list of applications\<close>

lemma lanczos_extend_state:
  assumes ok: "compute_step env p (zeros (state_size env)) (zeros (state_size env)) = Some z"
    and s: "krylov_state env p b n st tr"
    and v: "krylov_solved env dense_inverse nrm tol n st tr"
    and n: "1 \<le> n" "n \<le> 9"
  shows "\<exists>st' a. lanczos_extend env p (int n + 1) st = Some st' \<and>
     krylov_state env p b (Suc n) st' (tr @ [a]) \<and>
     krylov_solved env dense_inverse nrm tol n st' (tr @ [a])"
proof -
  define sz where "sz = state_size env"
  have l: "length tr = n" using s by (rule krylov_state_length)
  from s have ap: "applications env p b n tr"
    and sh: "\<And>a. a \<in> set tr \<Longrightarrow> length (app_vec a) = sz \<and> length (app_img a) = sz"
    and vn: "Vn st = map app_vec tr" and rk: "rk st = app_img (tr ! (n - 1))"
    and la: "length (alpha st) = 11" and lb: "length (beta st) = 11"
    and al: "\<And>m. 1 \<le> m \<Longrightarrow> m \<le> n \<Longrightarrow> alpha st ! m = alpha_coef tr m"
    and be: "\<And>m. 1 \<le> m \<Longrightarrow> m < n \<Longrightarrow> beta st ! m = beta_coef tr m"
    by (simp_all add: krylov_state_def sz_def)
  have ix: "nat (int n + 1 - 1) = n" "nat (int n + 1 - 2) = n - 1" "nat (int n + 1 - 3) = n - 2"
    "nat (int n + 1) = Suc n" "(int n + 1 > 2) = (2 < Suc n)"
    using n by auto
  have v1: "Vn st ! (n - 1) = app_vec (tr ! (n - 1))"
    using n l by (simp add: vn)
  have v2: "Vn st ! (n - 2) = app_vec (tr ! (n - 2))"
    using n l by (simp add: vn)
  have b2: "beta st ! (n - 1) = beta_coef tr (n - 1)" if "2 < Suc n"
    using that by (intro be) simp_all
  define r2 where "r2 = residual tr (Suc n)"
  have r2: "(let r = vsub_scaled (rk st) (alpha st ! n) (Vn st ! (n - 1))
      in if 2 < Suc n then vsub_scaled r (beta st ! (n - 1)) (Vn st ! (n - 2)) else r) = r2"
    unfolding r2_def residual_def rk v1 v2 al [OF n(1) order_refl]
    using b2 by (simp add: Let_def numeral_2_eq_2 numeral_3_eq_3)
  have m1: "tr ! (n - 1) \<in> set tr" using n l by simp
  have m2: "tr ! (n - 2) \<in> set tr" using n l by simp
  have lr2: "length r2 = sz"
    unfolding r2 [symmetric] rk v1 v2 Let_def
    using sh [OF m1] sh [OF m2] n by (auto simp: length_vsub_scaled)
  from step_ok_any [OF ok, of "normalized r2" r2] lr2
  obtain r' where r': "compute_step env p (normalized r2) r2 = Some r'"
    and lr': "length r' = sz"
    by (auto simp: length_normalized sz_def)
  define a where "a = \<lparr>app_vec = normalized r2, app_buf = r2, app_img = r'\<rparr>"
  define st' where "st' = st\<lparr>Vn := Vn st @ [normalized r2], rk := r',
      alpha := (alpha st)[Suc n := vdot (normalized r2) r'],
      beta := (beta st)[n := vnorm r2]\<rparr>"
  have e: "lanczos_extend env p (int n + 1) st = Some st'"
  proof -
    have "lanczos_extend env p (int n + 1) st =
        (let r = (let r = vsub_scaled (rk st) (alpha st ! n) (Vn st ! (n - 1))
           in if 2 < Suc n then vsub_scaled r (beta st ! (n - 1)) (Vn st ! (n - 2)) else r)
         in compute_step env p (normalized r) r \<bind>
           (\<lambda>x. Some (st\<lparr>Vn := Vn st @ [normalized r], rk := x,
              alpha := (alpha st)[Suc n := vdot (normalized r) x],
              beta := (beta st)[n := vnorm r]\<rparr>)))"
      unfolding lanczos_extend_def ix by (simp add: Let_def)
    then show ?thesis
      unfolding r2 using r' by (simp add: st'_def)
  qed
  have ap': "applications env p b (Suc n) (tr @ [a])"
    using ap n(1) by (rule applications_append) (simp_all add: a_def r2_def [symmetric] r')
  have na: "(tr @ [a]) ! n = a"
    unfolding l [symmetric] by simp
  have al': "alpha st' ! m = alpha_coef (tr @ [a]) m" if "1 \<le> m" "m \<le> Suc n" for m
  proof (cases "m = Suc n")
    case True
    have "alpha_coef (tr @ [a]) (Suc n) = vdot (normalized r2) r'"
      by (simp add: alpha_coef_def na) (simp add: a_def)
    then show ?thesis
      using True la n by (simp add: st'_def)
  next
    case False
    with that have "m \<le> n" by simp
    then show ?thesis
      using that(1) False l al [of m] by (simp add: st'_def alpha_coef_append)
  qed
  have be': "beta st' ! m = beta_coef (tr @ [a]) m" if "1 \<le> m" "m < Suc n" for m
  proof (cases "m = n")
    case True
    have "beta_coef (tr @ [a]) n = vnorm r2"
      by (simp add: beta_coef_def na) (simp add: a_def)
    then show ?thesis
      using True lb n by (simp add: st'_def)
  next
    case False
    with that have "m < n" by simp
    then show ?thesis
      using that(1) False l be [of m] by (simp add: st'_def beta_coef_append)
  qed
  have s': "krylov_state env p b (Suc n) st' (tr @ [a])"
    unfolding krylov_state_def
    using ap' sh lr2 lr' la lb l al' be'
    by (auto simp: st'_def a_def vn sz_def length_normalized)
  have f: "filter (reports dense_inverse nrm (state_size env) tol (tr @ [a])) [3..<Suc n]
      = filter (reports dense_inverse nrm (state_size env) tol tr) [3..<Suc n]"
    using l by (intro filter_cong refl reports_append) auto
  have v': "krylov_solved env dense_inverse nrm tol n st' (tr @ [a])"
    using v l unfolding krylov_solved_def f
    by (simp add: st'_def krylov_iterate_append)
  from e s' v' show ?thesis by blast
qed

lemma lanczos_solve_state:
  assumes s: "krylov_state env p b (Suc n) st tr"
    and v: "krylov_solved env dense_inverse nrm tol n st tr"
    and n: "1 \<le> n"
  shows "case lanczos_solve env dense_inverse nrm tol (int n + 1) st of
      None \<Rightarrow> dense_inverse (tridiagonal tr (Suc n)) = None
    | Some st' \<Rightarrow> krylov_state env p b (Suc n) st' tr \<and>
        krylov_solved env dense_inverse nrm tol (Suc n) st' tr"
proof -
  define sz where "sz = state_size env"
  have k: "int n + 1 = int (Suc n)" by simp
  have x: "krylov_solution env dense_inverse nrm (int n + 1) st
      = krylov_iterate dense_inverse nrm sz tr (Suc n)"
    unfolding k sz_def using s by (rule krylov_solution_iterate)
  have k2: "int n + 1 \<ge> 2" "(int n + 1 = 2) = (n = 1)" using n by auto
  show ?thesis
  proof (cases "krylov_iterate dense_inverse nrm sz tr (Suc n)")
    case None
    then have "dense_inverse (tridiagonal tr (Suc n)) = None"
      by (simp add: krylov_iterate_def)
    moreover have "lanczos_solve env dense_inverse nrm tol (int n + 1) st = None"
      unfolding lanczos_solve_def x using None k2 by simp
    ultimately show ?thesis by simp
  next
    case (Some xk)
    show ?thesis
    proof (cases "n = 1")
      case True
      have r: "lanczos_solve env dense_inverse nrm tol (int n + 1) st = Some (st\<lparr>xk_save := xk\<rparr>)"
        unfolding lanczos_solve_def x using Some k2 True by simp
      have "krylov_state env p b (Suc n) (st\<lparr>xk_save := xk\<rparr>) tr"
        using s by (rule krylov_state_cong) simp_all
      moreover have "krylov_solved env dense_inverse nrm tol (Suc n) (st\<lparr>xk_save := xk\<rparr>) tr"
        using v Some True by (simp add: krylov_solved_def sz_def)
      ultimately show ?thesis unfolding r by simp
    next
      case False
      with n have n2: "2 \<le> n" by simp
      from v n2 have xs: "krylov_iterate dense_inverse nrm sz tr n = Some (xk_save st)"
        and pr: "printed st = map int (filter (reports dense_inverse nrm sz tol tr) [3..<Suc n])"
        by (simp_all add: krylov_solved_def sz_def)
      define c where "c = (vnorm (map2 (\<lambda>y z. y - z) (xk_save st) xk) < tol)"
      have rp: "reports dense_inverse nrm sz tol tr (Suc n) = c"
        by (simp add: reports_def xs Some c_def)
      define st' where "st' = (if c then st\<lparr>xk_save := xk, printed := printed st @ [int n + 1]\<rparr>
          else st\<lparr>xk_save := xk\<rparr>)"
      have r: "lanczos_solve env dense_inverse nrm tol (int n + 1) st = Some st'"
        unfolding lanczos_solve_def x using Some k2 False
        by (simp add: Let_def st'_def c_def)
      have u: "[3..<Suc (Suc n)] = [3..<Suc n] @ [Suc n]"
        using n2 by simp
      have s': "krylov_state env p b (Suc n) st' tr"
        using s by (rule krylov_state_cong) (simp_all add: st'_def)
      have v': "krylov_solved env dense_inverse nrm tol (Suc n) st' tr"
        unfolding krylov_solved_def sz_def [symmetric] u
        using Some pr rp by (simp add: st'_def)
      from s' v' show ?thesis unfolding r by simp
    qed
  qed
qed

lemma lanczos_iter_state:
  assumes ok: "compute_step env p (zeros (state_size env)) (zeros (state_size env)) = Some z"
    and s: "krylov_state env p b n st tr"
    and v: "krylov_solved env dense_inverse nrm tol n st tr"
    and n: "1 \<le> n" "n \<le> 9"
  shows "case lanczos_iter env p dense_inverse nrm tol (int n + 1) st of
      None \<Rightarrow> \<exists>tr'. applications env p b (Suc n) tr' \<and>
        dense_inverse (tridiagonal tr' (Suc n)) = None
    | Some st' \<Rightarrow> \<exists>tr'. krylov_state env p b (Suc n) st' tr' \<and>
        krylov_solved env dense_inverse nrm tol (Suc n) st' tr'"
proof -
  from lanczos_extend_state [OF ok s v n]
  obtain s1 a where e: "lanczos_extend env p (int n + 1) st = Some s1"
    and s1: "krylov_state env p b (Suc n) s1 (tr @ [a])"
    and v1: "krylov_solved env dense_inverse nrm tol n s1 (tr @ [a])"
    by blast
  have i: "lanczos_iter env p dense_inverse nrm tol (int n + 1) st
      = lanczos_solve env dense_inverse nrm tol (int n + 1) s1"
    by (simp add: lanczos_iter_def e)
  have ap: "applications env p b (Suc n) (tr @ [a])"
    using s1 by (simp add: krylov_state_def)
  from lanczos_solve_state [OF s1 v1 n(1)] ap show ?thesis
    unfolding i by (auto split: option.splits)
qed

subsection \<open>The main loop, against the list of applications\<close>

lemma lanczos_run_state:
  assumes ok: "compute_step env p (zeros (state_size env)) (zeros (state_size env)) = Some z"
    and li: "state_size env \<le> length input"
  shows "case lanczos_run env p dense_inverse tol input of
      None \<Rightarrow> \<exists>k\<in>{2..10}. \<exists>tr. applications env p (right_hand_side env input) k tr \<and>
        dense_inverse (tridiagonal tr k) = None
    | Some (nrm, st) \<Rightarrow> nrm = vnorm (right_hand_side env input) \<and>
        (\<exists>tr. krylov_state env p (right_hand_side env input) 10 st tr \<and>
           krylov_solved env dense_inverse nrm tol 10 st tr)"
proof -
  define b where "b = right_hand_side env input"
  define nrm where "nrm = vnorm b"
  define I where "I = (\<lambda>k st. \<exists>tr. krylov_state env p b (nat (k - 1)) st tr \<and>
      krylov_solved env dense_inverse nrm tol (nat (k - 1)) st tr)"
  from lanczos_init_state [OF ok li, of dense_inverse tol]
  obtain s0 where i: "lanczos_init env p input = Some (nrm, s0)" and i0: "I 2 s0"
    unfolding I_def nrm_def b_def by auto
  have step: "case lanczos_iter env p dense_inverse nrm tol k t of
      None \<Rightarrow> \<exists>tr'. applications env p b (nat k) tr' \<and> dense_inverse (tridiagonal tr' (nat k)) = None
    | Some t' \<Rightarrow> I (k + 1) t'"
    if "2 \<le> k" "k \<le> mLanczos" "I k t" for k t
  proof -
    from that(3) obtain tr where s: "krylov_state env p b (nat (k - 1)) t tr"
      and v: "krylov_solved env dense_inverse nrm tol (nat (k - 1)) t tr"
      unfolding I_def by blast
    have n: "1 \<le> nat (k - 1)" "nat (k - 1) \<le> 9"
      using that(1,2) by (simp_all add: mLanczos_def)
    have k: "int (nat (k - 1)) + 1 = k" "Suc (nat (k - 1)) = nat k" "nat (k + 1 - 1) = nat k"
      using that(1) by simp_all
    from lanczos_iter_state [OF ok s v n] show ?thesis
      unfolding k I_def by simp
  qed
  show ?thesis
  proof (cases "forM [2..mLanczos] (lanczos_iter env p dense_inverse nrm tol) s0")
    case None
    have "\<exists>k t. 2 \<le> k \<and> k \<le> mLanczos \<and> I k t \<and>
        lanczos_iter env p dense_inverse nrm tol k t = None"
    proof (rule forM_upto_None [where I = I, OF None i0])
      fix k t t'
      assume "2 \<le> k" "k \<le> mLanczos" "I k t"
        and "lanczos_iter env p dense_inverse nrm tol k t = Some t'"
      with step [of k t] show "I (k + 1) t'" by simp
    qed
    then obtain k t where k: "2 \<le> k" "k \<le> mLanczos" "I k t"
      and f: "lanczos_iter env p dense_inverse nrm tol k t = None" by blast
    from step [OF k] f obtain tr' where "applications env p b (nat k) tr'"
      "dense_inverse (tridiagonal tr' (nat k)) = None" by auto
    moreover have "nat k \<in> {2..10}" using k(1,2) unfolding mLanczos_def by (simp; arith)
    ultimately have "\<exists>k\<in>{2..10}. \<exists>tr. applications env p b k tr \<and>
        dense_inverse (tridiagonal tr k) = None" by blast
    with None i show ?thesis
      by (simp add: lanczos_run_def b_def)
  next
    case (Some st)
    have "I (mLanczos + 1) st"
    proof (rule forM_upto_Some [where I = I, OF Some i0])
      fix k t t'
      assume "2 \<le> k" "k \<le> mLanczos" "I k t"
        and "lanczos_iter env p dense_inverse nrm tol k t = Some t'"
      with step [of k t] show "I (k + 1) t'" by simp
    next
      show "2 \<le> mLanczos + 1" by (simp add: mLanczos_def)
    qed
    then have "\<exists>tr. krylov_state env p b 10 st tr \<and>
        krylov_solved env dense_inverse nrm tol 10 st tr"
      by (simp add: I_def mLanczos_def)
    with Some i show ?thesis
      by (simp add: lanczos_run_def b_def nrm_def)
  qed
qed

subsection \<open>The result of the solver\<close>

lemma length_krylov_iterate:
  assumes "krylov_iterate dense_inverse nrm sz tr k = Some x"
  shows "length x = sz"
  using assms by (auto simp: krylov_iterate_def combination_def)

lemma test_rows:
  assumes "sz \<le> length a" "length b = sz" "length c = sz"
  shows "those (map (\<lambda>i. rd a i \<bind> (\<lambda>x. rd b i \<bind> (\<lambda>y. rd c i \<bind> (\<lambda>w. Some (x, y, w)))))
       [0..int sz - 1])
     = Some (map (\<lambda>i. (a ! i, b ! i, c ! i)) [0..<sz])"
proof -
  have "map (\<lambda>i. rd a i \<bind> (\<lambda>x. rd b i \<bind> (\<lambda>y. rd c i \<bind> (\<lambda>w. Some (x, y, w)))))
       (map int [0..<sz])
     = map Some (map (\<lambda>i. (a ! i, b ! i, c ! i)) [0..<sz])"
    using assms by (simp add: rd_def)
  then show ?thesis
    by (simp only: upto_map_int those_map_Some_eq)
qed

lemma lanczos_run_None:
  assumes ok: "compute_step env p (zeros (state_size env)) (zeros (state_size env)) = Some z"
    and li: "state_size env \<le> length input"
    and r: "lanczos_run env p dense_inverse tol input = None"
  shows "\<exists>k\<in>{2..10}. \<exists>tr. applications env p (right_hand_side env input) k tr \<and>
     dense_inverse (tridiagonal tr k) = None"
  using lanczos_run_state [OF ok li, of dense_inverse tol] unfolding r by simp

lemma lanczos_run_Some:
  assumes ok: "compute_step env p (zeros (state_size env)) (zeros (state_size env)) = Some z"
    and li: "state_size env \<le> length input"
    and r: "lanczos_run env p dense_inverse tol input = Some (nrm, st)"
  shows "nrm = vnorm (right_hand_side env input)"
    and "\<exists>tr. krylov_state env p (right_hand_side env input) 10 st tr \<and>
       krylov_solved env dense_inverse nrm tol 10 st tr"
  using lanczos_run_state [OF ok li, of dense_inverse tol] unfolding r option.case prod.case
  by blast+

subsection \<open>The solver on the example configurations, with the exact inverse\<close>

lemmas inv_eval = exact_inverse_def gauss_jordan.simps eliminate_def identity_def mat_mul_def
  extract_Nil_code extract_Cons_code Let_def upt_rec eval_nat_numeral

lemma sqrt_squares: "sqrt 16 = 4" "sqrt 36 = 6" "sqrt 64 = 8" "sqrt 100 = 10"
  using real_sqrt_abs [of 4] real_sqrt_abs [of 6] real_sqrt_abs [of 8] real_sqrt_abs [of 10]
  by simp_all

lemma sqrt_less_tol: "(sqrt q < tolLanczos) = (q < 1 / 10000000000)"
proof -
  have "sqrt ((1 / 100000) ^ 2) = 1 / 100000"
    using real_sqrt_abs [of "1 / 100000"] by simp
  moreover have "(1 / 100000 :: real) ^ 2 = 1 / 10000000000"
    by (simp add: power2_eq_square)
  ultimately have s: "1 / 100000 = sqrt (1 / 10000000000)"
    by simp
  show ?thesis
    unfolding tolLanczos_def s by (rule real_sqrt_less_iff)
qed

lemmas run_eval = lanczos_iter_def lanczos_extend_def lanczos_solve_def krylov_solution_def
  hessenberg_def mat_vec_def vec_eval step_eval inv_eval ex_ghost4_def ex_ghost_def ex_env_def
  ex_pair_def sqrt_squares sqrt_less_tol

lemma ex_ghost4_init:
  "lanczos_init ex_ghost4 ex_pair [0, 0, 0, 1, 0, 0]
     = Some (1, \<lparr>Vn = [[0, 0, 0, 1, 0, 0]],
       rk = [- 2, 0, 0, 1, 0, 0],
       alpha = [0, 1, 0, 0, 0, 0, 0, 0, 0, 0, 0],
       beta = [0, 0, 0, 0, 0, 0, 0, 0, 0, 0, 0],
       xk_save = [], printed = []\<rparr>)"
  by (simp add: lanczos_init_def run_eval)

lemma ex_ghost4_iter_2:
  "lanczos_iter ex_ghost4 ex_pair exact_inverse 1 tolLanczos 2
     \<lparr>Vn = [[0, 0, 0, 1, 0, 0]],
       rk = [- 2, 0, 0, 1, 0, 0],
       alpha = [0, 1, 0, 0, 0, 0, 0, 0, 0, 0, 0],
       beta = [0, 0, 0, 0, 0, 0, 0, 0, 0, 0, 0],
       xk_save = [], printed = []\<rparr>
   = Some \<lparr>Vn = [[0, 0, 0, 1, 0, 0], [- 1, 0, 0, 0, 0, 0]],
       rk = [- 5, 0, 0, 0, 0, 0],
       alpha = [0, 1, 5, 0, 0, 0, 0, 0, 0, 0, 0],
       beta = [0, 2, 0, 0, 0, 0, 0, 0, 0, 0, 0],
       xk_save = [2, 0, 0, 5, 0, 0], printed = []\<rparr>"
  by (simp add: run_eval)

lemma ex_ghost4_iter_3:
  "lanczos_iter ex_ghost4 ex_pair exact_inverse 1 tolLanczos 3
     \<lparr>Vn = [[0, 0, 0, 1, 0, 0], [- 1, 0, 0, 0, 0, 0]],
       rk = [- 5, 0, 0, 0, 0, 0],
       alpha = [0, 1, 5, 0, 0, 0, 0, 0, 0, 0, 0],
       beta = [0, 2, 0, 0, 0, 0, 0, 0, 0, 0, 0],
       xk_save = [2, 0, 0, 5, 0, 0], printed = []\<rparr>
   = Some \<lparr>Vn = [[0, 0, 0, 1, 0, 0], [- 1, 0, 0, 0, 0, 0], [0, 0, 0, - 1, 0, 0]],
       rk = [2, 0, 0, - 3, 0, 0],
       alpha = [0, 1, 5, 3, 0, 0, 0, 0, 0, 0, 0],
       beta = [0, 2, 2, 0, 0, 0, 0, 0, 0, 0, 0],
       xk_save = [- 6, 0, 0, - 7, 0, 0], printed = []\<rparr>"
  by (simp add: run_eval)

lemma ex_ghost4_iter_4:
  "lanczos_iter ex_ghost4 ex_pair exact_inverse 1 tolLanczos 4
     \<lparr>Vn = [[0, 0, 0, 1, 0, 0], [- 1, 0, 0, 0, 0, 0], [0, 0, 0, - 1, 0, 0]],
       rk = [2, 0, 0, - 3, 0, 0],
       alpha = [0, 1, 5, 3, 0, 0, 0, 0, 0, 0, 0],
       beta = [0, 2, 2, 0, 0, 0, 0, 0, 0, 0, 0],
       xk_save = [- 6, 0, 0, - 7, 0, 0], printed = []\<rparr>
   = Some \<lparr>Vn = [[0, 0, 0, 1, 0, 0], [- 1, 0, 0, 0, 0, 0], [0, 0, 0, - 1, 0, 0],
          [1, 0, 0, 0, 0, 0]],
       rk = [7, 0, 0, 0, 0, 0],
       alpha = [0, 1, 5, 3, 7, 0, 0, 0, 0, 0, 0],
       beta = [0, 2, 2, 4, 0, 0, 0, 0, 0, 0, 0],
       xk_save = [6 / 23, 0, 0, 31 / 23, 0, 0], printed = []\<rparr>"
  by (simp add: run_eval)

lemma ex_ghost4_iter_5:
  "lanczos_iter ex_ghost4 ex_pair exact_inverse 1 tolLanczos 5
     \<lparr>Vn = [[0, 0, 0, 1, 0, 0], [- 1, 0, 0, 0, 0, 0], [0, 0, 0, - 1, 0, 0],
          [1, 0, 0, 0, 0, 0]],
       rk = [7, 0, 0, 0, 0, 0],
       alpha = [0, 1, 5, 3, 7, 0, 0, 0, 0, 0, 0],
       beta = [0, 2, 2, 4, 0, 0, 0, 0, 0, 0, 0],
       xk_save = [6 / 23, 0, 0, 31 / 23, 0, 0], printed = []\<rparr>
   = Some \<lparr>Vn = [[0, 0, 0, 1, 0, 0], [- 1, 0, 0, 0, 0, 0], [0, 0, 0, - 1, 0, 0],
          [1, 0, 0, 0, 0, 0], [0, 0, 0, 1, 0, 0]],
       rk = [- 2, 0, 0, 5, 0, 0],
       alpha = [0, 1, 5, 3, 7, 5, 0, 0, 0, 0, 0],
       beta = [0, 2, 2, 4, 4, 0, 0, 0, 0, 0, 0],
       xk_save = [14 / 11, 0, 0, 203 / 99, 0, 0], printed = []\<rparr>"
  by (simp add: run_eval)

lemma ex_ghost4_iter_6:
  "lanczos_iter ex_ghost4 ex_pair exact_inverse 1 tolLanczos 6
     \<lparr>Vn = [[0, 0, 0, 1, 0, 0], [- 1, 0, 0, 0, 0, 0], [0, 0, 0, - 1, 0, 0],
          [1, 0, 0, 0, 0, 0], [0, 0, 0, 1, 0, 0]],
       rk = [- 2, 0, 0, 5, 0, 0],
       alpha = [0, 1, 5, 3, 7, 5, 0, 0, 0, 0, 0],
       beta = [0, 2, 2, 4, 4, 0, 0, 0, 0, 0, 0],
       xk_save = [14 / 11, 0, 0, 203 / 99, 0, 0], printed = []\<rparr>
   = Some \<lparr>Vn = [[0, 0, 0, 1, 0, 0], [- 1, 0, 0, 0, 0, 0], [0, 0, 0, - 1, 0, 0],
          [1, 0, 0, 0, 0, 0], [0, 0, 0, 1, 0, 0], [- 1, 0, 0, 0, 0, 0]],
       rk = [- 9, 0, 0, 0, 0, 0],
       alpha = [0, 1, 5, 3, 7, 5, 9, 0, 0, 0, 0],
       beta = [0, 2, 2, 4, 4, 6, 0, 0, 0, 0, 0],
       xk_save = [178 / 21, 0, 0, 79 / 7, 0, 0], printed = []\<rparr>"
  by (simp add: run_eval)

lemma ex_ghost4_iter_7:
  "lanczos_iter ex_ghost4 ex_pair exact_inverse 1 tolLanczos 7
     \<lparr>Vn = [[0, 0, 0, 1, 0, 0], [- 1, 0, 0, 0, 0, 0], [0, 0, 0, - 1, 0, 0],
          [1, 0, 0, 0, 0, 0], [0, 0, 0, 1, 0, 0], [- 1, 0, 0, 0, 0, 0]],
       rk = [- 9, 0, 0, 0, 0, 0],
       alpha = [0, 1, 5, 3, 7, 5, 9, 0, 0, 0, 0],
       beta = [0, 2, 2, 4, 4, 6, 0, 0, 0, 0, 0],
       xk_save = [178 / 21, 0, 0, 79 / 7, 0, 0], printed = []\<rparr>
   = Some \<lparr>Vn = [[0, 0, 0, 1, 0, 0], [- 1, 0, 0, 0, 0, 0], [0, 0, 0, - 1, 0, 0],
          [1, 0, 0, 0, 0, 0], [0, 0, 0, 1, 0, 0], [- 1, 0, 0, 0, 0, 0],
          [0, 0, 0, - 1, 0, 0]],
       rk = [2, 0, 0, - 7, 0, 0],
       alpha = [0, 1, 5, 3, 7, 5, 9, 7, 0, 0, 0],
       beta = [0, 2, 2, 4, 4, 6, 6, 0, 0, 0, 0],
       xk_save = [266 / 1041, 0, 0, 3 / 347, 0, 0], printed = []\<rparr>"
  by (simp add: run_eval)

lemma ex_ghost4_iter_8:
  "lanczos_iter ex_ghost4 ex_pair exact_inverse 1 tolLanczos 8
     \<lparr>Vn = [[0, 0, 0, 1, 0, 0], [- 1, 0, 0, 0, 0, 0], [0, 0, 0, - 1, 0, 0],
          [1, 0, 0, 0, 0, 0], [0, 0, 0, 1, 0, 0], [- 1, 0, 0, 0, 0, 0],
          [0, 0, 0, - 1, 0, 0]],
       rk = [2, 0, 0, - 7, 0, 0],
       alpha = [0, 1, 5, 3, 7, 5, 9, 7, 0, 0, 0],
       beta = [0, 2, 2, 4, 4, 6, 6, 0, 0, 0, 0],
       xk_save = [266 / 1041, 0, 0, 3 / 347, 0, 0], printed = []\<rparr>
   = Some \<lparr>Vn = [[0, 0, 0, 1, 0, 0], [- 1, 0, 0, 0, 0, 0], [0, 0, 0, - 1, 0, 0],
          [1, 0, 0, 0, 0, 0], [0, 0, 0, 1, 0, 0], [- 1, 0, 0, 0, 0, 0],
          [0, 0, 0, - 1, 0, 0], [1, 0, 0, 0, 0, 0]],
       rk = [11, 0, 0, 0, 0, 0],
       alpha = [0, 1, 5, 3, 7, 5, 9, 7, 11, 0, 0],
       beta = [0, 2, 2, 4, 4, 6, 6, 8, 0, 0, 0],
       xk_save = [8174 / 12795, 0, 0, 5089 / 4265, 0, 0], printed = []\<rparr>"
  by (simp add: run_eval)

lemma ex_ghost4_iter_9:
  "lanczos_iter ex_ghost4 ex_pair exact_inverse 1 tolLanczos 9
     \<lparr>Vn = [[0, 0, 0, 1, 0, 0], [- 1, 0, 0, 0, 0, 0], [0, 0, 0, - 1, 0, 0],
          [1, 0, 0, 0, 0, 0], [0, 0, 0, 1, 0, 0], [- 1, 0, 0, 0, 0, 0],
          [0, 0, 0, - 1, 0, 0], [1, 0, 0, 0, 0, 0]],
       rk = [11, 0, 0, 0, 0, 0],
       alpha = [0, 1, 5, 3, 7, 5, 9, 7, 11, 0, 0],
       beta = [0, 2, 2, 4, 4, 6, 6, 8, 0, 0, 0],
       xk_save = [8174 / 12795, 0, 0, 5089 / 4265, 0, 0], printed = []\<rparr>
   = Some \<lparr>Vn = [[0, 0, 0, 1, 0, 0], [- 1, 0, 0, 0, 0, 0], [0, 0, 0, - 1, 0, 0],
          [1, 0, 0, 0, 0, 0], [0, 0, 0, 1, 0, 0], [- 1, 0, 0, 0, 0, 0],
          [0, 0, 0, - 1, 0, 0], [1, 0, 0, 0, 0, 0], [0, 0, 0, 1, 0, 0]],
       rk = [- 2, 0, 0, 9, 0, 0],
       alpha = [0, 1, 5, 3, 7, 5, 9, 7, 11, 9, 0],
       beta = [0, 2, 2, 4, 4, 6, 6, 8, 8, 0, 0],
       xk_save = [56542 / 48531, 0, 0, 61993 / 16177, 0, 0], printed = []\<rparr>"
  by (simp add: run_eval)

lemma ex_ghost4_iter_10:
  "lanczos_iter ex_ghost4 ex_pair exact_inverse 1 tolLanczos 10
     \<lparr>Vn = [[0, 0, 0, 1, 0, 0], [- 1, 0, 0, 0, 0, 0], [0, 0, 0, - 1, 0, 0],
          [1, 0, 0, 0, 0, 0], [0, 0, 0, 1, 0, 0], [- 1, 0, 0, 0, 0, 0],
          [0, 0, 0, - 1, 0, 0], [1, 0, 0, 0, 0, 0], [0, 0, 0, 1, 0, 0]],
       rk = [- 2, 0, 0, 9, 0, 0],
       alpha = [0, 1, 5, 3, 7, 5, 9, 7, 11, 9, 0],
       beta = [0, 2, 2, 4, 4, 6, 6, 8, 8, 0, 0],
       xk_save = [56542 / 48531, 0, 0, 61993 / 16177, 0, 0], printed = []\<rparr>
   = Some \<lparr>Vn = [[0, 0, 0, 1, 0, 0], [- 1, 0, 0, 0, 0, 0], [0, 0, 0, - 1, 0, 0],
          [1, 0, 0, 0, 0, 0], [0, 0, 0, 1, 0, 0], [- 1, 0, 0, 0, 0, 0],
          [0, 0, 0, - 1, 0, 0], [1, 0, 0, 0, 0, 0], [0, 0, 0, 1, 0, 0],
          [- 1, 0, 0, 0, 0, 0]],
       rk = [- 13, 0, 0, 0, 0, 0],
       alpha = [0, 1, 5, 3, 7, 5, 9, 7, 11, 9, 13],
       beta = [0, 2, 2, 4, 4, 6, 6, 8, 8, 10, 0],
       xk_save = [- (409166 / 648597), 0, 0, - (297009 / 216199), 0, 0], printed = []\<rparr>"
  by (simp add: run_eval)

lemma ex_ghost4_run:
  "lanczos_run ex_ghost4 ex_pair exact_inverse tolLanczos [0, 0, 0, 1, 0, 0]
     = Some (1, \<lparr>Vn = [[0, 0, 0, 1, 0, 0], [- 1, 0, 0, 0, 0, 0], [0, 0, 0, - 1, 0, 0],
          [1, 0, 0, 0, 0, 0], [0, 0, 0, 1, 0, 0], [- 1, 0, 0, 0, 0, 0],
          [0, 0, 0, - 1, 0, 0], [1, 0, 0, 0, 0, 0], [0, 0, 0, 1, 0, 0],
          [- 1, 0, 0, 0, 0, 0]],
       rk = [- 13, 0, 0, 0, 0, 0],
       alpha = [0, 1, 5, 3, 7, 5, 9, 7, 11, 9, 13],
       beta = [0, 2, 2, 4, 4, 6, 6, 8, 8, 10, 0],
       xk_save = [- (409166 / 648597), 0, 0, - (297009 / 216199), 0, 0], printed = []\<rparr>)"
  by (simp add: lanczos_run_def mLanczos_def upto_rec1 ex_ghost4_init
      ex_ghost4_iter_2 ex_ghost4_iter_3 ex_ghost4_iter_4 ex_ghost4_iter_5 ex_ghost4_iter_6
      ex_ghost4_iter_7 ex_ghost4_iter_8 ex_ghost4_iter_9 ex_ghost4_iter_10)

lemma ex_ghost4_test:
  "compute_step ex_ghost4 ex_pair [- (409166 / 648597), 0, 0, - (297009 / 216199), 0, 0]
       [0, 0, 0, 0, 0, 0]
     = Some [184852 / 216199, 0, 0, - (297009 / 216199), 0, 0]"
  by (simp add: step_eval ex_ghost4_def ex_ghost_def ex_env_def ex_pair_def eval_nat_numeral)

lemma ex_ghost4_nlocal: "atom_nlocal ex_ghost4 = 2"
  by (simp add: ex_ghost4_def ex_ghost_def ex_env_def)

lemma ex_ghost4_result:
  "compute_inverse ex_ghost4 ex_pair exact_inverse [0, 0, 0, 0, 0, 0] [0, 0, 0, 1, 0, 0]
       [0, 0, 0, 0, 0, 0]
     = Some ([- (409166 / 648597), 0, 0, - (297009 / 216199), 0, 0], [],
         [(0, - (409166 / 648597), 184852 / 216199), (0, 0, 0), (0, 0, 0),
          (1, - (297009 / 216199), - (297009 / 216199)), (0, 0, 0), (0, 0, 0)])"
  unfolding compute_inverse_def ex_ghost4_run
  by (simp add: ex_ghost4_nlocal ex_ghost4_test rd_def wr_def upto_rec1 eval_nat_numeral)

lemma ex_env_iter_2:
  "lanczos_iter ex_env ex_pair exact_inverse 1 tolLanczos 2
     \<lparr>Vn = [[1, 0, 0, 0, 0, 0]], rk = [2, 0, 0, - 1, 0, 0],
       alpha = [0, 2, 0, 0, 0, 0, 0, 0, 0, 0, 0], beta = [0, 0, 0, 0, 0, 0, 0, 0, 0, 0, 0],
       xk_save = [], printed = []\<rparr>
   = Some \<lparr>Vn = [[1, 0, 0, 0, 0, 0], [0, 0, 0, - 1, 0, 0]], rk = [1, 0, 0, - 3, 0, 0],
       alpha = [0, 2, 3, 0, 0, 0, 0, 0, 0, 0, 0], beta = [0, 1, 0, 0, 0, 0, 0, 0, 0, 0, 0],
       xk_save = [3 / 5, 0, 0, 1 / 5, 0, 0], printed = []\<rparr>"
  by (simp add: run_eval)

lemma ex_env_iter_3:
  "lanczos_iter ex_env ex_pair exact_inverse 1 tolLanczos 3
     \<lparr>Vn = [[1, 0, 0, 0, 0, 0], [0, 0, 0, - 1, 0, 0]], rk = [1, 0, 0, - 3, 0, 0],
       alpha = [0, 2, 3, 0, 0, 0, 0, 0, 0, 0, 0], beta = [0, 1, 0, 0, 0, 0, 0, 0, 0, 0, 0],
       xk_save = [3 / 5, 0, 0, 1 / 5, 0, 0], printed = []\<rparr>
   = None"
  by (simp add: run_eval)

lemma ex_env_result:
  "compute_inverse ex_env ex_pair exact_inverse [0, 0, 0, 0, 0, 0] [1, 0, 0, 0, 0, 0]
     [0, 0, 0, 0, 0, 0] = None"
  by (simp add: compute_inverse_def lanczos_run_def mLanczos_def upto_rec1 ex_init ex_env_iter_2
      ex_env_iter_3)

lemma exact_inverse_sound:
  assumes "exact_inverse H = Some M"
  shows "mat_mul H M = identity (length H)" and "mat_mul M H = identity (length H)"
  using assms
  by (auto simp: exact_inverse_def Let_def split: if_splits option.splits)

lemma ex_state_size: "state_size ex_ghost4 = 6" "state_size ex_env = 6"
  by (simp_all add: state_size_def ex_ghost4_def ex_ghost_def ex_env_def)

lemma ex_step_zeros:
  "compute_step ex_ghost4 ex_pair (zeros 6) (zeros 6) = Some (zeros 6)"
  "compute_step ex_env ex_pair (zeros 6) (zeros 6) = Some (zeros 6)"
  by (simp_all add: step_eval ex_ghost4_def ex_ghost_def ex_env_def ex_pair_def eval_nat_numeral)

section \<open>The claims\<close>

subsection \<open>The noise coefficient\<close>

text \<open>
  Claim C9. For a type pair \<open>(i, j)\<close> whose coefficients are set, \<^verbatim>\<open>init_one\<close>
  succeeds, stores \<open>sigma[i][j] = sqrt (2 * boltz * temperature * gamma[i][j])\<close> and copies
  it to \<open>sigma[j][i]\<close>, so that both entries are equal. (The tables are allocated for
  \<open>n\<close> types, the indices are inside them, and the radicand is not negative: the square
  root is a real number.)
\<close>

theorem init_one_sigma:
  assumes "allocated p n" "0 \<le> i" "i \<le> n" "0 \<le> j" "j \<le> n"
    and "rd2 (setflag p) i j = Some flag" "flag \<noteq> 0"
    and "0 \<le> 2 * force_boltz env * temperature p * (gamma p ! nat i ! nat j)"
  shows "\<exists>c p'. init_one env p i j = Inr (c, p') \<and>
     rd2 (sigma p') i j = Some (sqrt (2 * force_boltz env * temperature p * (gamma p ! nat i ! nat j))) \<and>
     rd2 (sigma p') j i = rd2 (sigma p') i j"
proof -
  define s where "s = sqrt (2 * force_boltz env * temperature p * (gamma p ! nat i ! nat j))"
  define sigma1 where "sigma1 = (sigma p)[nat i := (sigma p ! nat i)[nat j := s]]"
  define sigma2 where "sigma2 = sigma1[nat j := (sigma1 ! nat j)[nat i := s]]"
  have d: "dims (sigma p) n"
    using assms(1) by (simp add: allocated_def)
  have d1: "dims sigma1 n"
    unfolding sigma1_def by (rule dims_update [OF d assms(2,3)])
  have d2: "dims sigma2 n"
    unfolding sigma2_def by (rule dims_update [OF d1 assms(4,5)])
  have l1: "nat i < length sigma1" "nat j < length sigma1"
    "nat j < length (sigma1 ! nat i)" "nat i < length (sigma1 ! nat j)"
    using d1 assms(2-5) dims_row [OF d1 assms(2,3)] dims_row [OF d1 assms(4,5)]
    by (auto simp: dims_def)
  have lp: "nat i < length (sigma p)" "nat j < length (sigma p ! nat i)"
    using d assms(2-5) dims_row [OF d assms(2,3)] by (auto simp: dims_def)
  have s1: "sigma1 ! nat i ! nat j = s"
    unfolding sigma1_def by (rule nth2_update [OF lp])
  have ji: "sigma2 ! nat j ! nat i = s"
    unfolding sigma2_def by (rule nth2_update [OF l1(2,4)])
  have ij: "sigma2 ! nat i ! nat j = s"
    unfolding sigma2_def using l1 s1 by (cases "nat i = nat j") (simp_all add: nth_list_update)
  have "init_one env p i j = orfail (init_one_tables env p i j)"
    using assms(6,7) by (simp add: init_one_def)
  also have "\<dots> = Inr (cut p ! nat i ! nat j,
     p\<lparr>cut := (cut p)[nat j := (cut p ! nat j)[nat i := cut p ! nat i ! nat j]],
       a0 := (a0 p)[nat j := (a0 p ! nat j)[nat i := a0 p ! nat i ! nat j]],
       gamma := (gamma p)[nat j := (gamma p ! nat j)[nat i := gamma p ! nat i ! nat j]],
       sigma := sigma2\<rparr>)"
    unfolding sigma2_def sigma1_def s_def
    by (simp add: init_one_tables_Some [OF assms(1-5,8)] orfail_def)
  finally show ?thesis
    using dims_rd2 [OF d2 assms(2-5)] dims_rd2 [OF d2 assms(4,5,2,3)] ij ji
    by (simp add: s_def)
qed

theorem init_one_sigma_witness:
  "\<exists>c p'. init_one ex_env ex_pair 1 1 = Inr (c, p') \<and> rd2 (sigma p') 1 1 = Some 2"
proof -
  have "sqrt (2 * (1 / 2) * 1 * 4) = sqrt (2 ^ 2)"
    by simp
  then have s: "sqrt (2 * (1 / 2) * 1 * 4) = 2"
    using real_sqrt_abs [of 2] by simp
  show ?thesis
    using init_one_sigma [of ex_pair 1 1 1 1 ex_env] s
    by (simp add: ex_pair_def ex_env_def allocated_def dims_def rd2_def rd_def)
qed

subsection \<open>Degenerate pairs\<close>

text \<open>
  Claim C7. For a neighbour entry whose atom lies at a separation below \<open>EPSILON\<close>
  from atom \<open>i\<close> (the reads that come before the test succeed), the pair body of
  \<^verbatim>\<open>compute\<close> returns its state unchanged: nothing is added to \<open>f_step\<close>, no random
  number is drawn and nothing is tallied; the pair body of \<^verbatim>\<open>compute_step\<close> returns
  the output buffer unchanged; and \<^verbatim>\<open>single\<close> returns energy 0 and force 0. None of them
  fails, whatever the tables \<open>cut\<close>, \<open>a0\<close>, \<open>gamma\<close> and \<open>sigma\<close> hold and also at
  separation 0: the division by \<open>r\<close>, which fails in the model when \<open>r\<close> is 0, is not
  reached.
\<close>

theorem degenerate_pair_skipped:
  assumes "rd (force_special_lj env) (sbmask env jraw) = Some factor_dpd"
    and "rd (atom_x env) (neighmask env jraw) = Some xj"
    and "rd (atom_type env) (neighmask env jraw) = Some jtype"
    and "rd (atom_tag env) (neighmask env jraw) = Some tagj"
    and "rd2 (cutsq p) itype jtype = Some csq"
    and "sqrt (sep2 xi xj) < EPSILON"
  shows "compute_pair env p gaussian eflag evflag dtinvsqrt i xi itype itag jraw st = Some st \<and>
     step_pair env p input pre xi vi itype itag jraw output = Some output \<and>
     single p i (neighmask env jraw) itype jtype (sep2 xi xj) factor_coul factor_dpd = Some (0, 0)"
proof -
  have c: "compute_pair env p gaussian eflag evflag dtinvsqrt i xi itype itag jraw st = Some st"
    unfolding compute_pair_def using assms
    by (simp add: Let_def sep2_def [symmetric] fsqrt_sep2)
  have s: "step_pair env p input pre xi vi itype itag jraw output = Some output"
    unfolding step_pair_def using assms
    by (simp add: Let_def sep2_def [symmetric] fsqrt_sep2)
  have g: "single p i (neighmask env jraw) itype jtype (sep2 xi xj) factor_coul factor_dpd
      = Some (0, 0)"
    unfolding single_def using assms(6) by (simp add: fsqrt_sep2)
  from c s g show ?thesis by simp
qed

theorem degenerate_pair_skipped_witness:
  "compute_pair ex_degenerate ex_pair (\<lambda>n. 1) 1 1 (Some 1) 0 (0, 0, 0) 1 0 1
       \<lparr>f_step = [0, 0, 0, 0, 0, 0], ndraw = 0, tally = []\<rparr>
     = Some \<lparr>f_step = [0, 0, 0, 0, 0, 0], ndraw = 0, tally = []\<rparr> \<and>
   step_pair ex_degenerate ex_pair [1, 0, 0, 0, 0, 0] (- 1) (0, 0, 0) (1, 0, 0) 1 0 1
       [1, 0, 0, 0, 0, 0] = Some [1, 0, 0, 0, 0, 0] \<and>
   single ex_pair 0 1 1 1 0 1 1 = Some (0, 0)"
  using degenerate_pair_skipped [of ex_degenerate 1 1 "(0, 0, 0)" 1 2 ex_pair 1 4 "(0, 0, 0)"
      "\<lambda>n. 1" 1 1 "Some 1" 0 0 "\<lparr>f_step = [0, 0, 0, 0, 0, 0], ndraw = 0, tally = []\<rparr>"
      "[1, 0, 0, 0, 0, 0]" "- 1" "(1, 0, 0)" "[1, 0, 0, 0, 0, 0]" 1]
  by (simp add: ex_degenerate_def ex_env_def ex_pair_def rd_def rd2_def sep2_def c0_def c1_def
      c2_def EPSILON_def)

subsection \<open>Newton's third law in full mode\<close>

text \<open>
  Claim C6, as stated, fails: with \<^verbatim>\<open>newton_pair\<close> off and a neighbour that is a ghost,
  the source adds the pair force to the entries of atom \<open>i\<close> and leaves the entries of
  atom \<open>j\<close> as they are. In \<open>ex_ghost\<close> the first atom (entries 0 to 2) receives
  \<open>(- 1/2, 0, 0)\<close> from its neighbour, whose entries 3 to 5 stay 0.
\<close>

theorem newton_third_law_counterexample:
  "compute_atom ex_ghost ex_pair (\<lambda>n. 0) 0 0 (Some (1 / sqrt 2)) 0
       \<lparr>f_step = [0, 0, 0, 0, 0, 0], ndraw = 0, tally = []\<rparr>
     = Some \<lparr>f_step = [- (1 / 2), 0, 0, 0, 0, 0], ndraw = 1, tally = []\<rparr> \<and>
   val_at [- (1 / 2), 0, 0, 0, 0, 0] 0 - val_at [0, 0, 0, 0, 0, 0] 0
     \<noteq> - (val_at [- (1 / 2), 0, 0, 0, 0, 0] 3 - val_at [0, 0, 0, 0, 0, 0] 3)"
  by (simp add: ex_ghost_def ex_env_def ex_pair_def compute_atom_def compute_pair_def
      compute_pair_force_def rd_def rd2_def wr_def add_at_def sub_at_def fdiv_def fsqrt_def
      EPSILON_def c0_def c1_def c2_def upto_rec1 Let_def val_at_def)

text \<open>
  Claim C6, amended. Let the pair body of \<^verbatim>\<open>compute\<close> succeed on a neighbour entry of
  atom \<open>i\<close> whose atom \<open>j\<close> has the tag \<open>tagj\<close>. When \<^verbatim>\<open>newton_pair\<close> is set or
  \<open>j\<close> is an owned atom, what the body adds to each of the three entries of \<open>i\<close> in
  \<open>f_step\<close> is the exact negation of what it adds to the matching entry of \<open>j\<close>.
  Otherwise (\<^verbatim>\<open>newton_pair\<close> off and \<open>j\<close> a ghost) the entries of \<open>j\<close> are not
  changed (when \<open>j\<close> is not an image of \<open>i\<close> itself).
\<close>

theorem newton_third_law:
  assumes "compute_pair env p gaussian eflag evflag dtinvsqrt i xi itype itag jraw st = Some st'"
    and "rd (atom_tag env) (neighmask env jraw) = Some tagj"
    and "c \<in> {0, 1, 2}"
  shows "if newton_or_owned env (neighmask env jraw)
     then val_at (f_step st') (3 * itag + c) - val_at (f_step st) (3 * itag + c)
        = - (val_at (f_step st') (3 * (tagj - 1) + c) - val_at (f_step st) (3 * (tagj - 1) + c))
     else (tagj - 1 \<noteq> itag \<longrightarrow>
        val_at (f_step st') (3 * (tagj - 1) + c) = val_at (f_step st) (3 * (tagj - 1) + c))"
  using assms(1)
proof (cases rule: compute_pair_cases)
  case skip
  then show ?thesis by simp
next
  case (force factor_dpd xj jtype tagj')
  from force(4) assms(2) have tj: "tagj' = tagj" by simp
  define jtag where "jtag = tagj - 1"
  from compute_pair_force_scatter [OF force(6)] tj obtain d where
    s: "scatter (newton_or_owned env (neighmask env jraw)) itag jtag d (f_step st)
         = Some (f_step st')"
    unfolding jtag_def by blast
  note v = val_at_scatter [OF s]
  note b = scatter_nth(3,4,5) [OF s]
  show ?thesis
  proof (cases "newton_or_owned env (neighmask env jraw)")
    case True
    with b have jb: "0 \<le> jtag" "3 * jtag + 2 < int (length (f_step st))" by simp_all
    have ib: "0 \<le> 3 * itag + c \<and> 3 * itag + c < int (length (f_step st))"
      using b(1,2) assms(3) by auto
    have jb': "0 \<le> 3 * jtag + c \<and> 3 * jtag + c < int (length (f_step st))"
      using jb assms(3) by auto
    show ?thesis
      using True ib jb' b(1) jb(1) assms(3)
      by (simp add: v hit3_at jtag_def [symmetric])
  next
    case False
    show ?thesis
      using False b(1) assms(3)
      by (auto simp: v jtag_def [symmetric] hit3_at hit3_def hit_def)
  qed
qed

lemma ex_env_pair: 
  "compute_pair ex_env ex_pair (\<lambda>n. 0) 0 0 (Some 1) 0 (0, 0, 0) 1 0 1
       \<lparr>f_step = [0, 0, 0, 0, 0, 0], ndraw = 0, tally = []\<rparr>
     = Some \<lparr>f_step = [- (1 / 2), 0, 0, 1 / 2, 0, 0], ndraw = 1, tally = []\<rparr>"
  by (simp add: ex_env_def ex_pair_def compute_pair_def compute_pair_force_def rd_def rd2_def
      wr_def add_at_def sub_at_def fdiv_def fsqrt_def EPSILON_def c0_def c1_def c2_def Let_def)

theorem newton_third_law_witness:
  "newton_or_owned ex_env (neighmask ex_env 1) \<and>
   val_at [- (1 / 2), 0, 0, 1 / 2, 0, 0] 0 - val_at [0, 0, 0, 0, 0, 0] 0
     = - (val_at [- (1 / 2), 0, 0, 1 / 2, 0, 0] 3 - val_at [0, 0, 0, 0, 0, 0] 3)"
proof -
  have t: "rd (atom_tag ex_env) (neighmask ex_env 1) = Some 2"
    by (simp add: ex_env_def rd_def)
  have n: "newton_or_owned ex_env (neighmask ex_env 1)"
    by (simp add: ex_env_def newton_or_owned_def)
  show ?thesis
    using newton_third_law [OF ex_env_pair t, of 0] n by simp
qed

subsection \<open>The right-hand side of full mode\<close>

text \<open>
  Claim C2 describes what the source is meant to do and the source does something else:
  lines 174 to 176 add \<^verbatim>\<open>update->dt*v[i][0]\<close> to all three entries of atom \<open>i\<close>. In
  \<open>ex_env\<close> the time step is 2, the first atom has the velocity \<open>(1, 2, 3)\<close> and
  receives the force \<open>(- 1/2, 0, 0)\<close>, the second atom is at rest and receives
  \<open>(1/2, 0, 0)\<close>. The claim gives the right-hand side \<open>[1, 4, 6, 1, 0, 0]\<close>; the source
  computes \<open>[1, 2, 2, 1, 0, 0]\<close>.
\<close>

theorem compute_rhs_carries_x_velocity:
  "compute_rhs ex_env ex_pair gaussian 0 0 0
     = Some \<lparr>f_step = [1, 2, 2, 1, 0, 0], ndraw = 1, tally = []\<rparr>"
  by (simp add: compute_rhs_def ex_env_def ex_pair_def compute_atom_def compute_pair_def
      compute_pair_force_def rhs_atom_def rd_def rd2_def wr_def add_at_def sub_at_def mul_at_def
      fdiv_def fsqrt_def EPSILON_def c0_def c1_def c2_def upto_rec1 Let_def eval_nat_numeral)

theorem compute_rhs_carries_x_velocity_witness:
  "compute_rhs ex_env ex_pair (\<lambda>n. 0) 0 0 0
     = Some \<lparr>f_step = [1, 2, 2, 1, 0, 0], ndraw = 1, tally = []\<rparr>"
  by (rule compute_rhs_carries_x_velocity)

subsection \<open>Step mode accumulates into its output buffer\<close>

text \<open>
  Claim C10. \<^verbatim>\<open>compute_step\<close> only adds to its output buffer: whenever a call succeeds,
  the call on the same input with a zeroed buffer of the same length succeeds as well,
  with a result \<open>image\<close> (the operator image of the input), and the final output is the
  initial output plus \<open>image\<close>, entry by entry. A caller that wants the image itself has
  to zero the buffer first.
\<close>

theorem compute_step_accumulates:
  assumes "compute_step env p input output = Some out'"
  shows "\<exists>image. compute_step env p input (zeros (length output)) = Some image \<and>
     out' = map2 (+) output image"
proof -
  from compute_step_ok [OF assms, of input "zeros (length output)"]
  obtain image where i: "compute_step env p input (zeros (length output)) = Some image"
    by (auto simp: zeros_def)
  have li: "length image = length output"
    using compute_step_entries(1) [OF i] by (simp add: zeros_def)
  have "out' = map2 (+) output image"
  proof (rule nth_equalityI)
    show "length out' = length (map2 (+) output image)"
      using compute_step_entries(1) [OF assms] li by simp
    fix n assume "n < length out'"
    then have n: "n < length output" using compute_step_entries(1) [OF assms] by simp
    then show "out' ! n = map2 (+) output image ! n"
      using compute_step_entries(2) [OF assms n] compute_step_entries(2) [OF i, of n] li
      by (simp add: zeros_def)
  qed
  with i show ?thesis by blast
qed

theorem compute_step_accumulates_witness:
  "\<exists>image. compute_step ex_env ex_pair [1, 0, 0, 0, 0, 0] (zeros 6) = Some image \<and>
     [7, 0, 0, - 1, 0, 0] = map2 (+) [5, 0, 0, 0, 0, 0] image"
proof -
  have l: "length [5, 0, 0, 0, 0, 0 :: real] = 6" by simp
  show ?thesis using compute_step_accumulates [OF ex_step_5] unfolding l .
qed

subsection \<open>Step mode is linear\<close>

text \<open>
  Claim C4. For a fixed configuration and a zeroed output buffer, \<^verbatim>\<open>compute_step\<close> is a
  linear function of its input vector: when it succeeds on \<open>u\<close> and on \<open>v\<close> (of the
  same length) with the results \<open>a\<close> and \<open>b\<close>, it succeeds on \<open>ca * u + cb * v\<close> with the
  result \<open>ca * a + cb * b\<close>; on the zero vector the result is the zero vector; and the
  result does not depend on the velocities \<^verbatim>\<open>atom->v\<close>. (The function takes no random
  number generator; doubles are reals, so the equality is exact.)
\<close>

theorem compute_step_linear:
  assumes su: "compute_step env p u (zeros m) = Some a"
    and sv: "compute_step env p v (zeros m) = Some b"
    and l: "length u = length v"
  shows "compute_step env p (lin ca u cb v) (zeros m) = Some (lin ca a cb b) \<and>
     compute_step env p (zeros (length u)) (zeros m) = Some (zeros m) \<and>
     compute_step (env\<lparr>atom_v := w\<rparr>) p u (zeros m) = Some a"
proof -
  have la: "length a = m" "length b = m"
    using compute_step_entries(1) [OF su] compute_step_entries(1) [OF sv]
    by (simp_all add: zeros_def)
  have lin: "\<exists>c. compute_step env p (lin ca u cb v) (zeros m) = Some (lin ca a cb b)"
    for ca cb
  proof -
    from compute_step_ok [OF su, of "lin ca u cb v" "zeros m"] l
    obtain c where c: "compute_step env p (lin ca u cb v) (zeros m) = Some c"
      by (auto simp: length_lin)
    have "c = lin ca a cb b"
      unfolding compute_step_zeros [OF c] compute_step_zeros [OF su] compute_step_zeros [OF sv]
      using la
      by (intro nth_equalityI) (simp_all add: length_lin nth_lin step_operator_lin [OF l])
    with c show ?thesis by simp
  qed
  have z: "lin 0 u 0 v = zeros (length u)" "lin 0 a 0 b = zeros m"
    using l la by (auto simp: lin_def zeros_def intro!: nth_equalityI)
  from lin [of 0 0] have "compute_step env p (zeros (length u)) (zeros m) = Some (zeros m)"
    by (simp add: z)
  with lin [of ca cb] su show ?thesis
    by (simp add: compute_step_ignores_velocities)
qed

theorem compute_step_linear_witness:
  "compute_step ex_env ex_pair (lin 2 [1, 0, 0, 0, 0, 0] 3 [0, 0, 0, 1, 0, 0]) (zeros 6)
     = Some (lin 2 [2, 0, 0, - 1, 0, 0] 3 [- 1, 0, 0, 2, 0, 0]) \<and>
   compute_step ex_env ex_pair (zeros 6) (zeros 6) = Some (zeros 6) \<and>
   compute_step (ex_env\<lparr>atom_v := []\<rparr>) ex_pair [1, 0, 0, 0, 0, 0] (zeros 6)
     = Some [2, 0, 0, - 1, 0, 0]"
proof -
  have l: "length [1, 0, 0, 0, 0, 0 :: real] = 6" by simp
  have "length [1, 0, 0, 0, 0, 0 :: real] = length [0, 0, 0, 1, 0, 0 :: real]" by simp
  from compute_step_linear [OF ex_step_e0 ex_step_e3 this, of 2 3 "[]"]
  show ?thesis unfolding l .
qed

subsection \<open>Step mode and the operator of the specification\<close>

text \<open>
  Claim C1, as stated, fails in three ways, each for the input \<open>[1, 0, 0, 0, 0, 0]\<close>.
  The scaling of the source is \<open>- gamma * w\<^sup>2\<close>, not \<open>- gamma * w\<^sup>2 / r\<close>: in \<open>ex_far\<close>,
  where the separation is \<open>3/2\<close>, the source leaves \<open>[5/4, 0, 0, - 1/4, 0, 0]\<close> in a zeroed
  buffer where the operator of the claim gives \<open>[7/6, 0, 0, - 1/6, 0, 0]\<close>. With
  \<^verbatim>\<open>newton_pair\<close> off and a neighbour that is a ghost, the source does not update the
  neighbour's entries: in \<open>ex_ghost\<close>, for a zeroed buffer, the source leaves
  \<open>[2, 0, 0, 0, 0, 0]\<close> where the operator of the claim gives \<open>[2, 0, 0, - 1, 0, 0]\<close>. And
  the source adds to the buffer it is given: in \<open>ex_env\<close>, for the buffer
  \<open>[5, 0, 0, 0, 0, 0]\<close>, it leaves \<open>[7, 0, 0, - 1, 0, 0]\<close> where the operator of the claim
  gives \<open>[2, 0, 0, - 1, 0, 0]\<close>.
\<close>

theorem compute_step_operator_counterexample:
  "compute_step ex_far ex_pair [1, 0, 0, 0, 0, 0] (zeros 6)
     = Some [5 / 4, 0, 0, - (1 / 4), 0, 0] \<and>
   map (step_operator minus_gamma_w2_over_r both_always by_tag ex_far ex_pair
          [1, 0, 0, 0, 0, 0]) [0..<6]
     = [7 / 6, 0, 0, - (1 / 6), 0, 0] \<and>
   compute_step ex_ghost ex_pair [1, 0, 0, 0, 0, 0] (zeros 6) = Some [2, 0, 0, 0, 0, 0] \<and>
   map (step_operator minus_gamma_w2_over_r both_always by_tag ex_ghost ex_pair
          [1, 0, 0, 0, 0, 0]) [0..<6]
     = [2, 0, 0, - 1, 0, 0] \<and>
   compute_step ex_env ex_pair [1, 0, 0, 0, 0, 0] [5, 0, 0, 0, 0, 0]
     = Some [7, 0, 0, - 1, 0, 0] \<and>
   map (step_operator minus_gamma_w2_over_r both_always by_tag ex_env ex_pair
          [1, 0, 0, 0, 0, 0]) [0..<6]
     = [2, 0, 0, - 1, 0, 0]"
  using ex_far_step ex_far_op ex_ghost_step ex_ghost_op ex_step_5 ex_env_op by simp

text \<open>
  Claim C1, amended. For a configuration in which every owned atom sits at its state
  index (\<^verbatim>\<open>tag[i] - 1 == i\<close>), an input vector and an output buffer of \<open>m\<close> zeros on
  which \<^verbatim>\<open>compute_step\<close> succeeds, the buffer holds on return
  \<open>(Identity - (\<Delta>t/2) \<cdot> \<Gamma>) \<cdot> input\<close>: the identity is added once per owned atom, and for
  each neighbour pair within cutoff and not degenerate \<open>\<Gamma>\<close> projects the relative
  velocity read from the input onto the unit separation vector, scales the projection,
  a vector along the unit separation vector, by \<open>- gamma * w\<^sup>2\<close> (with no division by
  \<open>r\<close>) and by the exclusion factor, adds the vector to the entries of the owned atom and
  subtracts it from the entries of the neighbour when \<^verbatim>\<open>newton_pair\<close> is set or the
  neighbour is owned.
\<close>

theorem compute_step_operator:
  assumes "compute_step env p input (zeros m) = Some out"
    and "owned_at_state_index env"
  shows "out = map (step_operator minus_gamma_w2 newton_or_owned by_tag env p input) [0..<m]"
  unfolding compute_step_zeros [OF assms(1)]
  by (simp add: step_operator_by_tag [OF assms(2)])

theorem compute_step_operator_witness:
  "[5 / 4, 0, 0, - (1 / 4), 0, 0]
     = map (step_operator minus_gamma_w2 newton_or_owned by_tag ex_far ex_pair
         [1, 0, 0, 0, 0, 0]) [0..<6]"
  using compute_step_operator [OF ex_far_step ex_far_owned] .

subsection \<open>The restart round trip\<close>

text \<open>
  Claim C8. For tables allocated for \<open>n\<close> atom types, \<^verbatim>\<open>write_restart\<close> writes the
  settings block followed, for each unordered type pair in the order of the loops, by
  exactly one set flag and, only if the flag is set, by the three doubles \<open>a0\<close>,
  \<open>gamma\<close>, \<open>cut\<close> in that order. \<^verbatim>\<open>read_restart\<close>, given that file followed by
  anything else (\<open>rest\<close>), with any previous state \<open>p0\<close> and any content of the freshly
  allocated arrays, succeeds, consumes exactly what was written (it returns \<open>rest\<close>, so
  nothing beyond the flag is consumed for an unset pair), restores the settings, and for
  every type pair the flag read back equals the flag written and, for a set pair, the
  three coefficients equal the ones written. (Doubles are reals: equal values stand for
  equal bit patterns.)
\<close>

theorem restart_round_trip:
  assumes "allocated p n" and "allocated fresh n" and "atom_ntypes env = n"
  shows "write_restart env p []
       = Some (restart_settings p @ concat (map (restart_entry p) (type_pairs n))) \<and>
     (\<exists>p'. read_restart env fresh p0
          (restart_settings p @ concat (map (restart_entry p) (type_pairs n)) @ rest)
          = Some (p', rest) \<and>
        settings_of p' = settings_of p \<and>
        (\<forall>ij\<in>set (type_pairs n). restart_agrees p' p ij))"
proof -
  have w: "write_restart env p []
       = Some (restart_settings p @ concat (map (restart_entry p) (type_pairs n)))"
    using write_restart_layout [OF assms(1,3), of "[]"] by simp
  define p1 where "p1 = p0\<lparr>temperature := temperature p, cut_global := cut_global p,
     seed := seed p, mix_flag := mix_flag p\<rparr>"
  from allocate_ok [OF assms(2,3), of p1]
  obtain p2 where al: "allocate env fresh p1 = Some p2" and a2: "allocated p2 n"
    and s2: "settings_of p2 = settings_of p1" by blast
  have r: "\<forall>ij\<in>set (type_pairs n). 0 \<le> fst ij \<and> fst ij \<le> n \<and> 0 \<le> snd ij \<and> snd ij \<le> n"
    using type_pairs_range [of _ n] by fastforce
  from read_restart_pairs [OF a2 r distinct_type_pairs, of p rest]
  obtain p' where l: "forM (type_pairs n) (\<lambda>(i, j). read_restart_pair i j)
        (p2, concat (map (restart_entry p) (type_pairs n)) @ rest) = Some (p', rest)"
    and s': "settings_of p' = settings_of p2"
    and g: "\<forall>ij\<in>set (type_pairs n). restart_agrees p' p ij"
    by blast
  have "read_restart env fresh p0
          (restart_settings p @ concat (map (restart_entry p) (type_pairs n)) @ rest)
          = Some (p', rest)"
    unfolding read_restart_def assms(3) forM_nested type_pairs_def [symmetric]
      read_restart_settings_block p1_def [symmetric]
    using al l by simp
  moreover have "settings_of p' = settings_of p"
    using s' s2 by (simp add: settings_of_def p1_def)
  ultimately show ?thesis using w g by blast
qed

lemma ex_two_pairs: "type_pairs 2 = [(1, 1), (1, 2), (2, 2)]"
  by (simp add: type_pairs_def upto_rec1)

theorem restart_round_trip_witness:
  "write_restart (ex_env\<lparr>atom_ntypes := 2\<rparr>) ex_two []
     = Some [SDouble 1, SDouble 2, SInt 34387, SInt 0,
             SInt 1, SDouble 25, SDouble 4, SDouble 2, SInt 0, SInt 0] \<and>
   (\<exists>p'. read_restart (ex_env\<lparr>atom_ntypes := 2\<rparr>) ex_fresh ex_fresh
        [SDouble 1, SDouble 2, SInt 34387, SInt 0,
         SInt 1, SDouble 25, SDouble 4, SDouble 2, SInt 0, SInt 0, SInt 77]
        = Some (p', [SInt 77]) \<and>
      settings_of p' = (1, 2, 34387, 0) \<and>
      coeffs_at p' (1, 1) = (1, 25, 4, 2) \<and>
      fst (coeffs_at p' (1, 2)) = 0 \<and>
      fst (coeffs_at p' (2, 2)) = 0)"
proof -
  have a: "allocated ex_two 2" "allocated ex_fresh 2"
    by (simp_all add: allocated_def dims_def ex_two_def ex_fresh_def)
  have n: "atom_ntypes (ex_env\<lparr>atom_ntypes := 2\<rparr>) = 2" by simp
  have e: "restart_settings ex_two @ concat (map (restart_entry ex_two) (type_pairs 2))
      = [SDouble 1, SDouble 2, SInt 34387, SInt 0,
         SInt 1, SDouble 25, SDouble 4, SDouble 2, SInt 0, SInt 0]"
    by (simp add: ex_two_pairs restart_settings_def restart_entry_def ex_two_def)
  have c: "coeffs_at ex_two (1, 1) = (1, 25, 4, 2)" "fst (coeffs_at ex_two (1, 2)) = 0"
    "fst (coeffs_at ex_two (2, 2)) = 0" "settings_of ex_two = (1, 2, 34387, 0)"
    by (simp_all add: coeffs_at_def ex_two_def settings_of_def)
  have e': "restart_settings ex_two @ concat (map (restart_entry ex_two) (type_pairs 2))
        @ [SInt 77]
      = [SDouble 1, SDouble 2, SInt 34387, SInt 0,
         SInt 1, SDouble 25, SDouble 4, SDouble 2, SInt 0, SInt 0, SInt 77]"
    by (simp add: ex_two_pairs restart_settings_def restart_entry_def ex_two_def)
  show ?thesis
    using restart_round_trip [OF a n, of ex_fresh "[SInt 77]"] c
    unfolding e e' by (auto simp: ex_two_pairs restart_agrees_def)
qed

subsection \<open>The solver runs its fixed budget\<close>

text \<open>
  Claim C5. Let the operator be applicable to vectors of \<open>3 * nlocal\<close> entries (a call of
  \<^verbatim>\<open>compute_step\<close> on buffers of that length succeeds), and let the input have at least
  that many entries and the output buffer and the test buffer exactly that many. Then,
  for every right-hand side \<open>b\<close> and every dense inverse:

  \<^item> When \<^verbatim>\<open>compute_inverse\<close> returns, it has made the 10 applications of the operator of
    its budget (the first before the loop, one in each of the iterations 2 to 10), each
    one a call of \<^verbatim>\<open>compute_step\<close> on the normalized residual with the residual as
    buffer; the output is the iterate \<open>x\<^sub>1\<^sub>0 = \<beta>\<^sub>0 \<cdot> Basis \<cdot> coefficients\<close>, computed from the
    dense inverse of the tridiagonal matrix of the coefficients \<open>\<alpha>\<^sub>1, \<dots>, \<alpha>\<^sub>1\<^sub>0\<close> and
    \<open>\<beta>\<^sub>1, \<dots>, \<beta>\<^sub>9\<close> of these applications. The convergence test only prints: the numbers
    printed are the \<open>k\<close> from 3 to 10 at which the norm of \<open>x\<^sub>k\<^sub>-\<^sub>1 - x\<^sub>k\<close> is below
    \<^verbatim>\<open>tolLanczos\<close>, and the output is \<open>x\<^sub>1\<^sub>0\<close> whatever was printed. After the loop the
    operator is applied once more, to the output, for the rows of the test print.

  \<^item> When \<^verbatim>\<open>compute_inverse\<close> does not return a result, there is an iteration \<open>k\<close> from
    2 to 10 in which, after the \<open>k\<close> applications made so far, the dense inverse of the
    projected matrix of size \<open>k\<close> failed.

  Both cases occur with the exact inverse. In \<open>ex_ghost4\<close>, for the right-hand side
  \<open>[0, 0, 0, 1, 0, 0]\<close>, the ten projected matrices have inverses and the solver
  returns \<open>x\<^sub>1\<^sub>0\<close>, printing nothing. In \<open>ex_env\<close>, for the right-hand side
  \<open>[1, 0, 0, 0, 0, 0]\<close>, the residual of iteration 3 is zero, the projected matrix of
  size 3 has a zero row, and the solver returns nothing.
\<close>

theorem compute_inverse_fixed_budget:
  assumes ok: "compute_step env p (zeros (state_size env)) (zeros (state_size env)) = Some z"
    and li: "state_size env \<le> length input"
    and lo: "length output = state_size env"
    and lt: "length test_out = state_size env"
  shows "case compute_inverse env p dense_inverse test_out input output of
      None \<Rightarrow>
        \<exists>k\<in>{2..10}. \<exists>tr. applications env p (right_hand_side env input) k tr \<and>
          dense_inverse (tridiagonal tr k) = None
    | Some (out, ks, rows) \<Rightarrow>
        \<exists>tr. applications env p (right_hand_side env input) 10 tr \<and>
          krylov_iterate dense_inverse (vnorm (right_hand_side env input)) (state_size env) tr 10
            = Some out \<and>
          ks = map int (filter (reports dense_inverse (vnorm (right_hand_side env input))
                  (state_size env) tolLanczos tr) [3..<11]) \<and>
          (\<exists>t. compute_step env p out test_out = Some t \<and>
             rows = map (\<lambda>i. (input ! i, out ! i, t ! i)) [0..<state_size env])"
proof (cases "lanczos_run env p dense_inverse tolLanczos input")
  case None
  then have "compute_inverse env p dense_inverse test_out input output = None"
    by (simp add: compute_inverse_def)
  then show ?thesis
    using lanczos_run_None [OF ok li None] by (simp only: option.case)
next
  case (Some a)
  define b where "b = right_hand_side env input"
  define sz where "sz = state_size env"
  obtain nrm st where a: "a = (nrm, st)" by (cases a)
  note run = Some [unfolded a]
  have nrm: "nrm = vnorm b"
    unfolding b_def using ok li run by (rule lanczos_run_Some(1))
  from lanczos_run_Some(2) [OF ok li run]
  obtain tr where s: "krylov_state env p b 10 st tr"
    and v: "krylov_solved env dense_inverse nrm tolLanczos 10 st tr"
    unfolding b_def by blast
  from s have ap: "applications env p b 10 tr"
    by (simp add: krylov_state_def)
  from v have x: "krylov_iterate dense_inverse nrm sz tr 10 = Some (xk_save st)"
    and pr: "printed st = map int (filter (reports dense_inverse nrm sz tolLanczos tr) [3..<11])"
    by (simp_all add: krylov_solved_def sz_def)
  have lx: "length (xk_save st) = sz"
    using x by (rule length_krylov_iterate)
  have u: "[0..atom_nlocal env * 3 - 1] = [0..int sz - 1]"
    using upto_nat [of "atom_nlocal env * 3"] by (simp add: sz_def state_size_def)
  have cp: "forM [0..atom_nlocal env * 3 - 1] (\<lambda>i out. rd (xk_save st) i \<bind> wr out i) output
      = Some (xk_save st)"
    using lx lo by (intro copy_loop) (simp_all add: sz_def state_size_def)
  from step_ok_any [OF ok, of "xk_save st" test_out] lx lt
  obtain t where t: "compute_step env p (xk_save st) test_out = Some t"
    and ltt: "length t = sz" by (auto simp: sz_def)
  have rows: "those (map (\<lambda>i. rd input i \<bind> (\<lambda>x. rd (xk_save st) i \<bind>
        (\<lambda>y. rd t i \<bind> (\<lambda>w. Some (x, y, w))))) [0..atom_nlocal env * 3 - 1])
      = Some (map (\<lambda>i. (input ! i, xk_save st ! i, t ! i)) [0..<sz])"
    unfolding u using li lx ltt by (intro test_rows) (simp_all add: sz_def)
  have r: "compute_inverse env p dense_inverse test_out input output
      = Some (xk_save st, printed st, map (\<lambda>i. (input ! i, xk_save st ! i, t ! i)) [0..<sz])"
    unfolding compute_inverse_def Let_def
    using run cp t rows by simp
  have "applications env p b 10 tr \<and>
      krylov_iterate dense_inverse (vnorm b) sz tr 10 = Some (xk_save st) \<and>
      printed st = map int (filter (reports dense_inverse (vnorm b) sz tolLanczos tr) [3..<11]) \<and>
      (\<exists>t'. compute_step env p (xk_save st) test_out = Some t' \<and>
         map (\<lambda>i. (input ! i, xk_save st ! i, t ! i)) [0..<sz]
           = map (\<lambda>i. (input ! i, xk_save st ! i, t' ! i)) [0..<sz])"
    using ap x pr t unfolding nrm by blast
  then show ?thesis
    unfolding r option.case prod.case b_def sz_def by (rule exI)
qed

theorem compute_inverse_fixed_budget_witness:
  "(\<exists>tr. compute_inverse ex_ghost4 ex_pair exact_inverse [0, 0, 0, 0, 0, 0] [0, 0, 0, 1, 0, 0]
           [0, 0, 0, 0, 0, 0]
         = Some ([- (409166 / 648597), 0, 0, - (297009 / 216199), 0, 0], [],
             [(0, - (409166 / 648597), 184852 / 216199), (0, 0, 0), (0, 0, 0),
              (1, - (297009 / 216199), - (297009 / 216199)), (0, 0, 0), (0, 0, 0)]) \<and>
       applications ex_ghost4 ex_pair [0, 0, 0, 1, 0, 0] 10 tr \<and>
       krylov_iterate exact_inverse 1 6 tr 10
         = Some [- (409166 / 648597), 0, 0, - (297009 / 216199), 0, 0]) \<and>
   compute_inverse ex_env ex_pair exact_inverse [0, 0, 0, 0, 0, 0] [1, 0, 0, 0, 0, 0]
       [0, 0, 0, 0, 0, 0] = None \<and>
   (\<exists>k\<in>{2..10}. \<exists>tr. applications ex_env ex_pair [1, 0, 0, 0, 0, 0] k tr \<and>
      exact_inverse (tridiagonal tr k) = None)"
proof -
  have b: "right_hand_side ex_ghost4 [0, 0, 0, 1, 0, 0] = [0, 0, 0, 1, 0, 0]"
    "right_hand_side ex_env [1, 0, 0, 0, 0, 0] = [1, 0, 0, 0, 0, 0]"
    by (simp_all add: right_hand_side_def ex_state_size)
  have n: "vnorm [0, 0, 0, 1, 0, 0] = 1"
    by (simp add: vnorm_def squaredNorm_def)
  have l: "(6 :: nat) \<le> length [0, 0, 0, 1, 0, 0 :: real]"
    "(6 :: nat) \<le> length [1, 0, 0, 0, 0, 0 :: real]"
    "length [0, 0, 0, 0, 0, 0 :: real] = 6"
    by simp_all
  from compute_inverse_fixed_budget [of ex_ghost4 ex_pair "zeros 6" "[0, 0, 0, 1, 0, 0]"
      "[0, 0, 0, 0, 0, 0]" "[0, 0, 0, 0, 0, 0]" exact_inverse]
  have 1: "\<exists>tr. applications ex_ghost4 ex_pair [0, 0, 0, 1, 0, 0] 10 tr \<and>
      krylov_iterate exact_inverse 1 6 tr 10
        = Some [- (409166 / 648597), 0, 0, - (297009 / 216199), 0, 0]"
    unfolding ex_state_size ex_ghost4_result b n option.case prod.case
    using ex_step_zeros(1) l by blast
  from compute_inverse_fixed_budget [of ex_env ex_pair "zeros 6" "[1, 0, 0, 0, 0, 0]"
      "[0, 0, 0, 0, 0, 0]" "[0, 0, 0, 0, 0, 0]" exact_inverse]
  have 2: "\<exists>k\<in>{2..10}. \<exists>tr. applications ex_env ex_pair [1, 0, 0, 0, 0, 0] k tr \<and>
      exact_inverse (tridiagonal tr k) = None"
    unfolding ex_state_size ex_env_result b option.case
    using ex_step_zeros(2) l by blast
  from 1 2 show ?thesis
    using ex_ghost4_result ex_env_result by blast
qed

subsection \<open>The residual handed to the operator\<close>

text \<open>
  Claim C3 describes what the source is meant to do (its line 593 reads
  \<^verbatim>\<open>//rk = A_FT * Vn.col(k-1);\<close>) and the source does something else: \<^verbatim>\<open>rk\<close> still
  holds the orthogonalized residual when it is passed to \<^verbatim>\<open>compute_step\<close> as the output
  buffer, and \<^verbatim>\<open>compute_step\<close> adds to that buffer. In \<open>ex_env\<close> with the right-hand side
  \<open>[1, 0, 0, 0, 0, 0]\<close>, iteration 2 appends \<open>v\<^sub>2 = [0, 0, 0, - 1, 0, 0]\<close> to the basis and
  leaves \<open>rk = [1, 0, 0, - 3, 0, 0]\<close> and \<^verbatim>\<open>alpha[2]\<close> = 3; the operator applied to
  \<open>v\<^sub>2\<close> is \<open>[1, 0, 0, - 2, 0, 0]\<close>, which gives \<open>v\<^sub>2\<^sup>t r = 2\<close>.
\<close>

theorem lanczos_residual_not_cleared:
  "lanczos_init ex_env ex_pair [1, 0, 0, 0, 0, 0]
     = Some (1, \<lparr>Vn = [[1, 0, 0, 0, 0, 0]], rk = [2, 0, 0, - 1, 0, 0],
         alpha = [0, 2, 0, 0, 0, 0, 0, 0, 0, 0, 0], beta = [0, 0, 0, 0, 0, 0, 0, 0, 0, 0, 0],
         xk_save = [], printed = []\<rparr>) \<and>
   lanczos_extend ex_env ex_pair 2
       \<lparr>Vn = [[1, 0, 0, 0, 0, 0]], rk = [2, 0, 0, - 1, 0, 0],
         alpha = [0, 2, 0, 0, 0, 0, 0, 0, 0, 0, 0], beta = [0, 0, 0, 0, 0, 0, 0, 0, 0, 0, 0],
         xk_save = [], printed = []\<rparr>
     = Some \<lparr>Vn = [[1, 0, 0, 0, 0, 0], [0, 0, 0, - 1, 0, 0]], rk = [1, 0, 0, - 3, 0, 0],
         alpha = [0, 2, 3, 0, 0, 0, 0, 0, 0, 0, 0], beta = [0, 1, 0, 0, 0, 0, 0, 0, 0, 0, 0],
         xk_save = [], printed = []\<rparr> \<and>
   compute_step ex_env ex_pair [0, 0, 0, - 1, 0, 0] (zeros 6) = Some [1, 0, 0, - 2, 0, 0] \<and>
   vdot [0, 0, 0, - 1, 0, 0] [1, 0, 0, - 2, 0, 0] = 2"
  using ex_init ex_extend ex_step_v2 by (simp add: vdot_def)


end
